(* ===== verification/Prelude.thy ===== *)
theory Prelude
  imports Main "HOL-Library.Sublist"
begin

text \<open>
  Shared vocabulary of the development: the error values of the HTTP handlers, results as
  sums, table rows kept in a list under a key, and the generic list lemmas the components use.
  A collection \<open>table_simps\<close> gathers the facts about keyed tables.
\<close>

section \<open>Results and errors\<close>

text \<open>
  \<open>Problem\<close> is the \<open>apiError\<close> of \<open>server.go\<close> (status and text); \<open>RetryAfter\<close> is the
  \<open>apiError\<close> \<open>retryAfter\<close> of \<open>limits.go\<close> returns, with the value of its header; \<open>Internal\<close>
  is any other Go error, which \<open>writeError\<close> reports as a status 500 with a fixed text. \<open>Fault\<close> is
  not an error value of the code: it stands for a handler that panics or never returns, so that
  it can be proved never to happen. The panics written out this way are the reads of a slice by an
  index in the participant API and in the event log (\<open>slice_at\<close>), the choice of a panel, an empty
  allocation block and a missing entry of the login limiter; the loops that may not return are the walks
  from a node to its ancestors.
\<close>

datatype api_error = Problem nat string | RetryAfter nat | Internal string | Fault string

type_synonym 'a result = "api_error + 'a"

definition ok :: "'e + 'a \<Rightarrow> bool" where
  "ok r = (case r of Inl _ \<Rightarrow> False | Inr _ \<Rightarrow> True)"

lemma ok_simps [simp]: "\<not> ok (Inl e)" "ok (Inr a)"
  by (simp_all add: ok_def)

lemma okE: "ok r \<Longrightarrow> (\<And>a. r = Inr a \<Longrightarrow> P) \<Longrightarrow> P"
  by (cases r) (auto simp: ok_def)

text \<open>\<open>writeError\<close>: the status and the text that reach the client.\<close>

fun error_response :: "api_error \<Rightarrow> (nat \<times> string) option" where
  "error_response (Problem s t) = Some (s, t)"
| "error_response (RetryAfter n) = Some (429, ''too many requests; try again later'')"
| "error_response (Internal t) = Some (500, ''internal server error'')"
| "error_response (Fault t) = None"

text \<open>\<open>xs[i]\<close> of a Go slice and an \<open>int\<close> index: it panics out of range.\<close>

definition slice_at :: "'a list \<Rightarrow> int \<Rightarrow> 'a result" where
  "slice_at xs i = (if 0 \<le> i \<and> i < int (length xs) then Inr (xs ! nat i)
     else Inl (Fault ''index out of range''))"

lemma slice_at_Inr [simp]: "slice_at xs i = Inr x \<longleftrightarrow> 0 \<le> i \<and> i < int (length xs) \<and> xs ! nat i = x"
  by (auto simp: slice_at_def)

lemma slice_at_Inl: "slice_at xs i = Inl e \<longleftrightarrow> (i < 0 \<or> int (length xs) \<le> i) \<and> e = Fault ''index out of range''"
  by (auto simp: slice_at_def)

lemma slice_at_nat [simp]: "n < length xs \<Longrightarrow> slice_at xs (int n) = Inr (xs ! n)"
  by (simp add: slice_at_def)

lemma slice_at_first [simp]: "slice_at (x # xs) 0 = Inr x"
  by (simp add: slice_at_def)

lemma slice_at_last [simp]: "xs \<noteq> [] \<Longrightarrow> slice_at xs (int (length xs) - 1) = Inr (last xs)"
  by (cases xs) (auto simp: slice_at_def last_conv_nth nat_diff_distrib)

text \<open>A step that may fail, followed by the rest of the operation.\<close>

lemma result_Inr [simp]:
  "(case r of Inl e \<Rightarrow> Inl e | Inr x \<Rightarrow> f x) = Inr y \<longleftrightarrow> (\<exists>x. r = Inr x \<and> f x = Inr y)"
  by (cases r) auto

lemma check_Inr [simp]:
  "(case c of None \<Rightarrow> r | Some e \<Rightarrow> Inl e) = Inr y \<longleftrightarrow> c = None \<and> r = Inr y"
  by (cases c) auto

text \<open>A sequence of checks, each of which may stop with an error.\<close>

lemma first_error_None [simp]:
  "(case o1 of None \<Rightarrow> o2 | Some e \<Rightarrow> Some e) = None \<longleftrightarrow> o1 = None \<and> o2 = None"
  by (cases o1) auto

section \<open>Keyed tables\<close>

text \<open>
  A database table is the list of its rows in insertion order; \<open>key\<close> reads the primary key.
  \<open>tbl_insert\<close> is an SQL \<open>INSERT\<close> under a uniqueness constraint: it fails on a duplicate key.
\<close>

named_theorems table_simps

definition tbl_lookup :: "('r \<Rightarrow> 'k) \<Rightarrow> 'k \<Rightarrow> 'r list \<Rightarrow> 'r option" where
  "tbl_lookup key k t = find (\<lambda>r. key r = k) t"

definition tbl_insert :: "('r \<Rightarrow> 'k) \<Rightarrow> 'r \<Rightarrow> 'r list \<Rightarrow> 'r list option" where
  "tbl_insert key r t = (if key r \<in> set (map key t) then None else Some (t @ [r]))"

definition tbl_update :: "('r \<Rightarrow> bool) \<Rightarrow> ('r \<Rightarrow> 'r) \<Rightarrow> 'r list \<Rightarrow> 'r list" where
  "tbl_update p f t = map (\<lambda>r. if p r then f r else r) t"

definition tbl_delete :: "('r \<Rightarrow> bool) \<Rightarrow> 'r list \<Rightarrow> 'r list" where
  "tbl_delete p t = filter (\<lambda>r. \<not> p r) t"

definition tbl_count :: "('r \<Rightarrow> bool) \<Rightarrow> 'r list \<Rightarrow> nat" where
  "tbl_count p t = length (filter p t)"

definition tbl_keys :: "('r \<Rightarrow> 'k) \<Rightarrow> 'r list \<Rightarrow> bool" where
  "tbl_keys key t = distinct (map key t)"

lemma tbl_lookup_Some: "tbl_lookup key k t = Some r \<Longrightarrow> r \<in> set t \<and> key r = k"
  by (auto simp: tbl_lookup_def find_Some_iff in_set_conv_nth)

lemma tbl_lookup_None: "tbl_lookup key k t = None \<longleftrightarrow> k \<notin> key ` set t"
  by (auto simp: tbl_lookup_def find_None_iff)

lemma tbl_lookup_unique:
  "tbl_keys key t \<Longrightarrow> r \<in> set t \<Longrightarrow> tbl_lookup key (key r) t = Some r"
proof (induction t)
  case Nil
  then show ?case by simp
next
  case (Cons x t)
  then show ?case
    by (cases "key x = key r") (auto simp: tbl_lookup_def tbl_keys_def image_iff)
qed

lemma tbl_insert_Some:
  "tbl_insert key r t = Some t' \<longleftrightarrow> key r \<notin> key ` set t \<and> t' = t @ [r]"
  by (auto simp: tbl_insert_def)

lemma tbl_insert_keys: "tbl_keys key t \<Longrightarrow> tbl_insert key r t = Some t' \<Longrightarrow> tbl_keys key t'"
  by (auto simp: tbl_keys_def tbl_insert_def split: if_splits)

lemma tbl_update_keys:
  "tbl_keys key t \<Longrightarrow> (\<And>r. key (f r) = key r) \<Longrightarrow> tbl_keys key (tbl_update p f t)"
  by (auto simp: tbl_keys_def tbl_update_def comp_def if_distrib cong: if_cong)

lemma tbl_delete_keys: "tbl_keys key t \<Longrightarrow> tbl_keys key (tbl_delete p t)"
  by (simp add: tbl_keys_def tbl_delete_def distinct_map_filter)

lemma tbl_lookup_insert:
  assumes "tbl_insert key r t = Some t'"
  shows "tbl_lookup key k t' = (if k = key r then Some r else tbl_lookup key k t)"
proof -
  have "key r \<notin> key ` set t" and t': "t' = t @ [r]"
    using assms by (auto simp: tbl_insert_Some)
  then have "tbl_lookup key (key r) t = None" by (simp add: tbl_lookup_None)
  moreover have "tbl_lookup key k (t @ [r]) =
      (case tbl_lookup key k t of None \<Rightarrow> if key r = k then Some r else None | Some x \<Rightarrow> Some x)"
    by (induction t) (auto simp: tbl_lookup_def)
  ultimately show ?thesis by (auto simp: t' split: option.splits)
qed

lemma tbl_lookup_update:
  assumes "\<And>r. key (f r) = key r"
  shows "tbl_lookup key k (tbl_update (\<lambda>r. key r = k') f t) =
    (if k = k' then map_option f (tbl_lookup key k t) else tbl_lookup key k t)"
  using assms by (induction t) (auto simp: tbl_lookup_def tbl_update_def)

lemma tbl_lookup_delete:
  assumes "tbl_keys key t"
  shows "tbl_lookup key k (tbl_delete p t) =
    (case tbl_lookup key k t of Some r \<Rightarrow> if p r then None else Some r | None \<Rightarrow> None)"
  using assms
proof (induction t)
  case Nil
  then show ?case by (simp add: tbl_lookup_def tbl_delete_def)
next
  case (Cons x t)
  have IH: "tbl_lookup key k (tbl_delete p t) =
      (case tbl_lookup key k t of Some r \<Rightarrow> if p r then None else Some r | None \<Rightarrow> None)"
    using Cons by (simp add: tbl_keys_def)
  show ?case
  proof (cases "key x = k")
    case True
    then have "k \<notin> key ` set t" using Cons.prems by (auto simp: tbl_keys_def)
    then have "tbl_lookup key k t = None" by (simp add: tbl_lookup_None)
    then show ?thesis using IH True by (auto simp: tbl_lookup_def tbl_delete_def)
  next
    case False
    then show ?thesis using IH by (auto simp: tbl_lookup_def tbl_delete_def)
  qed
qed

lemmas tbl_lookup_laws [table_simps] = tbl_lookup_insert tbl_lookup_update tbl_lookup_delete

lemma tbl_update_length [simp]: "length (tbl_update p f t) = length t"
  by (simp add: tbl_update_def)

lemma tbl_update_set: "set (tbl_update p f t) = (\<lambda>r. if p r then f r else r) ` set t"
  by (simp add: tbl_update_def)

lemma tbl_delete_set [simp]: "set (tbl_delete p t) = {r \<in> set t. \<not> p r}"
  by (auto simp: tbl_delete_def)

lemma tbl_count_append [simp]: "tbl_count p (s @ t) = tbl_count p s + tbl_count p t"
  by (simp add: tbl_count_def)

lemma tbl_count_zero: "tbl_count p t = 0 \<longleftrightarrow> (\<forall>r \<in> set t. \<not> p r)"
  by (simp add: tbl_count_def filter_empty_conv)

lemma tbl_count_le: "tbl_count p t \<le> length t"
  by (simp add: tbl_count_def)

section \<open>Lists\<close>

lemma takeWhile_append_stop: "\<forall>x \<in> set xs. P x \<Longrightarrow> \<not> P y \<Longrightarrow> takeWhile P (xs @ y # ys) = xs"
  by (induction xs) auto

lemma dropWhile_append_stop: "\<forall>x \<in> set xs. P x \<Longrightarrow> \<not> P y \<Longrightarrow> dropWhile P (xs @ y # ys) = y # ys"
  by (induction xs) auto

lemma takeWhile_all_id: "\<forall>x \<in> set xs. P x \<Longrightarrow> takeWhile P xs = xs"
  by (simp add: takeWhile_eq_all_conv)

lemma takeWhile_stop:
  "\<forall>x \<in> set xs. P x \<Longrightarrow> ys = [] \<or> \<not> P (hd ys) \<Longrightarrow> takeWhile P (xs @ ys) = xs"
  by (induction xs) (auto simp: neq_Nil_conv takeWhile_eq_Nil_iff)

lemma drop_takeWhile: "drop (length (takeWhile P xs)) xs = dropWhile P xs"
  by (metis dropWhile_eq_drop)

lemma sum_list_le_length:
  fixes f :: "'a \<Rightarrow> nat"
  shows "(\<And>x. x \<in> set xs \<Longrightarrow> f x \<le> c) \<Longrightarrow> sum_list (map f xs) \<le> c * length xs"
  by (induction xs) (auto simp: add_mono)

end
