(* ===== verification/GoText.thy ===== *)
theory GoText
  imports Prelude
begin

text \<open>
  The part of Go's \<open>strings\<close>, \<open>unicode/utf8\<close>, \<open>strconv\<close> and \<open>bufio\<close> packages that the
  program uses, on Go strings as byte lists (\<open>char\<close> is one byte, so \<open>length\<close> is Go's \<open>len\<close>).
\<close>

section \<open>Prefixes, suffixes and cut sets\<close>

fun has_prefix :: "string \<Rightarrow> string \<Rightarrow> bool" where
  "has_prefix [] s = True"
| "has_prefix (p # ps) [] = False"
| "has_prefix (p # ps) (c # s) = (p = c \<and> has_prefix ps s)"

lemma has_prefix_iff: "has_prefix p s \<longleftrightarrow> (\<exists>r. s = p @ r)"
  by (induction p s rule: has_prefix.induct) auto

lemma has_prefix_append [simp]: "has_prefix p (p @ r)"
  by (auto simp: has_prefix_iff)

definition has_suffix :: "string \<Rightarrow> string \<Rightarrow> bool" where
  "has_suffix p s = has_prefix (rev p) (rev s)"

lemma has_suffix_iff: "has_suffix p s \<longleftrightarrow> (\<exists>r. s = r @ p)"
  by (auto simp: has_suffix_def has_prefix_iff) (metis rev_append rev_rev_ident)

definition trim_left :: "char list \<Rightarrow> string \<Rightarrow> string" where
  "trim_left cs s = dropWhile (\<lambda>c. c \<in> set cs) s"

definition trim_right :: "char list \<Rightarrow> string \<Rightarrow> string" where
  "trim_right cs s = rev (trim_left cs (rev s))"

definition contains_any :: "char list \<Rightarrow> string \<Rightarrow> bool" where
  "contains_any cs s = list_ex (\<lambda>c. c \<in> set cs) s"

lemma contains_any_iff: "contains_any cs s \<longleftrightarrow> set s \<inter> set cs \<noteq> {}"
  by (auto simp: contains_any_def list_ex_iff)

lemma trim_left_id: "s = [] \<or> hd s \<notin> set cs \<Longrightarrow> trim_left cs s = s"
  by (cases s) (auto simp: trim_left_def)

lemma trim_right_id: "s = [] \<or> last s \<notin> set cs \<Longrightarrow> trim_right cs s = s"
  by (cases s rule: rev_cases) (auto simp: trim_right_def trim_left_def)

lemma trim_left_split: "\<exists>p. s = p @ trim_left cs s \<and> set p \<subseteq> set cs"
  by (rule exI [of _ "takeWhile (\<lambda>c. c \<in> set cs) s"])
     (auto simp: trim_left_def dest: set_takeWhileD)

lemma length_trim_left: "length (trim_left cs s) \<le> length s"
  by (simp add: trim_left_def length_dropWhile_le)

lemma length_trim_right: "length (trim_right cs s) \<le> length s"
  using length_trim_left [of cs "rev s"] by (simp add: trim_right_def)

section \<open>TrimSpace\<close>

text \<open>
  \<open>strings.TrimSpace\<close> strips Unicode White_Space at both ends. In UTF-8 these are six ASCII
  bytes and the two- and three-byte encodings below; on a byte string a rune of that class
  starts (ends) the string exactly when one of these sequences is a prefix (suffix).
\<close>

definition space_seqs :: "string list" where
  "space_seqs =
     map (\<lambda>c. [c]) [CHR 0x09, CHR 0x0A, CHR 0x0B, CHR 0x0C, CHR 0x0D, CHR 0x20]
   @ [[CHR 0xC2, CHR 0x85], [CHR 0xC2, CHR 0xA0], [CHR 0xE1, CHR 0x9A, CHR 0x80]]
   @ map (\<lambda>c. [CHR 0xE2, CHR 0x80, c])
       [CHR 0x80, CHR 0x81, CHR 0x82, CHR 0x83, CHR 0x84, CHR 0x85, CHR 0x86, CHR 0x87,
        CHR 0x88, CHR 0x89, CHR 0x8A, CHR 0xA8, CHR 0xA9, CHR 0xAF]
   @ [[CHR 0xE2, CHR 0x81, CHR 0x9F], [CHR 0xE3, CHR 0x80, CHR 0x80]]"

fun strip_prefixes :: "string list \<Rightarrow> nat \<Rightarrow> string \<Rightarrow> string" where
  "strip_prefixes qs 0 s = s"
| "strip_prefixes qs (Suc n) s =
     (case find (\<lambda>q. has_prefix q s) qs of
        None \<Rightarrow> s
      | Some q \<Rightarrow> strip_prefixes qs n (drop (length q) s))"

text \<open>Every stripped sequence is at least one byte, so \<open>length s\<close> rounds are enough.\<close>

definition trim_space :: "string \<Rightarrow> string" where
  "trim_space s =
     (let l = strip_prefixes space_seqs (length s) s
      in rev (strip_prefixes (map rev space_seqs) (length l) (rev l)))"

lemma space_seqs_nonempty: "q \<in> set space_seqs \<Longrightarrow> q \<noteq> []"
  by (auto simp: space_seqs_def)

lemma space_seqs_no_Nil [simp]: "[] \<notin> set space_seqs"
  by (auto dest: space_seqs_nonempty)

lemma strip_prefixes_done:
  assumes "\<And>q. q \<in> set qs \<Longrightarrow> q \<noteq> []"
  shows "length s \<le> n \<Longrightarrow> find (\<lambda>q. has_prefix q (strip_prefixes qs n s)) qs = None"
proof (induction n arbitrary: s)
  case 0
  have "\<not> has_prefix q []" if "q \<in> set qs" for q
    using assms [OF that] by (cases q) auto
  with 0 show ?case by (auto simp: find_None_iff)
next
  case (Suc n)
  show ?case
  proof (cases "find (\<lambda>q. has_prefix q s) qs")
    case None
    then show ?thesis by simp
  next
    case (Some q)
    then have "q \<in> set qs" "has_prefix q s"
      by (auto simp: find_Some_iff in_set_conv_nth)
    then have "q \<noteq> []" "length q \<le> length s"
      using assms by (auto simp: has_prefix_iff)
    then have "length (drop (length q) s) \<le> n"
      using Suc.prems by (cases q) auto
    from Suc.IH [OF this] Some show ?thesis by simp
  qed
qed

lemma strip_prefixes_suffix: "\<exists>p. s = p @ strip_prefixes qs n s"
proof (induction n arbitrary: s)
  case 0
  then show ?case by simp
next
  case (Suc n)
  show ?case
  proof (cases "find (\<lambda>q. has_prefix q s) qs")
    case None
    then show ?thesis by simp
  next
    case (Some q)
    obtain p where "drop (length q) s = p @ strip_prefixes qs n (drop (length q) s)"
      using Suc.IH by blast
    then have "s = (take (length q) s @ p) @ strip_prefixes qs (Suc n) s"
      using Some by (metis append.assoc append_take_drop_id option.simps(5) strip_prefixes.simps(2))
    then show ?thesis by blast
  qed
qed

lemma strip_prefixes_id:
  "(\<And>q. q \<in> set qs \<Longrightarrow> \<not> has_prefix q s) \<Longrightarrow> strip_prefixes qs n s = s"
  by (cases n) (auto simp: find_None_iff split: option.splits dest!: find_Some_iff [THEN iffD1])

text \<open>The test \<open>strings.TrimSpace(s) == s\<close> holds when no white-space rune is at either end.\<close>

lemma trim_space_id:
  assumes "\<And>q. q \<in> set space_seqs \<Longrightarrow> \<not> has_prefix q s \<and> \<not> has_suffix q s"
  shows "trim_space s = s"
proof -
  have "strip_prefixes space_seqs (length s) s = s"
    using assms by (intro strip_prefixes_id) blast
  moreover have "strip_prefixes (map rev space_seqs) (length s) (rev s) = rev s"
    using assms by (intro strip_prefixes_id) (auto simp: has_suffix_def)
  ultimately show ?thesis by (simp add: trim_space_def)
qed

lemma trim_space_fixed:
  assumes "trim_space s = s" and q: "q \<in> set space_seqs"
  shows "\<not> has_prefix q s \<and> \<not> has_suffix q s"
proof -
  define l where "l = strip_prefixes space_seqs (length s) s"
  define r where "r = strip_prefixes (map rev space_seqs) (length l) (rev l)"
  have s: "s = rev r" using assms by (simp add: trim_space_def l_def r_def Let_def)
  obtain p where p: "s = p @ l" using strip_prefixes_suffix l_def by metis
  obtain p' where p': "rev l = p' @ r" using strip_prefixes_suffix r_def by metis
  have "length s = length r" using s by simp
  with p p' have "p = []" "p' = []"
    by (metis add_cancel_left_left length_append length_rev le_add2 length_0_conv order_antisym)+
  then have l: "s = l" and r: "r = rev s" using p p' by simp_all
  have "find (\<lambda>q. has_prefix q l) space_seqs = None"
    unfolding l_def by (rule strip_prefixes_done) (auto intro: space_seqs_nonempty)
  moreover have "find (\<lambda>q. has_prefix q r) (map rev space_seqs) = None"
    unfolding r_def by (rule strip_prefixes_done) auto
  ultimately show ?thesis
    using q l r by (auto simp: find_None_iff has_suffix_def)
qed

lemma trim_space_nonspace_ends:
  assumes "s \<noteq> []" "of_char (hd s) < (128::nat)" "hd s \<notin> set [CHR 0x09, CHR 0x0A, CHR 0x0B, CHR 0x0C, CHR 0x0D, CHR 0x20]"
    "of_char (last s) < (128::nat)" "last s \<notin> set [CHR 0x09, CHR 0x0A, CHR 0x0B, CHR 0x0C, CHR 0x0D, CHR 0x20]"
  shows "trim_space s = s"
proof (rule trim_space_id)
  fix q assume q: "q \<in> set space_seqs"
  then have h: "hd q = c \<Longrightarrow> of_char c < (128::nat) \<Longrightarrow>
      c \<in> set [CHR 0x09, CHR 0x0A, CHR 0x0B, CHR 0x0C, CHR 0x0D, CHR 0x20]" for c
    by (auto simp: space_seqs_def)
  from q have l: "last q = c \<Longrightarrow> of_char c < (128::nat) \<Longrightarrow>
      c \<in> set [CHR 0x09, CHR 0x0A, CHR 0x0B, CHR 0x0C, CHR 0x0D, CHR 0x20]" for c
    by (auto simp: space_seqs_def)
  have ne: "q \<noteq> []" using q by (rule space_seqs_nonempty)
  have "\<not> has_prefix q s"
  proof
    assume "has_prefix q s"
    then have "hd q = hd s" using ne by (auto simp: has_prefix_iff)
    with h assms(2,3) show False by blast
  qed
  moreover have "\<not> has_suffix q s"
  proof
    assume "has_suffix q s"
    then have "last q = last s" using ne by (auto simp: has_suffix_iff)
    with l assms(4,5) show False by blast
  qed
  ultimately show "\<not> has_prefix q s \<and> \<not> has_suffix q s" by simp
qed

lemma trim_space_empty [simp]: "trim_space [] = []"
  by (simp add: trim_space_def)

section \<open>UTF-8\<close>

text \<open>
  \<open>utf8_width s\<close> is the width of the rune at the head of \<open>s\<close>, 0 for an invalid encoding (Go
  then returns \<open>RuneError\<close> with width 1). The ranges are those of \<open>unicode/utf8\<close>: no overlong
  forms, no surrogates, nothing above U+10FFFF.
\<close>

definition byte :: "char \<Rightarrow> nat" where
  "byte c = of_char c"

definition byte_in :: "nat \<Rightarrow> nat \<Rightarrow> char \<Rightarrow> bool" where
  "byte_in lo hi c = (lo \<le> byte c \<and> byte c \<le> hi)"

fun conts :: "nat \<Rightarrow> string \<Rightarrow> bool" where
  "conts 0 s = True"
| "conts (Suc n) [] = False"
| "conts (Suc n) (c # s) = (byte_in 0x80 0xBF c \<and> conts n s)"

fun second_in :: "nat \<Rightarrow> nat \<Rightarrow> string \<Rightarrow> bool" where
  "second_in lo hi [] = False"
| "second_in lo hi (c # s) = byte_in lo hi c"

definition utf8_lead :: "nat \<Rightarrow> nat \<times> nat \<times> nat" where
  "utf8_lead x =
     (if x < 0x80 then (1, 0, 0)
      else if x < 0xC2 then (0, 0, 0)
      else if x \<le> 0xDF then (2, 0x80, 0xBF)
      else if x \<le> 0xEF then (3, if x = 0xE0 then 0xA0 else 0x80, if x = 0xED then 0x9F else 0xBF)
      else if x \<le> 0xF4 then (4, if x = 0xF0 then 0x90 else 0x80, if x = 0xF4 then 0x8F else 0xBF)
      else (0, 0, 0))"

fun utf8_width :: "string \<Rightarrow> nat" where
  "utf8_width [] = 0"
| "utf8_width (a # s) =
     (case utf8_lead (byte a) of (w, lo, hi) \<Rightarrow>
        if w \<le> 1 then w else if second_in lo hi s \<and> conts (w - 1) s then w else 0)"

text \<open>\<open>utf8_scan\<close> returns \<open>utf8.ValidString\<close> and \<open>utf8.RuneCountInString\<close> in one pass.\<close>

fun utf8_scan :: "string \<Rightarrow> bool \<times> nat" where
  "utf8_scan [] = (True, 0)"
| "utf8_scan (a # s) =
     (let w = utf8_width (a # s); r = utf8_scan (drop (w - 1) s)
      in (w \<noteq> 0 \<and> fst r, Suc (snd r)))"

definition valid_utf8 :: "string \<Rightarrow> bool" where
  "valid_utf8 s = fst (utf8_scan s)"

definition rune_count :: "string \<Rightarrow> nat" where
  "rune_count s = snd (utf8_scan s)"

lemma conts_append: "conts n s \<Longrightarrow> conts n (s @ t)"
  by (induction n s rule: conts.induct) auto

lemma second_in_append: "second_in lo hi s \<Longrightarrow> second_in lo hi (s @ t)"
  by (cases s) auto

lemma conts_length: "conts n s \<Longrightarrow> n \<le> length s"
  by (induction n s rule: conts.induct) auto

lemma utf8_width_append:
  assumes "utf8_width s \<noteq> 0"
  shows "utf8_width (s @ t) = utf8_width s \<and> utf8_width s \<le> length s"
proof (cases s)
  case Nil
  with assms show ?thesis by simp
next
  case (Cons a r)
  obtain w lo hi where lead: "utf8_lead (byte a) = (w, lo, hi)" by (metis prod_cases3)
  have "conts (w - 1) r \<Longrightarrow> w \<le> Suc (length r)" using conts_length [of "w - 1" r] by simp
  with lead Cons assms show ?thesis
    by (auto simp: conts_append second_in_append split: if_splits)
qed

lemma utf8_scan_append:
  "fst (utf8_scan s) \<Longrightarrow>
   utf8_scan (s @ t) = (fst (utf8_scan t), snd (utf8_scan s) + snd (utf8_scan t))"
proof (induction s rule: utf8_scan.induct)
  case 1
  then show ?case by simp
next
  case (2 a s)
  define w where "w = utf8_width (a # s)"
  have w: "w \<noteq> 0" and v: "fst (utf8_scan (drop (w - 1) s))"
    using "2.prems" by (simp_all add: w_def Let_def del: utf8_width.simps)
  have w': "utf8_width (a # s @ t) = w" and le: "w \<le> Suc (length s)"
    using utf8_width_append [of "a # s" t] w by (simp_all add: w_def del: utf8_width.simps)
  have "drop (w - 1) (s @ t) = drop (w - 1) s @ t" using le w by simp
  then have "utf8_scan (drop (w - 1) (s @ t)) =
      (fst (utf8_scan t), snd (utf8_scan (drop (w - 1) s)) + snd (utf8_scan t))"
    using "2.IH" [OF w_def v] by simp
  moreover have "utf8_scan ((a # s) @ t) =
      (w \<noteq> 0 \<and> fst (utf8_scan (drop (w - 1) (s @ t))), Suc (snd (utf8_scan (drop (w - 1) (s @ t)))))"
    using w' by (simp add: Let_def del: utf8_width.simps)
  moreover have "utf8_scan (a # s) =
      (w \<noteq> 0 \<and> fst (utf8_scan (drop (w - 1) s)), Suc (snd (utf8_scan (drop (w - 1) s))))"
    by (simp add: w_def Let_def del: utf8_width.simps)
  ultimately show ?case using w by simp
qed

lemma valid_utf8_append: "valid_utf8 s \<Longrightarrow> valid_utf8 (s @ t) = valid_utf8 t"
  by (simp add: valid_utf8_def utf8_scan_append)

lemma valid_utf8_ascii: "\<forall>c \<in> set s. byte c < 128 \<Longrightarrow> valid_utf8 s"
  by (induction s) (auto simp: valid_utf8_def Let_def utf8_lead_def)

lemma valid_utf8_concat: "(\<And>s. s \<in> set ss \<Longrightarrow> valid_utf8 s) \<Longrightarrow> valid_utf8 (concat ss)"
  by (induction ss) (auto simp: valid_utf8_append, simp add: valid_utf8_def)

section \<open>Lines: bufio.Scanner with ScanLines\<close>

text \<open>
  \<open>scan_lines m s\<close> is the list of lines a \<open>bufio.Scanner\<close> over \<open>s\<close> with a buffer of at most
  \<open>m\<close> bytes yields, and whether it then stops with \<open>ErrTooLong\<close>: a line (without its
  newline) that fills the whole buffer. One trailing carriage return is dropped per line, and an
  empty last line yields nothing.
\<close>

definition newline :: char where
  "newline = CHR 0x0A"

definition drop_cr :: "string \<Rightarrow> string" where
  "drop_cr s = (if s \<noteq> [] \<and> last s = CHR 0x0D then butlast s else s)"

function scan_lines :: "nat \<Rightarrow> string \<Rightarrow> string list \<times> bool" where
  "scan_lines m s =
     (if s = [] then ([], False)
      else let l = takeWhile (\<lambda>c. c \<noteq> newline) s; r = dropWhile (\<lambda>c. c \<noteq> newline) s
           in if m \<le> length l then ([], True)
              else let p = scan_lines m (tl r) in (drop_cr l # fst p, snd p))"
  by pat_completeness auto
termination
proof (relation "measure (\<lambda>(m, s). length s)", goal_cases)
  case 1
  then show ?case by simp
next
  case (2 m s l r)
  have "length (dropWhile (\<lambda>c. c \<noteq> newline) s) \<le> length s" by (rule length_dropWhile_le)
  moreover have "0 < length s" using 2 by simp
  ultimately show ?case using 2 by (cases "dropWhile (\<lambda>c. c \<noteq> newline) s") auto
qed

declare scan_lines.simps [simp del]

lemma scan_lines_Nil [simp]: "scan_lines m [] = ([], False)"
  by (simp add: scan_lines.simps)

lemma scan_lines_line:
  assumes "newline \<notin> set l" "length l < m"
  shows "scan_lines m (l @ newline # s) = (drop_cr l # fst (scan_lines m s), snd (scan_lines m s))"
proof -
  have "takeWhile (\<lambda>c. c \<noteq> newline) (l @ newline # s) = l"
    "dropWhile (\<lambda>c. c \<noteq> newline) (l @ newline # s) = newline # s"
    using assms(1) by (auto intro!: takeWhile_append_stop dropWhile_append_stop)
  then show ?thesis using assms(2) by (subst scan_lines.simps) (simp add: Let_def)
qed

lemma scan_lines_unlines:
  assumes "\<And>l. l \<in> set ls \<Longrightarrow> newline \<notin> set l \<and> length l < m"
  shows "scan_lines m (concat (map (\<lambda>l. l @ [newline]) ls)) = (map drop_cr ls, False)"
  using assms by (induction ls) (auto simp: scan_lines_line)

end
