(* ===== verification/StudyTypes.thy ===== *)
theory StudyTypes
  imports GoText
begin

text \<open>
  The data of a study bundle (\<open>internal/study/types.go\<close>): the configuration, its variants and
  tasks, the placement trees and the validated snapshot. Go maps are association lists in which
  only the first entry of a key counts (\<open>map_of\<close>); the order of a Go map is never observed
  except through a sorted or set-like use.
\<close>

datatype node =
  Node (node_id: string) (node_label: string) (node_content: string) (node_children: "node list")

record variant =
  v_id :: string
  v_name :: string
  v_tree :: string

record task =
  t_id :: string
  t_prompt :: string
  t_difficulty :: string
  t_answers :: "(string \<times> string list) list"

record config =
  schema_version :: int
  cfg_slug :: string
  cfg_title :: string
  cfg_instructions :: string
  tasks_per_session :: int
  cfg_variants :: "variant list"
  cfg_tasks :: "task list"
  cfg_panels :: "string list list"
  cfg_provenance :: "(string \<times> string) list"

record study_bundle =
  b_config :: config
  b_trees :: "(string \<times> string) list"

record snapshot =
  s_bundle :: study_bundle
  s_hash :: string
  s_trees :: "(string \<times> node list) list"

section \<open>Traversals of placement trees\<close>

text \<open>The placements of a forest in document order, each with its children.\<close>

fun nodes_of :: "node \<Rightarrow> node list"
  and forest_nodes :: "node list \<Rightarrow> node list" where
  "nodes_of (Node i l c ch) = Node i l c ch # forest_nodes ch"
| "forest_nodes [] = []"
| "forest_nodes (n # ns) = nodes_of n @ forest_nodes ns"

lemma forest_nodes_append [simp]: "forest_nodes (xs @ ys) = forest_nodes xs @ forest_nodes ys"
  by (induction xs) auto

lemma forest_nodes_self: "n \<in> set ns \<Longrightarrow> n \<in> set (forest_nodes ns)"
proof (induction ns)
  case Nil
  then show ?case by simp
next
  case (Cons m ns)
  have "m \<in> set (nodes_of m)" by (cases m) simp
  with Cons show ?case by auto
qed

lemma nodes_of_closed:
  "m \<in> set (nodes_of n) \<Longrightarrow> set (forest_nodes (node_children m)) \<subseteq> set (nodes_of n)"
  "m \<in> set (forest_nodes ns) \<Longrightarrow> set (forest_nodes (node_children m)) \<subseteq> set (forest_nodes ns)"
  by (induction n and ns rule: nodes_of_forest_nodes.induct) auto

text \<open>The walk of \<open>Validate\<close> that collects the content IDs that can be reached.\<close>

definition content_ids :: "node list \<Rightarrow> string list" where
  "content_ids ns = filter (\<lambda>c. c \<noteq> []) (map node_content (forest_nodes ns))"

lemma content_ids_iff:
  "c \<in> set (content_ids ns) \<longleftrightarrow> c \<noteq> [] \<and> (\<exists>n \<in> set (forest_nodes ns). node_content n = c)"
  by (auto simp: content_ids_def)

end
