(* ===== verification/NodeIndex.thy ===== *)
theory NodeIndex
  imports StudyTypes
begin

text \<open>
  \<open>indexNodes\<close> of \<open>events.go\<close> and \<open>nodesFor\<close> of \<open>participant.go\<close>: a session names every placement
  of its tree by a random public ID (the map \<open>ids\<close>); the index gives back the placement of a
  public ID and the public ID of its parent. The index is the list of its writes, newest first, so
  \<open>map_of\<close> reads the last one. \<open>ancestors_of\<close> is the loop that follows parents up to the root: a
  partial function, whose value is \<open>None\<close> where the loop would not end; for an index built with
  distinct public IDs it always ends.
\<close>

record indexed_node =
  in_node :: node
  in_parent :: string

type_synonym node_index = "(string \<times> indexed_node) list"

text \<open>Go's index on a map of strings: a missing key reads as the empty string.\<close>

definition str_get :: "(string \<times> string) list \<Rightarrow> string \<Rightarrow> string" where
  "str_get m k = (case map_of m k of None \<Rightarrow> [] | Some v \<Rightarrow> v)"

fun index_walk :: "(string \<times> string) list \<Rightarrow> string \<Rightarrow> node list \<Rightarrow> node_index \<Rightarrow> node_index" where
  "index_walk ids parent [] idx = idx"
| "index_walk ids parent (Node i l c ch # ns) idx =
     index_walk ids parent ns
       (index_walk ids (str_get ids i) ch
         ((str_get ids i, \<lparr>in_node = Node i l c ch, in_parent = parent\<rparr>) # idx))"

definition index_nodes :: "node list \<Rightarrow> (string \<times> string) list \<Rightarrow> node_index" where
  "index_nodes ns ids = index_walk ids [] ns []"

definition parent_of :: "node_index \<Rightarrow> string \<Rightarrow> string" where
  "parent_of idx x = (case map_of idx x of None \<Rightarrow> [] | Some n \<Rightarrow> in_parent n)"

definition content_of :: "node_index \<Rightarrow> string \<Rightarrow> string" where
  "content_of idx x = (case map_of idx x of None \<Rightarrow> [] | Some n \<Rightarrow> node_content (in_node n))"

definition indexed :: "node_index \<Rightarrow> string \<Rightarrow> bool" where
  "indexed idx x \<longleftrightarrow> map_of idx x \<noteq> None"

partial_function (option) ancestors_of :: "node_index \<Rightarrow> string \<Rightarrow> string list option" where
  "ancestors_of idx a =
     (if a = [] then Some []
      else Option.bind (ancestors_of idx (parent_of idx a)) (\<lambda>as. Some (a # as)))"

declare ancestors_of.simps [code]

lemma ancestors_of_root [simp]: "ancestors_of idx [] = Some []"
  by (subst ancestors_of.simps) simp

lemma ancestors_of_step:
  "a \<noteq> [] \<Longrightarrow> ancestors_of idx a = map_option ((#) a) (ancestors_of idx (parent_of idx a))"
  by (subst ancestors_of.simps) (simp add: map_conv_bind_option comp_def)

lemma ancestors_of_Some_Nil [simp]: "ancestors_of idx a = Some [] \<longleftrightarrow> a = []"
  by (subst ancestors_of.simps) (auto simp: Option.bind_eq_Some_conv map_conv_bind_option)

lemma ancestors_of_Some_Cons: "ancestors_of idx a = Some (x # xs) \<longleftrightarrow>
    a \<noteq> [] \<and> x = a \<and> ancestors_of idx (parent_of idx a) = Some xs"
  by (subst ancestors_of.simps) (auto simp: Option.bind_eq_Some_conv map_conv_bind_option)

section \<open>The index is a forest\<close>

text \<open>Every write names a fresh public ID under a parent written before.\<close>

fun parents_ok :: "node_index \<Rightarrow> bool" where
  "parents_ok [] = True"
| "parents_ok ((x, n) # idx) \<longleftrightarrow> x \<noteq> [] \<and> x \<notin> fst ` set idx
     \<and> (in_parent n = [] \<or> in_parent n \<in> fst ` set idx) \<and> parents_ok idx"

definition public_ids :: "(string \<times> string) list \<Rightarrow> node list \<Rightarrow> string list" where
  "public_ids ids ns = map (\<lambda>n. str_get ids (node_id n)) (forest_nodes ns)"

lemma index_walk_keys:
  "map fst (index_walk ids parent ns idx) = rev (public_ids ids ns) @ map fst idx"
  by (induction ids parent ns idx rule: index_walk.induct) (auto simp: public_ids_def)

lemma index_walk_parents_ok:
  assumes "parents_ok idx" "parent = [] \<or> parent \<in> fst ` set idx"
    "distinct (public_ids ids ns)" "[] \<notin> set (public_ids ids ns)"
    "set (public_ids ids ns) \<inter> fst ` set idx = {}"
  shows "parents_ok (index_walk ids parent ns idx)"
  using assms
proof (induction ids parent ns idx rule: index_walk.induct)
  case (1 ids parent idx)
  then show ?case by simp
next
  case (2 ids parent i l c ch ns idx)
  define x where "x = str_get ids i"
  define idx' where "idx' = (x, \<lparr>in_node = Node i l c ch, in_parent = parent\<rparr>) # idx"
  have ids: "public_ids ids (Node i l c ch # ns) = x # public_ids ids ch @ public_ids ids ns"
    by (simp add: public_ids_def x_def)
  have keys: "fst ` set (index_walk ids x ch idx') = set (public_ids ids ch) \<union> insert x (fst ` set idx)"
    using index_walk_keys [of ids x ch idx', THEN arg_cong [where f = set]]
    by (auto simp: idx'_def)
  have 1: "parents_ok (index_walk ids x ch idx')"
    unfolding x_def idx'_def
    by (rule "2.IH"(1)) (use "2.prems" in \<open>auto simp: ids [unfolded x_def]\<close>)
  have "parents_ok (index_walk ids parent ns (index_walk ids x ch idx'))"
  proof (rule "2.IH"(2) [folded x_def, folded idx'_def, OF 1])
    show "set (public_ids ids ns) \<inter> fst ` set (index_walk ids x ch idx') = {}"
      using "2.prems"(3,5) keys by (auto simp: ids)
  qed (use "2.prems" keys in \<open>auto simp: ids\<close>)
  then show ?case by (simp add: x_def idx'_def)
qed

definition good_ids :: "(string \<times> string) list \<Rightarrow> node list \<Rightarrow> bool" where
  "good_ids ids ns \<longleftrightarrow> distinct (public_ids ids ns) \<and> [] \<notin> set (public_ids ids ns)"

lemma index_nodes_parents_ok: "good_ids ids ns \<Longrightarrow> parents_ok (index_nodes ns ids)"
  unfolding index_nodes_def good_ids_def by (rule index_walk_parents_ok) auto

lemma indexed_iff: "indexed idx x \<longleftrightarrow> x \<in> fst ` set idx"
  by (simp add: indexed_def map_of_eq_None_iff)

lemma index_nodes_indexed: "indexed (index_nodes ns ids) x \<longleftrightarrow> x \<in> set (public_ids ids ns)"
  using index_walk_keys [of ids "[]" ns "[]", THEN arg_cong [where f = set]]
  by (simp add: indexed_iff index_nodes_def)

lemma parent_of_Cons: "parent_of ((x, n) # idx) y = (if x = y then in_parent n else parent_of idx y)"
  by (simp add: parent_of_def)

lemma parent_of_ok: "parents_ok idx \<Longrightarrow> parent_of idx x = [] \<or> parent_of idx x \<in> fst ` set idx"
  by (induction idx) (auto simp: parent_of_def)

lemma ancestors_of_Cons:
  assumes "parents_ok ((x, n) # idx)" "ancestors_of idx a = Some as" "x \<noteq> a"
  shows "ancestors_of ((x, n) # idx) a = Some as"
  using assms
proof (induction as arbitrary: a)
  case Nil
  then show ?case by simp
next
  case (Cons y as)
  then have a: "a \<noteq> []" "y = a" "ancestors_of idx (parent_of idx a) = Some as"
    by (auto simp: ancestors_of_Some_Cons)
  have "x \<noteq> parent_of idx a" using parent_of_ok [of idx a] Cons.prems(1) by auto
  with Cons.IH [OF Cons.prems(1) a(3)] Cons.prems(3) a show ?case
    by (simp add: ancestors_of_Some_Cons parent_of_Cons)
qed

text \<open>The loop ends, with at most one step for each placement.\<close>

lemma ancestors_of_total:
  assumes "parents_ok idx"
  shows "\<exists>as. ancestors_of idx a = Some as \<and> length as \<le> Suc (length idx)"
  using assms
proof (induction idx arbitrary: a)
  case Nil
  show ?case by (cases "a = []") (simp_all add: ancestors_of_step parent_of_def)
next
  case (Cons e idx)
  obtain x n where e: "e = (x, n)" by force
  with Cons.prems have ok: "parents_ok ((x, n) # idx)" "parents_ok idx" by auto
  show ?case
  proof (cases "x = a")
    case False
    with Cons.IH [OF ok(2), of a] ancestors_of_Cons [OF ok(1)] e show ?thesis
      by (metis le_SucI length_Cons)
  next
    case True
    have "x \<noteq> in_parent n" "a \<noteq> []" using ok(1) True by auto
    with Cons.IH [OF ok(2), of "in_parent n"] ancestors_of_Cons [OF ok(1), of "in_parent n"] e True
    show ?thesis by (auto simp: ancestors_of_step parent_of_Cons)
  qed
qed

lemma ancestors_of_distinct:
  assumes "parents_ok idx" "ancestors_of idx a = Some as"
  shows "distinct as \<and> [] \<notin> set as"
  using assms
proof (induction idx arbitrary: a as)
  case Nil
  then show ?case by (cases "a = []") (auto simp: ancestors_of_step parent_of_def)
next
  case (Cons e idx)
  obtain x n where e: "e = (x, n)" by force
  with Cons.prems have ok: "parents_ok ((x, n) # idx)" "parents_ok idx" by auto
  have other: "distinct bs \<and> [] \<notin> set bs" "ancestors_of idx b = Some bs"
    if "x \<noteq> b" "ancestors_of ((x, n) # idx) b = Some bs" for b bs
  proof -
    obtain cs where "ancestors_of idx b = Some cs" using ancestors_of_total [OF ok(2)] by blast
    with ancestors_of_Cons [OF ok(1) this that(1)] that(2) Cons.IH [OF ok(2)]
    show "distinct bs \<and> [] \<notin> set bs" "ancestors_of idx b = Some bs" by auto
  qed
  show ?case
  proof (cases "x = a")
    case False
    with other Cons.prems(2) e show ?thesis by blast
  next
    case True
    then have a: "a \<noteq> []" "x \<noteq> in_parent n" using ok(1) by auto
    then obtain bs where bs: "as = a # bs" "ancestors_of ((x, n) # idx) (in_parent n) = Some bs"
      using Cons.prems(2) e True by (cases as) (auto simp: ancestors_of_Some_Cons parent_of_Cons)
    from other [OF a(2) bs(2)] have d: "distinct bs" "[] \<notin> set bs"
      and idx: "ancestors_of idx (in_parent n) = Some bs" by auto
    have keys: "set cs \<subseteq> fst ` set idx" if "ancestors_of idx b = Some cs" "b = [] \<or> b \<in> fst ` set idx" for b cs
      using that
    proof (induction cs arbitrary: b)
      case (Cons c cs)
      then show ?case using parent_of_ok [OF ok(2), of b] by (auto simp: ancestors_of_Some_Cons)
    qed simp
    from keys [OF idx] ok(1) d True a(1) bs(1) show ?thesis by auto
  qed
qed

section \<open>What the index says\<close>

text \<open>The placements of a forest in document order, each with the public ID of its parent.\<close>

fun placements :: "(string \<times> string) list \<Rightarrow> string \<Rightarrow> node list \<Rightarrow> (node \<times> string) list" where
  "placements ids parent [] = []"
| "placements ids parent (Node i l c ch # ns) =
     (Node i l c ch, parent) # placements ids (str_get ids i) ch @ placements ids parent ns"

lemma index_walk_placements:
  "index_walk ids parent ns idx =
    rev (map (\<lambda>(n, p). (str_get ids (node_id n), \<lparr>in_node = n, in_parent = p\<rparr>)) (placements ids parent ns)) @ idx"
  by (induction ids parent ns idx rule: index_walk.induct) auto

lemma placements_nodes: "map fst (placements ids parent ns) = forest_nodes ns"
  by (induction ids parent ns rule: placements.induct) auto

text \<open>With distinct public IDs, the index of a session maps the public ID of every placement to
  exactly that placement and the public ID of its parent, and it knows no other ID.\<close>

theorem index_nodes_exact:
  assumes "good_ids ids ns"
  shows "map_of (index_nodes ns ids) x = Some e \<longleftrightarrow>
    (\<exists>n p. (n, p) \<in> set (placements ids [] ns) \<and> x = str_get ids (node_id n)
       \<and> e = \<lparr>in_node = n, in_parent = p\<rparr>)"
proof -
  have "distinct (map fst (index_nodes ns ids))"
    using assms by (simp add: index_nodes_def index_walk_keys good_ids_def)
  then have "map_of (index_nodes ns ids) x = Some e \<longleftrightarrow> (x, e) \<in> set (index_nodes ns ids)"
    by simp
  then show ?thesis by (auto simp: index_nodes_def index_walk_placements)
qed

section \<open>The tree a participant sees\<close>

datatype public_node =
  PublicNode (pn_id: string) (pn_label: string) (pn_selectable: bool) (pn_children: "public_node list")

fun nodes_for :: "node list \<Rightarrow> (string \<times> string) list \<Rightarrow> public_node list" where
  "nodes_for [] ids = []"
| "nodes_for (Node i l c ch # ns) ids =
     PublicNode (str_get ids i) l (c \<noteq> []) (nodes_for ch ids) # nodes_for ns ids"

fun public_nodes :: "public_node list \<Rightarrow> public_node list" where
  "public_nodes [] = []"
| "public_nodes (PublicNode i l s ch # ns) = PublicNode i l s ch # public_nodes ch @ public_nodes ns"

lemma public_nodes_for:
  "public_nodes (nodes_for ns ids) =
     map (\<lambda>n. PublicNode (str_get ids (node_id n)) (node_label n) (node_content n \<noteq> [])
       (nodes_for (node_children n) ids)) (forest_nodes ns)"
  by (induction ns ids rule: nodes_for.induct) auto

text \<open>C32: the nodes that a participant's tree shows are exactly the nodes that the session's event
  index accepts, and a node is shown as selectable exactly when the index gives it a page.\<close>

theorem public_tree_matches_index:
  assumes "good_ids ids ns"
  shows "pn_id ` set (public_nodes (nodes_for ns ids)) = {x. indexed (index_nodes ns ids) x}
    \<and> (\<forall>p \<in> set (public_nodes (nodes_for ns ids)).
         pn_selectable p \<longleftrightarrow> content_of (index_nodes ns ids) (pn_id p) \<noteq> [])"
proof
  show "pn_id ` set (public_nodes (nodes_for ns ids)) = {x. indexed (index_nodes ns ids) x}"
    by (simp add: public_nodes_for index_nodes_indexed public_ids_def image_image)
  have "content_of (index_nodes ns ids) (str_get ids (node_id n)) = node_content n"
    if n: "n \<in> set (forest_nodes ns)" for n
  proof -
    obtain p where "(n, p) \<in> set (placements ids [] ns)"
      using n by (auto simp flip: placements_nodes [of ids "[]"])
    moreover have "distinct (map fst (index_nodes ns ids))"
      using assms by (simp add: index_nodes_def index_walk_keys good_ids_def)
    ultimately have "map_of (index_nodes ns ids) (str_get ids (node_id n)) = Some \<lparr>in_node = n, in_parent = p\<rparr>"
      by (force simp: index_nodes_def index_walk_placements)
    then show ?thesis by (simp add: content_of_def)
  qed
  then show "\<forall>p \<in> set (public_nodes (nodes_for ns ids)).
      pn_selectable p \<longleftrightarrow> content_of (index_nodes ns ids) (pn_id p) \<noteq> []"
    by (auto simp: public_nodes_for)
qed

end
