(* ===== verification/Json.thy ===== *)
theory Json
  imports StudyTypes "HOL-Library.Char_ord" "HOL-Library.List_Lexorder"
begin

text \<open>
  The part of \<open>encoding/json\<close> the program's hashes and byte budgets depend on: \<open>json.Marshal\<close> of
  strings, integers, Booleans, arrays and objects with the default HTML escaping, and the
  replacement of invalid UTF-8 that a marshalled string goes through. Object keys of Go maps are
  sorted by bytes; the fields of a struct come in declaration order.
\<close>

section \<open>Strings\<close>

definition hex_digit :: "nat \<Rightarrow> char" where
  "hex_digit n = ''0123456789abcdef'' ! n"

text \<open>\<open>\u00xx\<close> for a byte below 128.\<close>

definition u_escape :: "char \<Rightarrow> string" where
  "u_escape c = [CHR 0x5C] @ ''u00'' @ [hex_digit (byte c div 16), hex_digit (byte c mod 16)]"

definition json_ascii :: "char \<Rightarrow> string" where
  "json_ascii c =
     (if c = CHR 0x22 \<or> c = CHR 0x5C then [CHR 0x5C, c]
      else if c = CHR 0x08 then [CHR 0x5C, CHR ''b'']
      else if c = CHR 0x0C then [CHR 0x5C, CHR ''f'']
      else if c = CHR 0x0A then [CHR 0x5C, CHR ''n'']
      else if c = CHR 0x0D then [CHR 0x5C, CHR ''r'']
      else if c = CHR 0x09 then [CHR 0x5C, CHR ''t'']
      else if byte c < 0x20 \<or> c \<in> set ''<>&'' then u_escape c
      else [c])"

text \<open>
  One rune at a time: ASCII bytes by \<open>json_ascii\<close>, an invalid byte as \<open>\ufffd\<close>, the line and
  paragraph separators U+2028 and U+2029 escaped, every other rune copied.
\<close>

fun json_body :: "string \<Rightarrow> string" where
  "json_body [] = []"
| "json_body (c # s) =
     (let w = utf8_width (c # s)
      in if w = 0 then [CHR 0x5C] @ ''ufffd'' @ json_body s
         else if w = 1 then json_ascii c @ json_body s
         else
           let rune = c # take (w - 1) s
           in (if rune = [CHR 0xE2, CHR 0x80, CHR 0xA8] then [CHR 0x5C] @ ''u2028''
               else if rune = [CHR 0xE2, CHR 0x80, CHR 0xA9] then [CHR 0x5C] @ ''u2029''
               else rune) @ json_body (drop (w - 1) s))"

definition json_string :: "string \<Rightarrow> string" where
  "json_string s = [CHR 0x22] @ json_body s @ [CHR 0x22]"

text \<open>What a string is after being marshalled and unmarshalled: invalid bytes become U+FFFD.\<close>

fun sanitize :: "string \<Rightarrow> string" where
  "sanitize [] = []"
| "sanitize (c # s) =
     (let w = utf8_width (c # s)
      in if w = 0 then [CHR 0xEF, CHR 0xBF, CHR 0xBD] @ sanitize s
         else c # take (w - 1) s @ sanitize (drop (w - 1) s))"

lemma sanitize_valid: "valid_utf8 s \<Longrightarrow> sanitize s = s"
  by (induction s rule: sanitize.induct)
     (auto simp: valid_utf8_def Let_def simp del: utf8_width.simps)

section \<open>Numbers, arrays and objects\<close>

fun decimal :: "nat \<Rightarrow> string" where
  "decimal n = (if n < 10 then [''0123456789'' ! n] else decimal (n div 10) @ [''0123456789'' ! (n mod 10)])"

declare decimal.simps [simp del]

text \<open>White space between the values that a \<open>json.Decoder\<close> reads.\<close>

definition json_space :: "char \<Rightarrow> bool" where
  "json_space c \<longleftrightarrow> c = CHR '' '' \<or> c = CHR 0x09 \<or> c = CHR 0x0A \<or> c = CHR 0x0D"

definition json_int :: "int \<Rightarrow> string" where
  "json_int i = (if i < 0 then CHR ''-'' # decimal (nat (- i)) else decimal (nat i))"

definition json_bool :: "bool \<Rightarrow> string" where
  "json_bool b = (if b then ''true'' else ''false'')"

fun commas :: "string list \<Rightarrow> string" where
  "commas [] = []"
| "commas [x] = x"
| "commas (x # y # xs) = x @ '','' @ commas (y # xs)"

definition json_array :: "string list \<Rightarrow> string" where
  "json_array xs = ''['' @ commas xs @ '']''"

definition json_object :: "(string \<times> string) list \<Rightarrow> string" where
  "json_object kvs = ''{'' @ commas (map (\<lambda>(k, v). json_string k @ '':'' @ v) kvs) @ ''}''"

text \<open>
  A Go map: one entry per key (the first of the association list), sorted by key.
\<close>

definition map_entries :: "(string \<times> 'v) list \<Rightarrow> (string \<times> 'v) list" where
  "map_entries m = map (\<lambda>k. (k, the (map_of m k))) (sorted_list_of_set (set (map fst m)))"

definition json_map :: "('v \<Rightarrow> string) \<Rightarrow> (string \<times> 'v) list \<Rightarrow> string" where
  "json_map f m = json_object (map (\<lambda>(k, v). (k, f v)) (map_entries m))"

lemma decimal_nonempty: "decimal n \<noteq> []"
  by (subst decimal.simps) simp

lemma json_body_length_ge: "length s \<le> length (json_body s)"
proof (induction s rule: json_body.induct)
  case 1
  then show ?case by simp
next
  case (2 c s)
  define w where "w = utf8_width (c # s)"
  consider "w = 0" | "w = 1" | "2 \<le> w" by linarith
  then show ?case
  proof cases
    case 1
    with "2.IH"(1) [OF w_def] show ?thesis by (simp add: w_def Let_def del: utf8_width.simps)
  next
    case 2
    have "json_ascii c \<noteq> []" by (simp add: json_ascii_def u_escape_def)
    then have "1 \<le> length (json_ascii c)" by (cases "json_ascii c") auto
    with "2.IH"(2) [OF w_def] 2 show ?thesis by (simp add: w_def Let_def del: utf8_width.simps)
  next
    case 3
    then have "length s \<le> length (take (w - 1) s) + length (json_body (drop (w - 1) s))"
      using "2.IH"(3) [OF w_def _ _ refl] by simp
    moreover define out where "out =
      (if c # take (w - 1) s = [CHR 0xE2, CHR 0x80, CHR 0xA8] then [CHR 0x5C] @ ''u2028''
       else if c # take (w - 1) s = [CHR 0xE2, CHR 0x80, CHR 0xA9] then [CHR 0x5C] @ ''u2029''
       else c # take (w - 1) s)"
    have "length (c # take (w - 1) s) \<le> length out"
      by (cases "c # take (w - 1) s = [CHR 0xE2, CHR 0x80, CHR 0xA8]
          \<or> c # take (w - 1) s = [CHR 0xE2, CHR 0x80, CHR 0xA9]")
        (auto simp: out_def simp del: length_take)
    moreover have "json_body (c # s) = out @ json_body (drop (w - 1) s)"
      using 3 by (simp add: w_def [symmetric] out_def Let_def del: utf8_width.simps)
    ultimately show ?thesis by simp
  qed
qed

text \<open>The JSON form of a string is never shorter than the string: byte budgets bound the data.\<close>

lemma json_string_length: "length s + 2 \<le> length (json_string s)"
  using json_body_length_ge [of s] by (simp add: json_string_def)

section \<open>The bundle\<close>

text \<open>
  \<open>json.Marshal(bundle)\<close> for a bundle whose slices and maps are not empty, which holds for
  every bundle that reaches the call (empty ones would print as \<open>null\<close>, \<open>[]\<close> or \<open>{}\<close>).
\<close>

definition variant_json :: "variant \<Rightarrow> string" where
  "variant_json v = json_object
     [(''id'', json_string (v_id v)), (''name'', json_string (v_name v)), (''tree'', json_string (v_tree v))]"

definition task_json :: "task \<Rightarrow> string" where
  "task_json t = json_object
     [(''id'', json_string (t_id t)), (''prompt'', json_string (t_prompt t)),
      (''difficulty'', json_string (t_difficulty t)),
      (''answers'', json_map (\<lambda>xs. json_array (map json_string xs)) (t_answers t))]"

definition config_json :: "config \<Rightarrow> string" where
  "config_json c = json_object
     ([(''schema_version'', json_int (schema_version c)), (''slug'', json_string (cfg_slug c)),
       (''title'', json_string (cfg_title c)), (''instructions'', json_string (cfg_instructions c)),
       (''tasks_per_session'', json_int (tasks_per_session c)),
       (''variants'', json_array (map variant_json (cfg_variants c))),
       (''tasks'', json_array (map task_json (cfg_tasks c))),
       (''panels'', json_array (map (\<lambda>p. json_array (map json_string p)) (cfg_panels c)))]
      @ (if cfg_provenance c = [] then [] else [(''provenance'', json_map json_string (cfg_provenance c))]))"

definition bundle_json :: "study_bundle \<Rightarrow> string" where
  "bundle_json b = json_object
     [(''config'', config_json (b_config b)), (''trees'', json_map json_string (b_trees b))]"

text \<open>
  The bundle after \<open>json.Unmarshal\<close> of that text. When sanitising makes two keys of a map equal,
  the one that comes last in the text wins, hence the reversal.
\<close>

definition frozen_map :: "('v \<Rightarrow> 'w) \<Rightarrow> (string \<times> 'v) list \<Rightarrow> (string \<times> 'w) list" where
  "frozen_map f m = rev (map (\<lambda>(k, v). (sanitize k, f v)) (map_entries m))"

definition frozen_bundle :: "study_bundle \<Rightarrow> study_bundle" where
  "frozen_bundle b =
     (let c = b_config b
      in \<lparr>b_config = \<lparr>schema_version = schema_version c, cfg_slug = sanitize (cfg_slug c),
            cfg_title = sanitize (cfg_title c), cfg_instructions = sanitize (cfg_instructions c),
            tasks_per_session = tasks_per_session c,
            cfg_variants = map (\<lambda>v. \<lparr>v_id = sanitize (v_id v), v_name = sanitize (v_name v),
              v_tree = sanitize (v_tree v)\<rparr>) (cfg_variants c),
            cfg_tasks = map (\<lambda>t. \<lparr>t_id = sanitize (t_id t), t_prompt = sanitize (t_prompt t),
              t_difficulty = sanitize (t_difficulty t),
              t_answers = frozen_map (map sanitize) (t_answers t)\<rparr>) (cfg_tasks c),
            cfg_panels = map (map sanitize) (cfg_panels c),
            cfg_provenance = frozen_map sanitize (cfg_provenance c)\<rparr>,
          b_trees = frozen_map sanitize (b_trees b)\<rparr>)"

lemma map_of_map_entries: "map_of (map_entries m) k = map_of m k"
proof (cases "k \<in> set (map fst m)")
  case True
  then have "k \<in> set (sorted_list_of_set (set (map fst m)))" by simp
  then have "map_of (map_entries m) k = Some (the (map_of m k))"
    by (simp add: map_entries_def map_of_map_restrict)
  moreover have "map_of m k \<noteq> None" using True by (simp add: map_of_eq_None_iff)
  ultimately show ?thesis by auto
next
  case False
  then have "map_of m k = None" by (simp add: map_of_eq_None_iff)
  moreover have "map_of (map_entries m) k = None"
    using False by (force simp: map_entries_def map_of_eq_None_iff)
  ultimately show ?thesis by simp
qed

end
