(* ===== verification/Events.thy ===== *)
theory Events
  imports NodeIndex Json
begin

text \<open>
  The event log of an attempt (\<open>events.go\<close>): the event, its canonical JSON, the checks of one
  incoming event, the loop of \<open>appendEvents\<close> that absorbs a batch after the saved log, its byte
  budgets, and its replay of the whole log, which checks the page epochs, the clock and the
  navigation in the tree. The database writes around them are in \<open>Participant\<close>.
\<close>

section \<open>Events\<close>

text \<open>
  The raw JSON of an epoch after \<open>UnmarshalJSON\<close>: a string (re-marshalled, so that two spellings
  of it are one text), a number (its literal) or any other JSON text. \<open>epoch_text\<close> is the text
  that the code compares.
\<close>

datatype epoch = EpochString string | EpochNumber string | EpochOther string

record event =
  e_id :: string
  e_seq :: int
  e_type :: string
  e_node :: string
  e_elapsed :: int
  e_epoch :: epoch
  e_visible :: "bool option"
  e_outcome :: string

fun epoch_text :: "epoch \<Rightarrow> string" where
  "epoch_text (EpochString s) = json_string s"
| "epoch_text (EpochNumber n) = n"
| "epoch_text (EpochOther t) = t"

definition digit :: "char \<Rightarrow> nat option" where
  "digit c = (if 48 \<le> byte c \<and> byte c \<le> 57 then Some (byte c - 48) else None)"

fun digits_value :: "string \<Rightarrow> nat \<Rightarrow> nat option" where
  "digits_value [] v = Some v"
| "digits_value (c # cs) v = (case digit c of None \<Rightarrow> None | Some d \<Rightarrow> digits_value cs (10 * v + d))"

text \<open>\<open>strconv.ParseInt(_, 10, 64)\<close>: the value, or \<open>None\<close> on a syntax or range error.\<close>

definition parse_magnitude :: "bool \<Rightarrow> string \<Rightarrow> int option" where
  "parse_magnitude neg cs =
     (if cs = [] then None
      else case digits_value cs 0 of None \<Rightarrow> None
      | Some v \<Rightarrow> if neg then (if v \<le> 2 ^ 63 then Some (- int v) else None)
                  else if v < 2 ^ 63 then Some (int v) else None)"

fun parse_int64 :: "string \<Rightarrow> int option" where
  "parse_int64 [] = None"
| "parse_int64 (c # cs) =
     (if c = CHR ''-'' then parse_magnitude True cs
      else if c = CHR ''+'' then parse_magnitude False cs
      else parse_magnitude False (c # cs))"

fun valid_epoch :: "epoch \<Rightarrow> bool" where
  "valid_epoch (EpochString s) \<longleftrightarrow> length s > 0 \<and> length s \<le> 128"
| "valid_epoch (EpochNumber n) \<longleftrightarrow> (case parse_int64 n of None \<Rightarrow> False | Some i \<Rightarrow> 0 \<le> i)"
| "valid_epoch (EpochOther t) = False"

definition canonical_event :: "event \<Rightarrow> string" where
  "canonical_event e = json_object
     ([(''id'', json_string (e_id e)), (''seq'', json_int (e_seq e)), (''type'', json_string (e_type e))]
      @ (if e_node e = [] then [] else [(''node_id'', json_string (e_node e))])
      @ [(''elapsed_ms'', json_int (e_elapsed e)), (''epoch'', epoch_text (e_epoch e))]
      @ (case e_visible e of None \<Rightarrow> [] | Some b \<Rightarrow> [(''visible'', json_bool b)])
      @ (if e_outcome e = [] then [] else [(''outcome'', json_string (e_outcome e))]))"

section \<open>One incoming event\<close>

definition max_events_per_request :: nat where "max_events_per_request = 200"
definition max_events_per_attempt :: nat where "max_events_per_attempt = 5000"
definition max_attempt_event_data :: nat where "max_attempt_event_data = 2 ^ 20"
definition max_session_event_data :: nat where "max_session_event_data = 4 * 2 ^ 20"
definition max_run_event_data :: nat where "max_run_event_data = 128 * 2 ^ 20"

lemmas event_limits = max_events_per_request_def max_events_per_attempt_def
  max_attempt_event_data_def max_session_event_data_def max_run_event_data_def

definition event_types :: "string list" where
  "event_types = [''tree_shown'', ''enter'', ''back'', ''root'', ''select'', ''visibility_hidden'',
     ''visibility_visible'', ''resume'', ''submit'']"

definition max_elapsed :: int where
  "max_elapsed = 365 * 24 * 60 * 60 * 1000"

text \<open>The checks of a new event, in the order of the code; \<open>n\<close> is the length of the log so far.\<close>

definition check_new_event :: "node_index \<Rightarrow> (string \<times> int) list \<Rightarrow> nat \<Rightarrow> event \<Rightarrow> api_error option" where
  "check_new_event idx used n e =
     (if e_seq e \<noteq> int n + 1 then Some (Problem 409 ''event sequence gap; reload this session'')
      else if map_of used (e_id e) \<noteq> None
        then Some (Problem 409 ''event ID already used at a different sequence'')
      else if length (e_id e) = 0 \<or> length (e_id e) > 128 \<or> trim_space (e_id e) \<noteq> e_id e
        then Some (Problem 422 ''invalid event ID'')
      else if e_elapsed e < 0 \<or> e_elapsed e > max_elapsed then Some (Problem 422 ''invalid elapsed_ms'')
      else if \<not> valid_epoch (e_epoch e)
        then Some (Problem 422 ''epoch must be a nonempty string or nonnegative integer'')
      else if e_type e \<notin> set event_types then Some (Problem 422 ''invalid event type'')
      else if e_seq e = 1 \<and> e_type e \<noteq> ''tree_shown'' \<and> \<not> (e_type e = ''submit'' \<and> e_outcome e = ''skipped'')
        then Some (Problem 422 ''first event must be tree_shown or a comprehension-skip submit'')
      else if e_type e = ''submit'' \<and> e_visible e = None
        then Some (Problem 422 ''submit requires visible'')
      else if e_type e = ''visibility_hidden'' \<and> e_visible e = Some True
        then Some (Problem 422 ''visibility_hidden cannot have visible=true'')
      else if e_type e = ''visibility_visible'' \<and> e_visible e = Some False
        then Some (Problem 422 ''visibility_visible cannot have visible=false'')
      else if e_type e = ''submit'' \<and> e_outcome e \<noteq> ''selected'' \<and> e_outcome e \<noteq> ''gave_up''
          \<and> e_outcome e \<noteq> ''skipped''
        then Some (Problem 422 ''submit requires a valid outcome'')
      else if e_node e \<noteq> [] \<and> \<not> indexed idx (e_node e)
        then Some (Problem 422 ''unknown node_id for this session'')
      else if (e_type e = ''enter'' \<or> e_type e = ''select'') \<and> e_node e = []
        then Some (Problem 422 ''navigation event requires node_id'')
      else if e_type e = ''select'' \<and> content_of idx (e_node e) = []
        then Some (Problem 422 ''node is not selectable'')
      else if n \<ge> max_events_per_attempt then Some (Problem 422 ''attempt event limit exceeded'')
      else None)"

section \<open>Absorbing a batch\<close>

record absorb_state =
  ab_saved :: "event list"
  ab_ids :: "(string \<times> int) list"
  ab_added :: nat

text \<open>
  \<open>closed\<close> says that the attempt is finished or no longer the current one; \<open>final\<close> says that
  the event is the last one of a \<open>finish\<close> request.
\<close>

definition absorb_event ::
    "node_index \<Rightarrow> bool \<Rightarrow> bool \<Rightarrow> event \<Rightarrow> absorb_state \<Rightarrow> absorb_state result" where
  "absorb_event idx closed final e st =
     (let saved = ab_saved st in
      if e_type e = ''submit'' \<and> \<not> final
        then Inl (Problem 422 ''submit is only accepted as the final event of finish'')
      else if e_type e \<noteq> ''submit'' \<and> e_outcome e \<noteq> []
        then Inl (Problem 422 ''outcome is only valid on submit events'')
      else if e_seq e < 1 then Inl (Problem 422 ''event sequence begins at 1'')
      else if e_seq e \<le> int (length saved) then
        (case slice_at saved (e_seq e - 1) of Inl err \<Rightarrow> Inl err
         | Inr old \<Rightarrow>
           if canonical_event old \<noteq> canonical_event e
             then Inl (Problem 409 ''event sequence conflict; reload this session'')
           else Inr st)
      else if closed then Inl (Problem 409 ''attempt already finished'')
      else case check_new_event idx (ab_ids st) (length saved) e of
          Some err \<Rightarrow> Inl err
        | None \<Rightarrow> Inr \<lparr>ab_saved = saved @ [e], ab_ids = (e_id e, e_seq e) # ab_ids st,
                        ab_added = ab_added st + length (canonical_event e)\<rparr>)"

fun absorb :: "node_index \<Rightarrow> bool \<Rightarrow> bool \<Rightarrow> event list \<Rightarrow> absorb_state \<Rightarrow> absorb_state result" where
  "absorb idx closed terminal [] st = Inr st"
| "absorb idx closed terminal (e # es) st =
     (case absorb_event idx closed (terminal \<and> es = []) e st of
        Inl err \<Rightarrow> Inl err
      | Inr st' \<Rightarrow> absorb idx closed terminal es st')"

text \<open>The checks of \<open>appendEvents\<close> before it reads the log; \<open>terminal\<close> is a \<open>finishSelection\<close>.\<close>

definition check_batch :: "event list \<Rightarrow> (string \<times> string) option \<Rightarrow> api_error option" where
  "check_batch incoming terminal =
     (if length incoming > max_events_per_request
        then Some (Problem 422 ''send at most 200 events per request'')
      else case terminal of None \<Rightarrow> None
      | Some (outcome, node) \<Rightarrow>
          if incoming = [] then Some (Problem 422 ''finish requires a final submit event'')
          else (case slice_at incoming (int (length incoming) - 1) of Inl err \<Rightarrow> Some err
            | Inr final \<Rightarrow>
              if e_type final \<noteq> ''submit''
                then Some (Problem 422 ''finish requires a final submit event'')
              else if e_outcome final \<noteq> outcome \<or> e_node final \<noteq> node
                then Some (Problem 422 ''submit outcome and node_id must match the finish request'')
              else None))"

text \<open>The byte budgets: of the attempt, of the session (its own row included) and of the run.\<close>

definition check_budgets :: "nat \<Rightarrow> nat \<Rightarrow> nat \<Rightarrow> nat \<Rightarrow> nat \<Rightarrow> api_error option" where
  "check_budgets attempt_bytes storage_bytes session_bytes run_bytes added =
     (if attempt_bytes + added > max_attempt_event_data
        then Some (Problem 422 ''attempt event data limit exceeded'')
      else if storage_bytes + session_bytes + added > max_session_event_data
        then Some (Problem 422 ''session event data limit exceeded'')
      else if run_bytes + added > max_run_event_data
        then Some (Problem 429 ''study event storage limit reached'')
      else None)"

section \<open>Replaying the log\<close>

record replay_state =
  rp_seen :: "string list"
  rp_epoch :: string
  rp_elapsed :: int
  rp_current :: string

definition replay_start :: replay_state where
  "replay_start = \<lparr>rp_seen = [], rp_epoch = [], rp_elapsed = 0, rp_current = []\<rparr>"

text \<open>The clock of the pages: a page epoch is contiguous, starts visibly known and, after the first,
  with a \<open>resume\<close>; within an epoch the time does not go back.\<close>

definition replay_clock :: "nat \<Rightarrow> event \<Rightarrow> replay_state \<Rightarrow> replay_state result" where
  "replay_clock i e st =
     (let epoch = trim_space (epoch_text (e_epoch e)) in
      if epoch \<noteq> rp_epoch st then
        (if epoch \<in> set (rp_seen st) then Inl (Problem 409 ''page epoch conflict; reload this session'')
         else if e_visible e = None then Inl (Problem 422 ''each clock epoch must begin with visible'')
         else if i > 0 \<and> e_type e \<noteq> ''resume''
           then Inl (Problem 422 ''each new clock epoch must begin with resume'')
         else Inr (st\<lparr>rp_seen := epoch # rp_seen st, rp_epoch := epoch, rp_elapsed := e_elapsed e\<rparr>))
      else if e_elapsed e < rp_elapsed st
        then Inl (Problem 409 ''elapsed_ms must be monotonic within an epoch'')
      else Inr (st\<lparr>rp_elapsed := e_elapsed e\<rparr>))"

text \<open>The navigation: the new current node, or an error. The loop over the ancestors may not end
  for an arbitrary index.\<close>

definition replay_move :: "node_index \<Rightarrow> bool \<Rightarrow> event \<Rightarrow> string \<Rightarrow> string result" where
  "replay_move idx final e current =
     (if e_type e = ''submit'' then
        (if \<not> final then Inl (Problem 422 ''submit must be the unique terminal event'') else Inr current)
      else if e_type e = ''tree_shown'' then
        (if e_seq e \<noteq> 1
           then Inl (Problem 422 ''tree_shown may only begin an attempt; use resume after a reload'')
         else Inr current)
      else if e_type e = ''enter'' then
        (if parent_of idx (e_node e) \<noteq> current
           then Inl (Problem 422 ''enter must target a child of the current location'')
         else Inr (e_node e))
      else if e_type e = ''select'' then
        (if e_node e \<noteq> current \<and> parent_of idx (e_node e) \<noteq> current
           then Inl (Problem 422 ''select must target a visible page'') else Inr current)
      else if e_type e = ''back'' then
        (case ancestors_of idx (parent_of idx current) of
           None \<Rightarrow> Inl (Fault ''the ancestors of a node form a cycle'')
         | Some as \<Rightarrow>
             if current = [] \<or> \<not> (e_node e = [] \<or> e_node e \<in> set as)
               then Inl (Problem 422 ''back must target an ancestor location'')
             else Inr (e_node e))
      else if e_type e = ''root'' then
        (if e_node e \<noteq> [] then Inl (Problem 422 ''root event cannot specify node_id'') else Inr [])
      else if e_type e = ''resume'' \<or> e_type e = ''visibility_hidden'' \<or> e_type e = ''visibility_visible'' then
        (if e_node e \<noteq> [] \<and> e_node e \<noteq> current
           then Inl (Problem 409 ''navigation location conflict; reload this session'')
         else Inr current)
      else Inr current)"

definition replay_event :: "node_index \<Rightarrow> nat \<Rightarrow> bool \<Rightarrow> event \<Rightarrow> replay_state \<Rightarrow> replay_state result" where
  "replay_event idx i final e st =
     (case replay_clock i e st of
        Inl err \<Rightarrow> Inl err
      | Inr st' \<Rightarrow> (case replay_move idx final e (rp_current st') of
          Inl err \<Rightarrow> Inl err
        | Inr current \<Rightarrow> Inr (st'\<lparr>rp_current := current\<rparr>)))"

fun replay_from :: "node_index \<Rightarrow> nat \<Rightarrow> event list \<Rightarrow> replay_state \<Rightarrow> replay_state result" where
  "replay_from idx i [] st = Inr st"
| "replay_from idx i (e # es) st =
     (case replay_event idx i (es = []) e st of
        Inl err \<Rightarrow> Inl err
      | Inr st' \<Rightarrow> replay_from idx (Suc i) es st')"

definition replay :: "node_index \<Rightarrow> event list \<Rightarrow> replay_state result" where
  "replay idx events = replay_from idx 0 events replay_start"

section \<open>Extending a log\<close>

text \<open>\<open>appendEvents\<close> without its reads and writes: the new log and the bytes it adds.\<close>

definition extend_log ::
    "node_index \<Rightarrow> bool \<Rightarrow> nat \<Rightarrow> nat \<Rightarrow> nat \<Rightarrow> nat \<Rightarrow> event list \<Rightarrow> event list \<Rightarrow> (string \<times> string) option
      \<Rightarrow> (event list \<times> nat) result" where
  "extend_log idx closed attempt_bytes storage_bytes session_bytes run_bytes saved incoming terminal =
     (case check_batch incoming terminal of Some err \<Rightarrow> Inl err
      | None \<Rightarrow>
        (case absorb idx closed (terminal \<noteq> None) incoming
            \<lparr>ab_saved = saved, ab_ids = rev (map (\<lambda>e. (e_id e, e_seq e)) saved), ab_added = 0\<rparr> of
          Inl err \<Rightarrow> Inl err
        | Inr st \<Rightarrow>
          (case check_budgets attempt_bytes storage_bytes session_bytes run_bytes (ab_added st) of
             Some err \<Rightarrow> Inl err
           | None \<Rightarrow>
             (case replay idx (ab_saved st) of Inl err \<Rightarrow> Inl err
              | Inr rp \<Rightarrow> Inr (ab_saved st, ab_added st)))))"

end
