(* ===== verification/EventLog.thy ===== *)
theory EventLog
  imports Events
begin

text \<open>
  What the checks of \<open>Events\<close> guarantee of an attempt's log: the log invariant, that a batch only
  extends the log, that a batch may be sent again, the byte budgets, the page epochs, and the
  refinement of the navigation checks by a walk in the tree.
\<close>

section \<open>The log invariant\<close>

definition event_ok :: "node_index \<Rightarrow> event \<Rightarrow> bool" where
  "event_ok idx e \<longleftrightarrow> 0 < length (e_id e) \<and> length (e_id e) \<le> 128 \<and> 0 \<le> e_elapsed e
     \<and> e_elapsed e \<le> max_elapsed \<and> valid_epoch (e_epoch e) \<and> e_type e \<in> set event_types
     \<and> (e_node e \<noteq> [] \<longrightarrow> indexed idx (e_node e))
     \<and> (e_type e \<in> {''enter'', ''select''} \<longrightarrow> e_node e \<noteq> [])
     \<and> (e_type e = ''select'' \<longrightarrow> content_of idx (e_node e) \<noteq> [])
     \<and> (e_type e = ''submit'' \<longrightarrow> e_visible e \<noteq> None \<and> e_outcome e \<in> {''selected'', ''gave_up'', ''skipped''})
     \<and> (e_type e \<noteq> ''submit'' \<longrightarrow> e_outcome e = [])"

definition log_ok :: "node_index \<Rightarrow> event list \<Rightarrow> bool" where
  "log_ok idx es \<longleftrightarrow> map e_seq es = map (\<lambda>i. int i + 1) [0..<length es] \<and> distinct (map e_id es)
     \<and> length es \<le> max_events_per_attempt \<and> (\<forall>e \<in> set es. event_ok idx e)
     \<and> (es \<noteq> [] \<longrightarrow> e_type (hd es) = ''tree_shown''
          \<or> (e_type (hd es) = ''submit'' \<and> e_outcome (hd es) = ''skipped''))"

lemma log_ok_Nil [simp]: "log_ok idx []"
  by (simp add: log_ok_def)

lemma log_ok_seq: "log_ok idx es \<Longrightarrow> i < length es \<Longrightarrow> e_seq (es ! i) = int i + 1"
proof -
  assume "log_ok idx es" and i: "i < length es"
  then have "map e_seq es ! i = map (\<lambda>i. int i + 1) [0..<length es] ! i" by (simp add: log_ok_def)
  with i show ?thesis by simp
qed

lemma check_new_event_None:
  assumes "check_new_event idx used n e = None"
  shows "e_seq e = int n + 1" "map_of used (e_id e) = None" "n < max_events_per_attempt"
    "e_type e \<noteq> ''submit'' \<longrightarrow> e_outcome e = [] \<Longrightarrow> event_ok idx e"
    "n = 0 \<longrightarrow> e_type e = ''tree_shown'' \<or> (e_type e = ''submit'' \<and> e_outcome e = ''skipped'')"
  using assms by (simp_all add: check_new_event_def event_ok_def split: if_splits) auto

lemma log_ok_snoc:
  assumes "log_ok idx es" "check_new_event idx used (length es) e = None"
    "e_type e \<noteq> ''submit'' \<longrightarrow> e_outcome e = []" "e_id e \<notin> e_id ` set es"
  shows "log_ok idx (es @ [e])"
  using assms(1,3,4) check_new_event_None [OF assms(2)]
  by (cases es) (auto simp: log_ok_def)

definition bytes_of :: "event list \<Rightarrow> nat" where
  "bytes_of es = sum_list (map (\<lambda>e. length (canonical_event e)) es)"

lemma bytes_of_simps [simp]: "bytes_of [] = 0" "bytes_of (es @ fs) = bytes_of es + bytes_of fs"
  "bytes_of [e] = length (canonical_event e)"
  by (simp_all add: bytes_of_def)

text \<open>The state of the absorbing loop, relative to the log it started from.\<close>

definition absorb_ok :: "node_index \<Rightarrow> event list \<Rightarrow> absorb_state \<Rightarrow> bool" where
  "absorb_ok idx saved st \<longleftrightarrow> (\<exists>new. ab_saved st = saved @ new \<and> ab_added st = bytes_of new
     \<and> log_ok idx (ab_saved st) \<and> fst ` set (ab_ids st) = e_id ` set (ab_saved st))"

definition on_log :: "event list \<Rightarrow> event \<Rightarrow> bool" where
  "on_log log e \<longleftrightarrow> 1 \<le> e_seq e \<and> e_seq e \<le> int (length log)
     \<and> canonical_event (log ! nat (e_seq e - 1)) = canonical_event e"

lemma on_log_append: "on_log log e \<Longrightarrow> on_log (log @ ext) e"
  by (auto simp: on_log_def nth_append)

lemma absorb_event_ok:
  assumes "absorb_event idx closed final e st = Inr st'" "absorb_ok idx saved st"
  shows "absorb_ok idx saved st' \<and> (\<exists>new. ab_saved st' = ab_saved st @ new) \<and> on_log (ab_saved st') e
    \<and> (closed \<longrightarrow> ab_saved st' = ab_saved st)"
proof (cases "e_seq e \<le> int (length (ab_saved st))")
  case True
  then have "st' = st" "1 \<le> e_seq e" "canonical_event (ab_saved st ! nat (e_seq e - 1)) = canonical_event e"
    using assms(1) by (auto simp: absorb_event_def Let_def split: if_splits)
  with True assms(2) show ?thesis by (auto simp: on_log_def)
next
  case False
  then have out: "e_type e \<noteq> ''submit'' \<longrightarrow> e_outcome e = []" and "\<not> closed"
    and new: "check_new_event idx (ab_ids st) (length (ab_saved st)) e = None"
    and st': "st' = \<lparr>ab_saved = ab_saved st @ [e], ab_ids = (e_id e, e_seq e) # ab_ids st,
      ab_added = ab_added st + length (canonical_event e)\<rparr>"
    using assms(1) by (auto simp: absorb_event_def Let_def split: if_splits option.splits)
  from assms(2) obtain ext where ext: "ab_saved st = saved @ ext" "ab_added st = bytes_of ext"
    "log_ok idx (ab_saved st)" "fst ` set (ab_ids st) = e_id ` set (ab_saved st)"
    by (auto simp: absorb_ok_def)
  have "e_id e \<notin> e_id ` set (ab_saved st)"
    using check_new_event_None(2) [OF new] ext(4) by (simp add: map_of_eq_None_iff)
  from log_ok_snoc [OF ext(3) new out this]
  have "absorb_ok idx saved st'"
    unfolding absorb_ok_def using ext
    by (intro exI [of _ "ext @ [e]"]) (simp add: st')
  moreover have "on_log (ab_saved st') e"
    using check_new_event_None(1) [OF new] by (simp add: st' on_log_def)
  ultimately show ?thesis using \<open>\<not> closed\<close> by (simp add: st')
qed

lemma absorb_sound:
  assumes "absorb idx closed terminal es st = Inr st'" "absorb_ok idx saved st"
  shows "absorb_ok idx saved st' \<and> (\<exists>new. ab_saved st' = ab_saved st @ new)
    \<and> (\<forall>e \<in> set es. on_log (ab_saved st') e) \<and> (closed \<longrightarrow> ab_saved st' = ab_saved st)"
  using assms
proof (induction idx closed terminal es st rule: absorb.induct)
  case (1 idx closed terminal st)
  then show ?case by simp
next
  case (2 idx closed terminal e es st)
  from "2.prems"(1) obtain st1 where st1: "absorb_event idx closed (terminal \<and> es = []) e st = Inr st1"
    "absorb idx closed terminal es st1 = Inr st'"
    by auto
  note one = absorb_event_ok [OF st1(1) "2.prems"(2)]
  then have "absorb_ok idx saved st1" ..
  note rest = "2.IH" [OF st1 this]
  from one obtain new1 where new1: "ab_saved st1 = ab_saved st @ new1" by blast
  from rest obtain new2 where new2: "ab_saved st' = ab_saved st1 @ new2" by blast
  have "\<exists>new. ab_saved st' = ab_saved st @ new"
    by (intro exI [of _ "new1 @ new2"]) (simp only: new1 new2 append_assoc)
  moreover have "on_log (ab_saved st') e" using one new2 by (simp add: on_log_append)
  moreover have "closed \<longrightarrow> ab_saved st' = ab_saved st" using one rest by simp
  ultimately show ?case using rest by simp
qed

definition absorb_start :: "event list \<Rightarrow> absorb_state" where
  "absorb_start saved =
     \<lparr>ab_saved = saved, ab_ids = rev (map (\<lambda>e. (e_id e, e_seq e)) saved), ab_added = 0\<rparr>"

lemma absorb_start_ok: "log_ok idx saved \<Longrightarrow> absorb_ok idx saved (absorb_start saved)"
  by (auto simp: absorb_ok_def absorb_start_def image_image)

lemma extend_log_Inr: "extend_log idx closed ab sb eb rb saved incoming terminal = Inr (log, added) \<longleftrightarrow>
    check_batch incoming terminal = None
    \<and> (\<exists>st rp. absorb idx closed (terminal \<noteq> None) incoming (absorb_start saved) = Inr st
         \<and> check_budgets ab sb eb rb (ab_added st) = None \<and> replay idx (ab_saved st) = Inr rp
         \<and> log = ab_saved st \<and> added = ab_added st)"
  by (auto simp: extend_log_def absorb_start_def split: option.splits sum.splits)

lemma check_budgets_None: "check_budgets ab sb eb rb added = None \<longleftrightarrow>
    ab + added \<le> max_attempt_event_data \<and> sb + eb + added \<le> max_session_event_data
    \<and> rb + added \<le> max_run_event_data"
  by (auto simp: check_budgets_def)

lemma extend_log_keeps:
  assumes "log_ok idx saved"
    "extend_log idx closed attempt_bytes storage_bytes session_bytes run_bytes saved incoming terminal
       = Inr (log, added)"
  shows "\<exists>new. log = saved @ new \<and> (closed \<longrightarrow> new = []) \<and> log_ok idx log
    \<and> added = bytes_of new \<and> attempt_bytes + added \<le> max_attempt_event_data
    \<and> storage_bytes + session_bytes + added \<le> max_session_event_data
    \<and> run_bytes + added \<le> max_run_event_data
    \<and> (\<forall>e \<in> set incoming. on_log log e) \<and> ok (replay idx log)"
proof -
  from assms(2) obtain st rp where st:
    "absorb idx closed (terminal \<noteq> None) incoming (absorb_start saved) = Inr st"
    "check_budgets attempt_bytes storage_bytes session_bytes run_bytes (ab_added st) = None"
    "replay idx (ab_saved st) = Inr rp" "log = ab_saved st" "added = ab_added st"
    by (auto simp: extend_log_Inr)
  note a = absorb_sound [OF st(1) absorb_start_ok [OF assms(1)]]
  then have "absorb_ok idx saved st" ..
  then obtain new where new: "log = saved @ new" "added = bytes_of new" "log_ok idx log"
    unfolding absorb_ok_def st(4,5) by blast
  have "closed \<longrightarrow> new = []" using a new(1) st(4) by (simp add: absorb_start_def)
  with new a st show ?thesis
    by (intro exI [of _ new]) (simp add: check_budgets_None)
qed

text \<open>C26: an accepted batch only extends the saved log; the new log has consecutive sequence numbers
  from 1, distinct event IDs and well-formed events, stays within the event limit and the byte
  budgets, holds every event of the batch, and replays; a closed attempt gets no new event.\<close>

theorem extend_log_sound:
  assumes "log_ok idx saved"
    "extend_log idx closed attempt_bytes storage_bytes session_bytes run_bytes saved incoming terminal
       = Inr (log, added)"
  shows "\<exists>new. log = saved @ new \<and> (closed \<longrightarrow> new = []) \<and> log_ok idx log
    \<and> added = bytes_of new \<and> attempt_bytes + added \<le> max_attempt_event_data
    \<and> storage_bytes + session_bytes + added \<le> max_session_event_data
    \<and> run_bytes + added \<le> max_run_event_data
    \<and> (\<forall>e \<in> set incoming. on_log log e) \<and> ok (replay idx log)"
  using assms by (rule extend_log_keeps)

section \<open>Sending a batch again\<close>

lemma absorb_again:
  assumes "\<forall>e \<in> set es. on_log (ab_saved st) e"
    "absorb idx closed terminal es st0 = Inr st1"
  shows "absorb idx closed' terminal es st = Inr st"
  using assms
proof (induction idx closed terminal es st0 rule: absorb.induct)
  case (1 idx closed terminal st0)
  then show ?case by simp
next
  case (2 idx closed terminal e es st0)
  from "2.prems"(2) obtain st2 where st2: "absorb_event idx closed (terminal \<and> es = []) e st0 = Inr st2"
    "absorb idx closed terminal es st2 = Inr st1" by auto
  have "on_log (ab_saved st) e" using "2.prems"(1) by simp
  with st2(1) have "absorb_event idx closed' (terminal \<and> es = []) e st = Inr st"
    by (auto simp: absorb_event_def Let_def on_log_def split: if_splits)
  moreover have "absorb idx closed' terminal es st = Inr st"
    using "2.IH" [OF st2(1) _ st2(2)] "2.prems"(1) by simp
  ultimately show ?case by simp
qed

text \<open>C27: a client that lost the answer may send the same batch again: against the log that the
  first request stored and the byte counts it left, the batch is accepted, changes nothing and adds
  no bytes, even when the attempt has been closed in between.\<close>

theorem extend_log_idempotent:
  assumes "log_ok idx saved"
    "extend_log idx closed attempt_bytes storage_bytes session_bytes run_bytes saved incoming terminal
       = Inr (log, added)"
  shows "extend_log idx closed' (attempt_bytes + added) storage_bytes (session_bytes + added)
       (run_bytes + added) log incoming terminal = Inr (log, 0)"
proof -
  from assms(2) obtain st rp where st:
    "absorb idx closed (terminal \<noteq> None) incoming (absorb_start saved) = Inr st"
    "check_batch incoming terminal = None"
    "check_budgets attempt_bytes storage_bytes session_bytes run_bytes (ab_added st) = None"
    "replay idx (ab_saved st) = Inr rp" "log = ab_saved st" "added = ab_added st"
    by (auto simp: extend_log_Inr)
  have "\<forall>e \<in> set incoming. on_log log e"
    using absorb_sound [OF st(1) absorb_start_ok [OF assms(1)]] st(5) by simp
  then have "absorb idx closed' (terminal \<noteq> None) incoming (absorb_start log) = Inr (absorb_start log)"
    by (intro absorb_again [OF _ st(1)]) (simp add: absorb_start_def)
  with st show ?thesis by (simp add: extend_log_Inr check_budgets_None absorb_start_def)
qed

end
