(* ===== verification/Navigation.thy ===== *)
theory Navigation
  imports EventLog
begin

text \<open>
  What a replayed log means. The replay of \<open>appendEvents\<close> keeps only the public ID of the current
  node; here its checks are shown to accept exactly the steps of a walk whose state is the open
  path in the tree, and its clock checks to make the page epochs contiguous.
\<close>

section \<open>The walk\<close>

text \<open>The open path, innermost node first; the empty path is the root view.\<close>

fun here :: "string list \<Rightarrow> string" where
  "here [] = []"
| "here (x # p) = x"

inductive nav_step :: "node_index \<Rightarrow> string list \<Rightarrow> event \<Rightarrow> string list \<Rightarrow> bool" for idx where
  nav_enter: "e_type e = ''enter'' \<Longrightarrow> e_node e \<noteq> [] \<Longrightarrow> parent_of idx (e_node e) = here p
    \<Longrightarrow> nav_step idx p e (e_node e # p)"
| nav_back_root: "e_type e = ''back'' \<Longrightarrow> e_node e = [] \<Longrightarrow> p \<noteq> [] \<Longrightarrow> nav_step idx p e []"
| nav_back: "e_type e = ''back'' \<Longrightarrow> p = x # pre @ e_node e # post
    \<Longrightarrow> nav_step idx p e (e_node e # post)"
| nav_root: "e_type e = ''root'' \<Longrightarrow> e_node e = [] \<Longrightarrow> nav_step idx p e []"
| nav_select: "e_type e = ''select'' \<Longrightarrow> e_node e = here p \<or> parent_of idx (e_node e) = here p
    \<Longrightarrow> nav_step idx p e p"
| nav_mark: "e_type e \<in> {''submit'', ''tree_shown''} \<Longrightarrow> nav_step idx p e p"
| nav_page: "e_type e \<in> {''resume'', ''visibility_hidden'', ''visibility_visible''}
    \<Longrightarrow> e_node e = [] \<or> e_node e = here p \<Longrightarrow> nav_step idx p e p"

inductive_cases nav_stepE: "nav_step idx p e q"

inductive_simps nav_step_simps: "nav_step idx p e q"

inductive nav_run :: "node_index \<Rightarrow> string list \<Rightarrow> event list \<Rightarrow> string list \<Rightarrow> bool" for idx where
  nav_run_Nil: "nav_run idx p [] p"
| nav_run_Cons: "nav_step idx p e q \<Longrightarrow> nav_run idx q es r \<Longrightarrow> nav_run idx p (e # es) r"

lemma here_path: "ancestors_of idx c = Some p \<Longrightarrow> here p = c"
  by (cases p) (auto simp: ancestors_of_Some_Cons)

lemma ancestors_of_tail:
  "ancestors_of idx a = Some (pre @ t # post) \<Longrightarrow> ancestors_of idx t = Some (t # post)"
  by (induction pre arbitrary: a) (auto simp: ancestors_of_Some_Cons)

lemma ancestors_of_mem:
  assumes "ancestors_of idx a = Some as" "t \<in> set as"
  obtains pre post where "as = pre @ t # post" "ancestors_of idx t = Some (t # post)"
proof -
  from assms(2) obtain pre post where "as = pre @ t # post" by (meson split_list)
  with assms(1) ancestors_of_tail that show thesis by blast
qed

text \<open>One step: the check of the code succeeds exactly when the walk has a step, and then the new
  current node is the end of the new path.\<close>

lemma replay_move_nav:
  assumes "ancestors_of idx c = Some p" "replay_move idx final e c = Inr c'" "event_ok idx e"
  shows "\<exists>q. nav_step idx p e q \<and> ancestors_of idx c' = Some q"
proof -
  note h = here_path [OF assms(1)]
  have "e_type e \<in> set event_types" using assms(3) by (simp add: event_ok_def)
  then consider (enter) "e_type e = ''enter''" | (select) "e_type e = ''select''"
    | (up) "e_type e = ''back''" | (root) "e_type e = ''root''"
    | (mark) "e_type e \<in> {''submit'', ''tree_shown''}"
    | (page) "e_type e \<in> {''resume'', ''visibility_hidden'', ''visibility_visible''}"
    by (auto simp: event_types_def)
  then show ?thesis
  proof cases
    case enter
    then have "c' = e_node e" "parent_of idx (e_node e) = c" "e_node e \<noteq> []"
      using assms(2,3) by (auto simp: replay_move_def event_ok_def split: if_splits)
    with assms(1) h enter show ?thesis
      by (intro exI [of _ "e_node e # p"]) (simp add: nav_enter ancestors_of_Some_Cons)
  next
    case select
    then have "c' = c" "e_node e = c \<or> parent_of idx (e_node e) = c"
      using assms(2) by (auto simp: replay_move_def split: if_splits)
    with assms(1) h select show ?thesis by (intro exI [of _ p]) (simp add: nav_select)
  next
    case up
    then obtain as where as: "ancestors_of idx (parent_of idx c) = Some as" "c \<noteq> []" "c' = e_node e"
      "e_node e = [] \<or> e_node e \<in> set as"
      using assms(2) by (auto simp: replay_move_def split: if_splits option.splits)
    then have p: "p = c # as" using assms(1) by (cases p) (auto simp: ancestors_of_Some_Cons)
    show ?thesis
    proof (cases "e_node e = []")
      case True
      with as up p show ?thesis by (intro exI [of _ "[]"]) (simp add: nav_back_root)
    next
      case False
      with as obtain pre post where post: "as = pre @ e_node e # post"
        "ancestors_of idx (e_node e) = Some (e_node e # post)"
        using ancestors_of_mem [OF as(1)] by blast
      with up p as(3) show ?thesis by (intro exI [of _ "e_node e # post"]) (auto intro: nav_back)
    qed
  next
    case root
    then have "c' = []" "e_node e = []"
      using assms(2) by (auto simp: replay_move_def split: if_splits)
    with root show ?thesis by (intro exI [of _ "[]"]) (simp add: nav_root)
  next
    case mark
    then have "c' = c" using assms(2) by (auto simp: replay_move_def split: if_splits)
    with assms(1) mark show ?thesis by (intro exI [of _ p]) (simp add: nav_mark)
  next
    case page
    then have "c' = c" "e_node e = [] \<or> e_node e = c"
      using assms(2) by (auto simp: replay_move_def split: if_splits)
    with assms(1) h page show ?thesis by (intro exI [of _ p]) (simp add: nav_page)
  qed
qed

lemma nav_replay_move:
  assumes "ancestors_of idx c = Some p" "nav_step idx p e q"
    "e_type e = ''submit'' \<Longrightarrow> final" "e_type e = ''tree_shown'' \<Longrightarrow> e_seq e = 1"
    "e_node e \<noteq> [] \<Longrightarrow> parents_ok idx"
  shows "replay_move idx final e c = Inr (here q)"
  using assms(2)
proof cases
  case nav_enter
  with here_path [OF assms(1)] show ?thesis by (simp add: replay_move_def)
next
  case nav_back_root
  then obtain y as where "p = y # as" "c = y" "ancestors_of idx (parent_of idx c) = Some as" "c \<noteq> []"
    using assms(1) by (cases p) (auto simp: ancestors_of_Some_Cons)
  with nav_back_root show ?thesis by (simp add: replay_move_def)
next
  case (nav_back x pre post)
  then have "ancestors_of idx (parent_of idx c) = Some (pre @ e_node e # post)" "c \<noteq> []"
    using assms(1) by (auto simp: ancestors_of_Some_Cons)
  with nav_back show ?thesis by (simp add: replay_move_def)
next
  case nav_root
  then show ?thesis by (simp add: replay_move_def)
next
  case nav_select
  with here_path [OF assms(1)] show ?thesis by (auto simp: replay_move_def)
next
  case nav_mark
  with here_path [OF assms(1)] assms(3,4) show ?thesis by (auto simp: replay_move_def)
next
  case nav_page
  with here_path [OF assms(1)] show ?thesis by (auto simp: replay_move_def)
qed

lemma replay_clock_current: "replay_clock i e st = Inr st' \<Longrightarrow> rp_current st' = rp_current st"
  by (auto simp: replay_clock_def Let_def split: if_splits)

lemma replay_from_nav:
  assumes "replay_from idx i es st = Inr st'" "ancestors_of idx (rp_current st) = Some p"
    "\<forall>e \<in> set es. event_ok idx e"
  shows "\<exists>q. nav_run idx p es q \<and> ancestors_of idx (rp_current st') = Some q"
  using assms
proof (induction idx i es st arbitrary: p rule: replay_from.induct)
  case (1 idx i st)
  then show ?case by (auto intro: nav_run_Nil)
next
  case (2 idx i e es st)
  from "2.prems"(1) obtain st1 where st1: "replay_event idx i (es = []) e st = Inr st1"
    "replay_from idx (Suc i) es st1 = Inr st'" by auto
  then obtain st0 c where "replay_clock i e st = Inr st0"
    "replay_move idx (es = []) e (rp_current st0) = Inr c" "st1 = st0\<lparr>rp_current := c\<rparr>"
    by (auto simp: replay_event_def)
  then have "replay_move idx (es = []) e (rp_current st) = Inr (rp_current st1)"
    using replay_clock_current by fastforce
  with "2.prems"(2,3) obtain q where q: "nav_step idx p e q" "ancestors_of idx (rp_current st1) = Some q"
    using replay_move_nav by (metis list.set_intros(1))
  with "2.IH" [OF st1 q(2)] "2.prems"(3) show ?case by (auto intro: nav_run_Cons)
qed

text \<open>C25: a log that the replay accepts is a walk in the tree: it starts in the root view, enters only
  children of the open node, goes back only to open ancestors, and the current node that the code
  keeps is always the end of the open path.\<close>

theorem replay_refines_walk:
  assumes "log_ok idx es" "replay idx es = Inr rp"
  shows "\<exists>path. nav_run idx [] es path \<and> ancestors_of idx (rp_current rp) = Some path"
  using assms replay_from_nav [of idx 0 es replay_start rp "[]"]
  by (simp add: replay_def replay_start_def log_ok_def)

section \<open>No endless loop\<close>

lemma replay_event_no_fault:
  assumes "parents_ok idx"
  shows "replay_event idx i final e st \<noteq> Inl (Fault t)"
proof -
  have "replay_clock i e st \<noteq> Inl (Fault t)"
    by (simp add: replay_clock_def Let_def)
  moreover have "replay_move idx final e c \<noteq> Inl (Fault t)" for c
  proof -
    obtain as where "ancestors_of idx (parent_of idx c) = Some as"
      using ancestors_of_total [OF assms] by blast
    then show ?thesis by (cases "e_type e = ''back''") (simp_all add: replay_move_def)
  qed
  ultimately show ?thesis by (auto simp: replay_event_def split: sum.splits)
qed

lemma replay_from_no_fault:
  "parents_ok idx \<Longrightarrow> replay_from idx i es st \<noteq> Inl (Fault t)"
proof (induction idx i es st rule: replay_from.induct)
  case (2 idx i e es st)
  show ?case
  proof (cases "replay_event idx i (es = []) e st")
    case (Inr st1)
    with "2.IH" "2.prems" show ?thesis by simp
  next
    case (Inl err)
    with replay_event_no_fault [OF "2.prems"] show ?thesis by (metis replay_from.simps(2) sum.simps(5))
  qed
qed simp

lemma absorb_no_fault: "absorb idx closed terminal es st \<noteq> Inl (Fault t)"
proof (induction idx closed terminal es st rule: absorb.induct)
  case (2 idx closed terminal e es st)
  have "check_new_event idx u n e \<noteq> Some (Fault t)" for u n
    by (simp add: check_new_event_def)
  then have "absorb_event idx closed (terminal \<and> es = []) e st \<noteq> Inl (Fault t)"
    by (auto simp: absorb_event_def Let_def slice_at_Inl split: option.splits sum.splits)
  with "2.IH" show ?case
    by (cases "absorb_event idx closed (terminal \<and> es = []) e st") auto
qed simp

lemma extend_log_no_fault:
  assumes "good_ids ids ns"
  shows "extend_log (index_nodes ns ids) closed ab sb eb rb saved incoming terminal \<noteq> Inl (Fault t)"
proof -
  note idx = index_nodes_parents_ok [OF assms]
  have "check_batch incoming terminal \<noteq> Some (Fault t)"
    by (auto simp: check_batch_def split: option.splits)
  moreover have "check_budgets ab sb eb rb added \<noteq> Some (Fault t)" for added
    by (simp add: check_budgets_def)
  ultimately show ?thesis
    using absorb_no_fault replay_from_no_fault [OF idx]
    by (auto simp: extend_log_def replay_def split: option.splits sum.splits)
qed

text \<open>C33: with the index of a session whose public IDs are distinct, checking a batch always ends with
  a verdict: the loop over the ancestors never runs in a circle, whatever the client sends.\<close>

theorem extend_log_returns:
  assumes "good_ids ids ns"
  shows "extend_log (index_nodes ns ids) closed ab sb eb rb saved incoming terminal \<noteq> Inl (Fault t)"
  using assms by (rule extend_log_no_fault)

section \<open>Page epochs\<close>

definition page :: "event \<Rightarrow> string" where
  "page e = trim_space (epoch_text (e_epoch e))"

lemma digits_value_digits: "digits_value cs v = Some w \<Longrightarrow> c \<in> set cs \<Longrightarrow> 48 \<le> byte c \<and> byte c \<le> 57"
  by (induction cs arbitrary: v) (auto simp: digit_def split: option.splits if_splits)

lemma parse_int64_ends:
  assumes "parse_int64 s = Some i"
  shows "s \<noteq> [] \<and> (hd s \<in> set ''-+'' \<or> (48 \<le> byte (hd s) \<and> byte (hd s) \<le> 57))
    \<and> 48 \<le> byte (last s) \<and> byte (last s) \<le> 57"
proof (cases s)
  case Nil
  with assms show ?thesis by simp
next
  case (Cons c cs)
  have m: "ds \<noteq> [] \<and> (\<forall>d \<in> set ds. 48 \<le> byte d \<and> byte d \<le> 57)"
    if "parse_magnitude neg ds = Some i" for neg ds
    using that digits_value_digits [of ds 0]
    by (auto simp: parse_magnitude_def split: if_splits option.splits)
  show ?thesis
  proof (cases "c \<in> set ''-+''")
    case True
    then obtain neg where "parse_magnitude neg cs = Some i"
      using assms Cons by (auto split: if_splits)
    with m [OF this] True Cons show ?thesis by auto
  next
    case False
    then have "parse_magnitude False (c # cs) = Some i" using assms Cons by auto
    with m [OF this] Cons show ?thesis by auto
  qed
qed

lemma digit_not_space: "48 \<le> byte c \<Longrightarrow> byte c \<le> 57 \<Longrightarrow> of_char c < (128 :: nat)
    \<and> c \<notin> set [CHR 0x09, CHR 0x0A, CHR 0x0B, CHR 0x0C, CHR 0x0D, CHR 0x20]"
  by (auto simp: byte_def)

lemma valid_epoch_trimmed: "valid_epoch ep \<Longrightarrow> trim_space (epoch_text ep) = epoch_text ep \<and> epoch_text ep \<noteq> []"
proof (cases ep)
  case (EpochString s)
  have "json_string s \<noteq> [] \<and> hd (json_string s) = CHR 0x22 \<and> last (json_string s) = CHR 0x22"
    by (simp add: json_string_def)
  then show ?thesis using EpochString trim_space_nonspace_ends [of "json_string s"] by simp
next
  case (EpochNumber n)
  assume "valid_epoch ep"
  then obtain i where i: "parse_int64 n = Some i" using EpochNumber by (auto split: option.splits)
  note e = parse_int64_ends [OF i]
  have "of_char (hd n) < (128 :: nat) \<and> hd n \<notin> set [CHR 0x09, CHR 0x0A, CHR 0x0B, CHR 0x0C, CHR 0x0D, CHR 0x20]"
    using e digit_not_space [of "hd n"] by auto
  then show ?thesis
    using e digit_not_space [of "last n"] EpochNumber trim_space_nonspace_ends [of n] by simp
next
  case (EpochOther t)
  assume "valid_epoch ep"
  with EpochOther show ?thesis by simp
qed

lemma event_ok_page: "event_ok idx e \<Longrightarrow> page e \<noteq> []"
  using valid_epoch_trimmed [of "e_epoch e"] by (simp add: event_ok_def page_def)

text \<open>Two events of one page that follow each other.\<close>

fun clock_ok :: "event list \<Rightarrow> bool" where
  "clock_ok (e # f # es) \<longleftrightarrow>
     (if page e = page f then e_elapsed e \<le> e_elapsed f
      else e_type f = ''resume'' \<and> e_visible f \<noteq> None) \<and> clock_ok (f # es)"
| "clock_ok es = True"

lemma replay_from_clock:
  assumes "replay_from idx i es st = Inr st'" "0 < i \<or> rp_epoch st = []" "rp_epoch st = page e0"
    "rp_elapsed st = e_elapsed e0" "rp_epoch st \<in> set (rp_seen st)" "0 < i"
  shows "clock_ok (e0 # es) \<and> distinct (remdups_adj (map page (e0 # es)))
    \<and> set (map page es) \<inter> (set (rp_seen st) - {rp_epoch st}) = {}"
  using assms
proof (induction idx i es st arbitrary: e0 rule: replay_from.induct)
  case (1 idx i st)
  then show ?case by simp
next
  case (2 idx i e es st)
  from "2.prems"(1) obtain st1 where st1: "replay_event idx i (es = []) e st = Inr st1"
    "replay_from idx (Suc i) es st1 = Inr st'" by auto
  then obtain st0 c where st0: "replay_clock i e st = Inr st0" "st1 = st0\<lparr>rp_current := c\<rparr>"
    by (auto simp: replay_event_def)
  show ?case
  proof (cases "page e = rp_epoch st")
    case True
    then have s: "st0 = st\<lparr>rp_elapsed := e_elapsed e\<rparr>" "rp_elapsed st \<le> e_elapsed e"
      using st0(1) by (auto simp: replay_clock_def Let_def page_def split: if_splits)
    have "clock_ok (e # es) \<and> distinct (remdups_adj (map page (e # es)))
      \<and> set (map page es) \<inter> (set (rp_seen st1) - {rp_epoch st1}) = {}"
      by (rule "2.IH" [OF st1]) (use "2.prems" True s st0(2) in auto)
    with True s st0(2) "2.prems"(3,4) show ?thesis by auto
  next
    case False
    then have s: "st0 = st\<lparr>rp_seen := page e # rp_seen st, rp_epoch := page e, rp_elapsed := e_elapsed e\<rparr>"
      "page e \<notin> set (rp_seen st)" "e_visible e \<noteq> None" "e_type e = ''resume''"
      using st0(1) "2.prems"(6) by (auto simp: replay_clock_def Let_def page_def split: if_splits)
    have "clock_ok (e # es) \<and> distinct (remdups_adj (map page (e # es)))
      \<and> set (map page es) \<inter> (set (rp_seen st1) - {rp_epoch st1}) = {}"
      by (rule "2.IH" [OF st1]) (use "2.prems" s st0(2) in auto)
    with False s st0(2) "2.prems"(3,5) show ?thesis by auto
  qed
qed

text \<open>In an accepted log every page epoch is one contiguous stretch, which starts with a \<open>resume\<close>
  that says whether the page is visible (the first with any event that says so), and within a page
  the elapsed time never goes back.\<close>

theorem replay_pages_contiguous:
  assumes "log_ok idx es" "replay idx es = Inr rp"
  shows "distinct (remdups_adj (map page es)) \<and> clock_ok es
    \<and> (es \<noteq> [] \<longrightarrow> e_visible (hd es) \<noteq> None)"
proof (cases es)
  case Nil
  then show ?thesis by simp
next
  case (Cons e fs)
  have "page e \<noteq> []" using assms(1) Cons by (intro event_ok_page [of idx]) (simp add: log_ok_def)
  from assms(2) Cons obtain st1 where st1: "replay_event idx 0 (fs = []) e replay_start = Inr st1"
    "replay_from idx (Suc 0) fs st1 = Inr rp" by (auto simp: replay_def)
  then obtain st0 c where st0: "replay_clock 0 e replay_start = Inr st0" "st1 = st0\<lparr>rp_current := c\<rparr>"
    by (auto simp: replay_event_def)
  with \<open>page e \<noteq> []\<close> have "rp_epoch st1 = page e" "rp_elapsed st1 = e_elapsed e"
    "rp_seen st1 = [page e]" "e_visible e \<noteq> None"
    by (auto simp: replay_clock_def Let_def page_def replay_start_def split: if_splits)
  with replay_from_clock [OF st1(2), of e] Cons show ?thesis by simp
qed

end
