(* ===== verification/Shuffle.thy ===== *)
theory Shuffle
  imports Prelude "HOL-Library.Multiset"
begin

text \<open>
  \<open>shuffle\<close> of \<open>admin.go\<close>: Fisher and Yates' in-place shuffle from the last index down. The
  random source is a list of natural numbers, one per call of \<open>rand.Int\<close>; a draw below \<open>m\<close> is
  the next number modulo \<open>m\<close>, so every outcome of the source is covered, and an exhausted list
  is an error of the source. The shuffle permutes, reaches every permutation, and does so by
  exactly one sequence of draws, so uniform draws give a uniform permutation.
\<close>

definition swap :: "nat \<Rightarrow> nat \<Rightarrow> 'a list \<Rightarrow> 'a list" where
  "swap i j xs = xs[i := xs ! j, j := xs ! i]"

fun shuffle_from :: "nat \<Rightarrow> nat list \<Rightarrow> 'a list \<Rightarrow> 'a list option" where
  "shuffle_from 0 rs xs = Some xs"
| "shuffle_from (Suc i) [] xs = None"
| "shuffle_from (Suc i) (r # rs) xs = shuffle_from i rs (swap (Suc i) (r mod (Suc i + 1)) xs)"

definition shuffle :: "nat list \<Rightarrow> 'a list \<Rightarrow> 'a list option" where
  "shuffle rs xs = shuffle_from (length xs - 1) rs xs"

lemma length_swap [simp]: "length (swap i j xs) = length xs"
  by (simp add: swap_def)

lemma mset_swap_eq: "i < length xs \<Longrightarrow> j < length xs \<Longrightarrow> mset (swap i j xs) = mset xs"
  unfolding swap_def by (rule mset_swap)

lemma nth_swap: "i < length xs \<Longrightarrow> j < length xs \<Longrightarrow>
    swap i j xs ! k = (if k = j then xs ! i else if k = i then xs ! j else xs ! k)"
  by (auto simp: swap_def nth_list_update)

lemma nth_swap_other: "k \<noteq> i \<Longrightarrow> k \<noteq> j \<Longrightarrow> swap i j xs ! k = xs ! k"
  by (simp add: swap_def)

lemma swap_swap: "i < length xs \<Longrightarrow> j < length xs \<Longrightarrow> swap i j (swap i j xs) = xs"
  by (rule nth_equalityI) (auto simp: nth_swap)

lemma shuffle_from_mset:
  "shuffle_from i rs xs = Some ys \<Longrightarrow> i < length xs \<or> i = 0 \<Longrightarrow> mset ys = mset xs"
proof (induction i rs xs rule: shuffle_from.induct)
  case (3 i r rs xs)
  have "r mod Suc (Suc i) < length xs"
    using 3(3) mod_less_divisor [of "Suc (Suc i)" r] by linarith
  with 3 show ?case by (simp add: mset_swap_eq)
qed auto

lemma shuffle_from_fixed:
  "shuffle_from i rs xs = Some ys \<Longrightarrow> i < length xs \<or> i = 0 \<Longrightarrow> i < k \<Longrightarrow> ys ! k = xs ! k"
proof (induction i rs xs rule: shuffle_from.induct)
  case (3 i r rs xs)
  have "r mod Suc (Suc i) < length xs" "r mod Suc (Suc i) < Suc (Suc i)"
    using 3(3) mod_less_divisor [of "Suc (Suc i)" r] by linarith+
  with 3 show ?case by (simp add: nth_swap_other)
qed auto

lemma shuffle_from_total: "i \<le> length rs \<Longrightarrow> \<exists>ys. shuffle_from i rs xs = Some ys"
  by (induction i rs xs rule: shuffle_from.induct) auto

text \<open>The draws that are in range: the \<open>k\<close>-th draw of a list of \<open>n\<close> is below \<open>n - k\<close>.\<close>

definition draws :: "nat \<Rightarrow> nat list \<Rightarrow> bool" where
  "draws i rs \<longleftrightarrow> length rs = i \<and> (\<forall>k < i. rs ! k < Suc i - k)"

lemma draws_Cons: "draws (Suc i) rs \<longleftrightarrow> (\<exists>r rs'. rs = r # rs' \<and> r < Suc (Suc i) \<and> draws i rs')"
proof
  assume d: "draws (Suc i) rs"
  then obtain r rs' where rs: "rs = r # rs'" by (cases rs) (auto simp: draws_def)
  have "rs' ! k < Suc i - k" if "k < i" for k
    using d that unfolding draws_def rs by (auto dest: spec [of _ "Suc k"])
  moreover have "r < Suc (Suc i)" using d unfolding draws_def rs by (auto dest: spec [of _ 0])
  ultimately show "\<exists>r rs'. rs = r # rs' \<and> r < Suc (Suc i) \<and> draws i rs'"
    using d rs by (auto simp: draws_def)
next
  assume "\<exists>r rs'. rs = r # rs' \<and> r < Suc (Suc i) \<and> draws i rs'"
  then show "draws (Suc i) rs"
    by (auto simp: draws_def nth_Cons less_Suc_eq_0_disj split: nat.splits)
qed

lemma permutation_at:
  assumes "mset xs = mset ys" "Suc i < length xs" "\<forall>k < length xs. Suc i < k \<longrightarrow> xs ! k = ys ! k"
  shows "\<exists>j \<le> Suc i. xs ! j = ys ! Suc i"
proof -
  have len: "length ys = length xs" using assms(1) by (metis size_mset)
  have d: "drop (Suc (Suc i)) xs = drop (Suc (Suc i)) ys"
    by (rule nth_equalityI) (use assms(2,3) len in auto)
  have "mset (take (Suc (Suc i)) xs) + mset (drop (Suc (Suc i)) xs) = mset xs"
    "mset (take (Suc (Suc i)) ys) + mset (drop (Suc (Suc i)) ys) = mset ys"
    by (simp_all flip: mset_append)
  with assms(1) d have "mset (take (Suc (Suc i)) xs) = mset (take (Suc (Suc i)) ys)"
    by (metis add_right_cancel)
  then have "set (take (Suc (Suc i)) xs) = set (take (Suc (Suc i)) ys)" by (metis set_mset_mset)
  moreover have "ys ! Suc i \<in> set (take (Suc (Suc i)) ys)"
    using assms(2) len by (auto simp: in_set_conv_nth intro!: exI [of _ "Suc i"])
  ultimately obtain j where "j < Suc (Suc i)" "xs ! j = ys ! Suc i" "j < length xs"
    by (metis in_set_conv_nth length_take min_less_iff_conj nth_take)
  then show ?thesis by (auto simp: less_Suc_eq_le)
qed

lemma shuffle_from_reaches:
  assumes "mset xs = mset ys" "i < length xs \<or> i = 0" "\<forall>k < length xs. i < k \<longrightarrow> xs ! k = ys ! k"
  shows "\<exists>rs. draws i rs \<and> shuffle_from i rs xs = Some ys"
  using assms
proof (induction i arbitrary: xs)
  case 0
  have len: "length ys = length xs" using 0 by (metis size_mset)
  have "xs = ys"
  proof (cases xs)
    case Nil
    with len show ?thesis by simp
  next
    case (Cons x xs')
    then obtain y ys' where ys: "ys = y # ys'" using len by (cases ys) auto
    have "xs' = ys'"
      by (rule nth_equalityI) (use 0(3) len Cons ys in \<open>auto dest: spec [of _ "Suc _"]\<close>)
    with 0 Cons ys show ?thesis by simp
  qed
  then show ?case by (simp add: draws_def)
next
  case (Suc i)
  then have i: "Suc i < length xs" by simp
  obtain j where j: "j \<le> Suc i" "xs ! j = ys ! Suc i"
    using permutation_at [OF Suc.prems(1) i Suc.prems(3)] by blast
  define zs where "zs = swap (Suc i) j xs"
  have "\<exists>rs. draws i rs \<and> shuffle_from i rs zs = Some ys"
    using Suc.prems i j by (intro Suc.IH) (auto simp: zs_def mset_swap_eq nth_swap)
  then obtain rs where "draws i rs" "shuffle_from i rs zs = Some ys" by blast
  then show ?case
    using j(1) by (intro exI [of _ "j # rs"]) (auto simp: draws_Cons zs_def)
qed

lemma shuffle_from_unique:
  assumes "distinct xs" "i < length xs \<or> i = 0" "draws i rs" "draws i rs'"
    "shuffle_from i rs xs = Some ys" "shuffle_from i rs' xs = Some ys"
  shows "rs = rs'"
  using assms
proof (induction i arbitrary: xs rs rs')
  case 0
  then show ?case by (simp add: draws_def)
next
  case (Suc i)
  then have i: "Suc i < length xs" by simp
  obtain r t r' t' where rs: "rs = r # t" "r < Suc (Suc i)" "draws i t"
    and rs': "rs' = r' # t'" "r' < Suc (Suc i)" "draws i t'"
    using Suc.prems(3,4) by (auto simp: draws_Cons)
  have s: "shuffle_from i t (swap (Suc i) r xs) = Some ys"
    "shuffle_from i t' (swap (Suc i) r' xs) = Some ys"
    using Suc.prems(5,6) rs rs' by simp_all
  have "ys ! Suc i = swap (Suc i) r xs ! Suc i" "ys ! Suc i = swap (Suc i) r' xs ! Suc i"
    using shuffle_from_fixed [OF s(1), of "Suc i"] shuffle_from_fixed [OF s(2), of "Suc i"] i by simp_all
  then have at: "ys ! Suc i = xs ! r" "ys ! Suc i = xs ! r'"
    using nth_swap [of "Suc i" xs r "Suc i"] nth_swap [of "Suc i" xs r' "Suc i"] i rs(2) rs'(2)
    by (auto split: if_splits)
  have "r < length xs" "r' < length xs" using i rs(2) rs'(2) by linarith+
  then have r: "r = r'" using at nth_eq_iff_index_eq [OF Suc.prems(1)] by metis
  have "distinct (swap (Suc i) r xs)"
    using Suc.prems(1) mset_swap_eq [of "Suc i" xs r] i rs(2) mset_eq_imp_distinct_iff by fastforce
  with Suc.IH [OF _ _ rs(3) rs'(3) s(1)] s(2) r rs rs' i show ?case by simp
qed

text \<open>C30: the shuffle of distinct items returns permutations only, and every permutation is the
  result of exactly one sequence of in-range draws: with a uniform source it is uniform.\<close>

theorem shuffle_uniform:
  assumes "distinct xs"
  shows "(\<forall>rs ys. shuffle rs xs = Some ys \<longrightarrow> mset ys = mset xs)
    \<and> (\<forall>ys. mset ys = mset xs \<longrightarrow> (\<exists>!rs. draws (length xs - 1) rs \<and> shuffle rs xs = Some ys))"
proof (intro conjI allI impI)
  fix rs ys
  assume "shuffle rs xs = Some ys"
  then show "mset ys = mset xs"
    using shuffle_from_mset [of "length xs - 1" rs xs ys] by (cases xs) (auto simp: shuffle_def)
next
  fix ys
  assume "mset ys = mset xs"
  then have ex: "\<exists>rs. draws (length xs - 1) rs \<and> shuffle rs xs = Some ys"
    using shuffle_from_reaches [of xs ys "length xs - 1"] by (cases xs) (auto simp: shuffle_def)
  moreover have "rs = rs'" if "draws (length xs - 1) rs" "shuffle rs xs = Some ys"
    "draws (length xs - 1) rs'" "shuffle rs' xs = Some ys" for rs rs'
    using shuffle_from_unique [of xs "length xs - 1" rs rs' ys] assms that
    by (cases xs) (auto simp: shuffle_def)
  ultimately show "\<exists>!rs. draws (length xs - 1) rs \<and> shuffle rs xs = Some ys" by blast
qed

end
