(* ===== verification/Clock.thy ===== *)
theory Clock
  imports Prelude "HOL-Library.Char_ord" "HOL-Library.List_Lexorder"
begin

text \<open>
  Time. A stored timestamp is the text \<open>time.RFC3339Nano\<close> of an instant; here it is the instant
  itself, in nanoseconds since 1970, which formatting and parsing map one to one. SQL compares
  the texts byte by byte: up to the seconds they have a fixed width, so the comparison follows
  the instants; the fraction is printed without trailing zeros and is followed by \<open>Z\<close>, so within
  one second it does not. \<open>text_less\<close> is that comparison.
\<close>

type_synonym time = nat

definition second :: nat where "second = 10 ^ 9"
definition minute :: nat where "minute = 60 * second"
definition hour :: nat where "hour = 60 * minute"
definition day :: nat where "day = 24 * hour"

lemmas durations = second_def minute_def hour_def day_def

definition fraction_digits :: "nat \<Rightarrow> nat list" where
  "fraction_digits n = map (\<lambda>k. (n div 10 ^ k) mod 10) [8, 7, 6, 5, 4, 3, 2, 1, 0]"

text \<open>The end of an RFC3339Nano text: the fraction without its trailing zeros, then \<open>Z\<close>.\<close>

definition stamp_suffix :: "time \<Rightarrow> string" where
  "stamp_suffix t =
     (let ds = rev (dropWhile (\<lambda>d. d = 0) (rev (fraction_digits (t mod second))))
      in (if ds = [] then [] else ''.'' @ map (\<lambda>d. ''0123456789'' ! d) ds) @ ''Z'')"

definition text_less :: "time \<Rightarrow> time \<Rightarrow> bool" where
  "text_less a b \<longleftrightarrow> a div second < b div second
     \<or> (a div second = b div second \<and> stamp_suffix a < stamp_suffix b)"

definition text_le :: "time \<Rightarrow> time \<Rightarrow> bool" where
  "text_le a b \<longleftrightarrow> \<not> text_less b a"

lemma text_less_irrefl [simp]: "\<not> text_less a a"
  by (simp add: text_less_def)

lemma text_less_trans: "text_less a b \<Longrightarrow> text_less b c \<Longrightarrow> text_less a c"
  by (auto simp: text_less_def)

lemma text_less_seconds: "text_less a b \<Longrightarrow> a div second \<le> b div second"
  by (auto simp: text_less_def)

lemma text_less_later_second: "a div second < b div second \<Longrightarrow> text_less a b"
  by (simp add: text_less_def)

text \<open>A full second apart, the order of the texts is the order of the instants.\<close>

lemma text_less_second_apart: "a + second \<le> b \<Longrightarrow> text_less a b"
proof (rule text_less_later_second)
  assume "a + second \<le> b"
  then have "(a + second) div second \<le> b div second" by (rule div_le_mono)
  moreover have "(a + second) div second = Suc (a div second)" by (simp add: second_def)
  ultimately show "a div second < b div second" by simp
qed

lemma text_less_bound: "text_less a b \<Longrightarrow> a < b + second"
proof -
  assume "text_less a b"
  then have "a div second \<le> b div second" by (rule text_less_seconds)
  then have "a div second * second \<le> b div second * second" by simp
  moreover have "a = a div second * second + a mod second" "b div second * second \<le> b"
    "a mod second < second" by (simp_all add: second_def)
  ultimately show ?thesis by linarith
qed

text \<open>\<open>serverElapsed\<close> of \<open>policy.go\<close>: whole milliseconds, never negative.\<close>

definition server_elapsed :: "time \<Rightarrow> time \<Rightarrow> nat" where
  "server_elapsed started ended = (ended - started) div 10 ^ 6"

end
