(* ===== verification/TreeParse.thy ===== *)
theory TreeParse
  imports StudyTypes
begin

text \<open>
  \<open>ParseTree\<close> of \<open>internal/study/parse.go\<close>: the Markdown menu dialect. The regular
  expressions are decided by \<open>is_identifier\<close> and \<open>match_menu\<close>, the scanner loop is
  \<open>parse_line\<close> folded over the lines, and the closure \<open>build\<close> that consumes the entries with a
  shared index is \<open>build\<close>, which returns the entries it has not consumed. The main results:
  an accepted text yields a well-formed tree that holds every menu line in order, and every
  well-formed tree is the parse of its rendering.
\<close>

section \<open>Identifiers and menu lines\<close>

definition max_tree_bytes :: nat where
  "max_tree_bytes = 2 ^ 20"

definition ident_start :: "char \<Rightarrow> bool" where
  "ident_start c = byte_in 0x61 0x7A c"

definition ident_char :: "char \<Rightarrow> bool" where
  "ident_char c = (byte_in 0x61 0x7A c \<or> byte_in 0x30 0x39 c \<or> c = CHR ''-'')"

text \<open>The pattern \<open>^[a-z][a-z0-9-]{0,95}$\<close>.\<close>

fun is_identifier :: "string \<Rightarrow> bool" where
  "is_identifier [] = False"
| "is_identifier (c # s) = (ident_start c \<and> list_all ident_char s \<and> length s \<le> 95)"

definition label_char :: "char \<Rightarrow> bool" where
  "label_char c = (c \<notin> set ''[]<>'')"

definition ids_text :: "string \<Rightarrow> string \<Rightarrow> string" where
  "ids_text i c = i @ (if c = [] then [] else ''/'' @ c) @ '')''"

definition match_ids :: "string \<Rightarrow> (string \<times> string) option" where
  "match_ids r =
     (let i = takeWhile ident_char r; t = dropWhile ident_char r
      in if \<not> is_identifier i then None
         else if t = '')'' then Some (i, [])
         else case t of
             [] \<Rightarrow> None
           | x # u \<Rightarrow>
               (if x \<noteq> CHR ''/'' then None
                else let c = takeWhile ident_char u
                     in if is_identifier c \<and> dropWhile ident_char u = '')'' then Some (i, c) else None))"

definition match_kind :: "string \<Rightarrow> (string \<times> string) option" where
  "match_kind r =
     (if has_prefix ''group:'' r then Some (''group'', drop 6 r)
      else if has_prefix ''page:'' r then Some (''page'', drop 5 r)
      else None)"

text \<open>
  \<open>menuLine.FindStringSubmatch\<close>: the four groups label, kind, location ID and content ID (the
  empty string when the optional group did not take part).
\<close>

definition match_menu :: "string \<Rightarrow> (string \<times> string \<times> string \<times> string) option" where
  "match_menu s =
     (if \<not> has_prefix ''- ['' s then None
      else let r = drop 3 s; label = takeWhile label_char r; u = dropWhile label_char r
           in if label = [] \<or> \<not> has_prefix '']('' u then None
              else case match_kind (drop 2 u) of
                  None \<Rightarrow> None
                | Some (kind, v) \<Rightarrow>
                    (case match_ids v of
                       None \<Rightarrow> None
                     | Some (i, c) \<Rightarrow> Some (label, kind, i, c)))"

text \<open>The language of the regular expression, written as a decomposition of the line.\<close>

definition menu_text :: "string \<Rightarrow> string \<Rightarrow> string \<Rightarrow> string \<Rightarrow> string" where
  "menu_text l k i c = ''- ['' @ l @ '']('' @ k @ '':'' @ ids_text i c"

lemma ident_start_char: "ident_start c \<Longrightarrow> ident_char c"
  by (simp add: ident_start_def ident_char_def)

lemma is_identifier_chars: "is_identifier s \<Longrightarrow> list_all ident_char s"
  by (cases s) (auto simp: ident_start_char)

lemma is_identifier_nonempty: "is_identifier s \<Longrightarrow> s \<noteq> []"
  by (cases s) auto

lemma not_ident_char [simp]: "\<not> ident_char CHR '')''" "\<not> ident_char CHR ''/''"
  by (simp_all add: ident_char_def byte_in_def byte_def)

lemma match_ids_complete:
  assumes "is_identifier i" "c = [] \<or> is_identifier c"
  shows "match_ids (ids_text i c) = Some (i, c)"
proof (cases "c = []")
  case True
  have "\<forall>x \<in> set i. ident_char x" using assms(1) is_identifier_chars by (auto simp: list_all_iff)
  then have "takeWhile ident_char (i @ '')'') = i" "dropWhile ident_char (i @ '')'') = '')''"
    by (auto intro!: takeWhile_append_stop dropWhile_append_stop)
  with True assms show ?thesis by (simp add: match_ids_def ids_text_def Let_def)
next
  case False
  with assms have i: "\<forall>x \<in> set i. ident_char x" and c: "\<forall>x \<in> set c. ident_char x" and "is_identifier c"
    using is_identifier_chars by (auto simp: list_all_iff)
  from i have "takeWhile ident_char (i @ CHR ''/'' # c @ '')'') = i"
    "dropWhile ident_char (i @ CHR ''/'' # c @ '')'') = CHR ''/'' # c @ '')''"
    by (auto intro!: takeWhile_append_stop dropWhile_append_stop)
  moreover from c have "takeWhile ident_char (c @ '')'') = c" "dropWhile ident_char (c @ '')'') = '')''"
    by (auto intro!: takeWhile_append_stop dropWhile_append_stop)
  ultimately show ?thesis
    using assms(1) False \<open>is_identifier c\<close> by (simp add: match_ids_def ids_text_def Let_def)
qed

lemma match_ids_sound:
  assumes "match_ids r = Some (i, c)"
  shows "is_identifier i \<and> (c = [] \<or> is_identifier c) \<and> r = ids_text i c"
proof -
  define t where "t = dropWhile ident_char r"
  have i: "i = takeWhile ident_char r" "is_identifier i"
    using assms by (auto simp: match_ids_def Let_def split: if_splits list.splits)
  have r: "r = i @ t" by (simp add: i(1) t_def)
  show ?thesis
  proof (cases "t = '')''")
    case True
    then have "c = []"
      using assms by (auto simp: match_ids_def Let_def t_def split: if_splits)
    with True i(2) r show ?thesis by (simp add: ids_text_def)
  next
    case False
    then obtain u where t: "t = CHR ''/'' # u"
        and c: "c = takeWhile ident_char u" "is_identifier c" "dropWhile ident_char u = '')''"
      using assms by (auto simp: match_ids_def Let_def t_def split: if_splits list.splits)
    have "u = c @ '')''" using takeWhile_dropWhile_id [of ident_char u] c by simp
    then show ?thesis
      using i(2) r t c(2) is_identifier_nonempty [OF c(2)] by (simp add: ids_text_def)
  qed
qed

lemma match_ids_iff:
  "match_ids r = Some (i, c) \<longleftrightarrow> is_identifier i \<and> (c = [] \<or> is_identifier c) \<and> r = ids_text i c"
  using match_ids_complete match_ids_sound by blast

lemma match_kind_iff:
  "match_kind r = Some (k, v) \<longleftrightarrow> k \<in> {''group'', ''page''} \<and> r = k @ '':'' @ v"
  by (auto simp: match_kind_def has_prefix_iff)

lemma match_menu_complete:
  assumes "l \<noteq> []" "list_all label_char l" "k \<in> {''group'', ''page''}"
    "is_identifier i" "c = [] \<or> is_identifier c"
  shows "match_menu (menu_text l k i c) = Some (l, k, i, c)"
proof -
  define v where "v = ids_text i c"
  have r: "drop 3 (menu_text l k i c) = l @ CHR '']'' # CHR ''('' # k @ '':'' @ v"
    by (simp add: menu_text_def v_def)
  have p: "has_prefix ''- ['' (menu_text l k i c)" by (simp add: menu_text_def has_prefix_iff)
  have l: "\<forall>x \<in> set l. label_char x" using assms(2) by (simp add: list_all_iff)
  have "\<not> label_char CHR '']''" by (simp add: label_char_def)
  with l have "takeWhile label_char (drop 3 (menu_text l k i c)) = l"
    "dropWhile label_char (drop 3 (menu_text l k i c)) = CHR '']'' # CHR ''('' # k @ '':'' @ v"
    unfolding r by (blast intro: takeWhile_append_stop dropWhile_append_stop)+
  moreover have "match_kind (k @ '':'' @ v) = Some (k, v)" using assms(3) by (simp add: match_kind_iff)
  moreover have "match_ids v = Some (i, c)" unfolding v_def by (rule match_ids_complete [OF assms(4,5)])
  ultimately show ?thesis using p assms(1) by (simp add: match_menu_def Let_def)
qed

lemma match_menu_sound:
  assumes "match_menu s = Some (l, k, i, c)"
  shows "l \<noteq> [] \<and> list_all label_char l \<and> k \<in> {''group'', ''page''} \<and> is_identifier i
    \<and> (c = [] \<or> is_identifier c) \<and> s = menu_text l k i c"
proof -
  define r where "r = drop 3 s"
  define u where "u = dropWhile label_char r"
  have s: "s = ''- ['' @ r"
    using assms by (auto simp: match_menu_def has_prefix_iff r_def split: if_splits)
  have l: "l = takeWhile label_char r" "l \<noteq> []"
    using assms by (auto simp: match_menu_def Let_def r_def split: if_splits option.splits)
  obtain w where w: "u = '']('' @ w"
    using assms by (auto simp: match_menu_def Let_def has_prefix_iff r_def u_def split: if_splits)
  obtain v where v: "match_kind w = Some (k, v)" "match_ids v = Some (i, c)"
    using assms w by (auto simp: match_menu_def Let_def r_def u_def split: if_splits option.splits)
  have "r = l @ u" by (simp add: l(1) u_def)
  moreover have "list_all label_char l" by (auto simp: l(1) list_all_iff dest: set_takeWhileD)
  ultimately show ?thesis
    using s l(2) w v by (auto simp: menu_text_def match_kind_iff match_ids_iff)
qed

section \<open>The scanner loop\<close>

datatype parse_error = LineError nat string | TreeError string

record entry =
  ent_id :: string
  ent_label :: string
  ent_content :: string
  ent_depth :: nat
  ent_line :: nat

text \<open>The variables of the loop: \<open>entries\<close>, \<open>ids\<close>, \<open>heading\<close> and \<open>lineNo\<close>.\<close>

record parse_state =
  ps_entries :: "entry list"
  ps_ids :: "string list"
  ps_heading :: bool
  ps_line :: nat

definition parse_init :: parse_state where
  "parse_init = \<lparr>ps_entries = [], ps_ids = [], ps_heading = False, ps_line = 0\<rparr>"

definition label_fits :: "string \<Rightarrow> bool" where
  "label_fits l = (trim_space l = l \<and> rune_count l \<le> 180
     \<and> \<not> contains_any [CHR 0x00, CHR 0x0D, CHR 0x0A] l)"

text \<open>One iteration of the loop on the scanned line \<open>raw\<close>.\<close>

definition parse_line :: "parse_state \<Rightarrow> string \<Rightarrow> parse_error + parse_state" where
  "parse_line st raw =
     (let n = Suc (ps_line st);
          es = ps_entries st;
          line = trim_right [CHR '' '', CHR 0x0D] raw;
          fail = (\<lambda>m. Inl (LineError n m))
      in if CHR 0x09 \<in> set line then fail ''tabs are not allowed; use two spaces per level''
         else if line = [] then Inr (st\<lparr>ps_line := n\<rparr>)
         else if has_prefix ''# '' line \<and> \<not> ps_heading st \<and> es = []
           then Inr (st\<lparr>ps_line := n, ps_heading := True\<rparr>)
         else
           let trimmed = trim_left [CHR '' ''] line;
               spaces = length line - length trimmed;
               depth = spaces div 2
           in if spaces mod 2 \<noteq> 0 then fail ''indentation must be a multiple of two spaces''
              else if depth > 12 then fail ''maximum nesting depth is 12''
              else if (es = [] \<and> depth \<noteq> 0) \<or> (es \<noteq> [] \<and> depth > ent_depth (last es) + 1)
                then fail ''nesting skips a level''
              else case match_menu trimmed of
                  None \<Rightarrow> fail ''expected - [Label](group:id) or - [Label](page:location-id/content-id)''
                | Some (label, kind, i, content) \<Rightarrow>
                    if \<not> label_fits label
                      then fail ''labels must be plain text, without surrounding spaces, at most 180 characters''
                    else if kind = ''group'' \<and> content \<noteq> [] then fail ''groups cannot have content IDs''
                    else if kind = ''page'' \<and> content = []
                      then fail ''pages require both location and content IDs''
                    else if i \<in> set (ps_ids st) then fail (''duplicate location ID: '' @ i)
                    else
                      let es' = es @ [\<lparr>ent_id = i, ent_label = label, ent_content = content,
                                        ent_depth = depth, ent_line = n\<rparr>]
                      in if length es' > 2000 then fail ''maximum node count is 2000''
                         else Inr (st\<lparr>ps_entries := es', ps_ids := i # ps_ids st, ps_line := n\<rparr>))"

fun parse_lines :: "parse_state \<Rightarrow> string list \<Rightarrow> parse_error + parse_state" where
  "parse_lines st [] = Inr st"
| "parse_lines st (l # ls) =
     (case parse_line st l of Inl e \<Rightarrow> Inl e | Inr st' \<Rightarrow> parse_lines st' ls)"

section \<open>Building the tree\<close>

text \<open>
  The closure \<open>build\<close>: the entries from \<open>index\<close> on are the second argument; the result holds
  the nodes of this level and the entries that are left.
\<close>

function build :: "nat \<Rightarrow> entry list \<Rightarrow> parse_error + (node list \<times> entry list)" where
  "build d [] = Inr ([], [])"
| "build d (e # es) =
     (if ent_depth e \<noteq> d then Inr ([], e # es)
      else case (if es \<noteq> [] \<and> ent_depth (hd es) > d then build (Suc d) es else Inr ([], es)) of
          Inl err \<Rightarrow> Inl err
        | Inr (children, rest) \<Rightarrow>
            if ent_content e = [] \<and> children = []
            then Inl (LineError (ent_line e) (''group '' @ [CHR 0x22] @ ent_id e @ [CHR 0x22] @ '' has no children''))
            else case build d rest of
                Inl err \<Rightarrow> Inl err
              | Inr (nodes, rest') \<Rightarrow>
                  Inr (Node (ent_id e) (ent_label e) (ent_content e) children # nodes, rest'))"
  by pat_completeness auto

lemma build_rest_length:
  "build_dom (d, es) \<Longrightarrow> build d es = Inr (ns, r) \<Longrightarrow> length r \<le> length es"
proof (induction arbitrary: ns r rule: build.pinduct)
  case (1 d)
  then show ?case by (simp add: build.psimps)
next
  case (2 d e es)
  show ?case
  proof (cases "ent_depth e = d")
    case False
    with 2 show ?thesis by (simp add: build.psimps)
  next
    case True
    then obtain ch rest ns' where
      c: "(if es \<noteq> [] \<and> ent_depth (hd es) > d then build (Suc d) es else Inr ([], es)) = Inr (ch, rest)"
      and n: "build d rest = Inr (ns', r)" and g: "\<not> (ent_content e = [] \<and> ch = [])"
      using 2 by (auto simp: build.psimps simp del: if_split split: if_split_asm sum.splits prod.splits)
    have "length rest \<le> length es"
      using c "2.IH"(1) True by (auto split: if_splits)
    moreover have "length r \<le> length rest"
      using "2.IH"(2) [OF _ c _ g n] True by simp
    ultimately show ?thesis by simp
  qed
qed

termination build
proof (relation "measure (\<lambda>(d, es). length es)", goal_cases)
  case 1
  then show ?case by simp
next
  case (2 d e es)
  then show ?case by simp
next
  case (3 d e es p ch rest)
  then have "length rest \<le> length es"
    by (auto split: if_splits dest: build_rest_length)
  then show ?case by simp
qed

text \<open>\<open>ParseTree\<close>. A scanner error is reported after the lines before it were accepted.\<close>

definition parse_tree :: "string \<Rightarrow> parse_error + node list" where
  "parse_tree text =
     (if length text > max_tree_bytes \<or> \<not> valid_utf8 text
      then Inl (TreeError ''tree must be valid UTF-8 and at most 1048576 bytes'')
      else let (lines, too_long) = scan_lines max_tree_bytes text
           in case parse_lines parse_init lines of
               Inl e \<Rightarrow> Inl e
             | Inr st \<Rightarrow>
                 if too_long then Inl (TreeError ''bufio.Scanner: token too long'')
                 else if ps_entries st = [] then Inl (TreeError ''tree has no menu items'')
                 else case build 0 (ps_entries st) of
                     Inl e \<Rightarrow> Inl e
                   | Inr (nodes, _) \<Rightarrow> Inr nodes)"

section \<open>Well-formed trees\<close>

type_synonym placement = "nat \<times> string \<times> string \<times> string"

definition e_sig :: "entry \<Rightarrow> placement" where
  "e_sig e = (ent_depth e, ent_id e, ent_label e, ent_content e)"

lemma fst_e_sig [simp]: "fst (e_sig e) = ent_depth e"
  by (simp add: e_sig_def)

text \<open>The menu lines of a forest in document order: depth, location ID, label, content ID.\<close>

fun flatten_node :: "nat \<Rightarrow> node \<Rightarrow> placement list"
  and flatten :: "nat \<Rightarrow> node list \<Rightarrow> placement list" where
  "flatten_node d (Node i l c ch) = (d, i, l, c) # flatten (Suc d) ch"
| "flatten d [] = []"
| "flatten d (n # ns) = flatten_node d n @ flatten d ns"

definition label_ok :: "string \<Rightarrow> bool" where
  "label_ok l = (l \<noteq> [] \<and> list_all label_char l \<and> label_fits l \<and> CHR 0x09 \<notin> set l)"

definition placement_ok :: "placement \<Rightarrow> bool" where
  "placement_ok p = (case p of (d, i, l, c) \<Rightarrow>
     d \<le> 12 \<and> is_identifier i \<and> label_ok l \<and> (c = [] \<or> is_identifier c))"

text \<open>No menu line is more than one level deeper than the line before it.\<close>

fun steps_ok :: "nat \<Rightarrow> placement list \<Rightarrow> bool" where
  "steps_ok m [] = True"
| "steps_ok m (p # ps) = (fst p \<le> m \<and> steps_ok (Suc (fst p)) ps)"

fun groups_filled :: "node \<Rightarrow> bool"
  and all_groups_filled :: "node list \<Rightarrow> bool" where
  "groups_filled (Node i l c ch) = ((c \<noteq> [] \<or> ch \<noteq> []) \<and> all_groups_filled ch)"
| "all_groups_filled [] = True"
| "all_groups_filled (n # ns) = (groups_filled n \<and> all_groups_filled ns)"

definition wf_tree :: "node list \<Rightarrow> bool" where
  "wf_tree ns = (ns \<noteq> [] \<and> list_all placement_ok (flatten 0 ns)
     \<and> distinct (map node_id (forest_nodes ns))
     \<and> length (forest_nodes ns) \<le> 2000 \<and> all_groups_filled ns)"

lemma flatten_append [simp]: "flatten d (xs @ ys) = flatten d xs @ flatten d ys"
  by (induction xs) auto

lemma flatten_ids:
  "map (\<lambda>p. fst (snd p)) (flatten_node d n) = map node_id (nodes_of n)"
  "map (\<lambda>p. fst (snd p)) (flatten d ns) = map node_id (forest_nodes ns)"
  by (induction d n and d ns rule: flatten_node_flatten.induct) auto

lemma length_flatten: "length (flatten d ns) = length (forest_nodes ns)"
  using flatten_ids(2) [of d ns] by (metis length_map)

lemma flatten_depth:
  "p \<in> set (flatten_node d n) \<Longrightarrow> d \<le> fst p"
  "p \<in> set (flatten d ns) \<Longrightarrow> d \<le> fst p"
  by (induction d n and d ns rule: flatten_node_flatten.induct) auto

lemma steps_ok_mono: "steps_ok m ps \<Longrightarrow> m \<le> m' \<Longrightarrow> steps_ok m' ps"
  by (cases ps) auto

lemma steps_ok_append:
  "steps_ok m ps \<Longrightarrow> steps_ok k qs \<Longrightarrow> k \<le> m \<Longrightarrow> (\<And>p. p \<in> set ps \<Longrightarrow> k \<le> Suc (fst p))
   \<Longrightarrow> steps_ok m (ps @ qs)"
  by (induction m ps rule: steps_ok.induct) (auto intro: steps_ok_mono)

lemma steps_flatten:
  "steps_ok d (flatten_node d n)"
  "steps_ok d (flatten d ns)"
proof (induction d n and d ns rule: flatten_node_flatten.induct)
  case (3 d n ns)
  then show ?case
    by (auto intro!: steps_ok_append [where k = d] dest: flatten_depth)
qed auto

lemma steps_ok_snoc:
  "steps_ok m (ps @ [p]) \<longleftrightarrow>
   steps_ok m ps \<and> (if ps = [] then fst p \<le> m else fst p \<le> Suc (fst (last ps)))"
  by (induction m ps rule: steps_ok.induct) auto

lemma steps_ok_prefix: "steps_ok m (ps @ qs) \<Longrightarrow> steps_ok m ps"
  by (induction m ps rule: steps_ok.induct) auto

lemma steps_tail: "steps_ok m (ps @ q # qs) \<Longrightarrow> steps_ok (Suc (fst q)) qs"
  by (induction m ps rule: steps_ok.induct) auto

section \<open>The builder against the specification\<close>

text \<open>
  Soundness: what \<open>build\<close> consumes is exactly the document order of the forest it returns; what
  it leaves begins at a smaller depth, so at depth 0 nothing is left.
\<close>

lemma build_sound:
  "build d es = Inr (ns, r) \<Longrightarrow> steps_ok d (map e_sig es) \<Longrightarrow>
   \<exists>used. es = used @ r \<and> map e_sig used = flatten d ns \<and> all_groups_filled ns
     \<and> (r = [] \<or> ent_depth (hd r) < d)"
proof (induction d es arbitrary: ns r rule: build.induct)
  case (1 d)
  then show ?case by simp
next
  case (2 d e es)
  have de: "ent_depth e \<le> d" and steps: "steps_ok (Suc (ent_depth e)) (map e_sig es)"
    using "2.prems"(2) by simp_all
  show ?case
  proof (cases "ent_depth e = d")
    case False
    with "2.prems"(1) de show ?thesis by auto
  next
    case True
    then obtain ch rest ns' where
      c: "(if es \<noteq> [] \<and> ent_depth (hd es) > d then build (Suc d) es else Inr ([], es)) = Inr (ch, rest)"
      and n: "build d rest = Inr (ns', r)" and g: "\<not> (ent_content e = [] \<and> ch = [])"
      and ns: "ns = Node (ent_id e) (ent_label e) (ent_content e) ch # ns'"
      using "2.prems"(1) by (auto simp del: if_split split: if_split_asm sum.splits prod.splits)
    have "\<exists>used. es = used @ rest \<and> map e_sig used = flatten (Suc d) ch \<and> all_groups_filled ch
        \<and> (rest = [] \<or> ent_depth (hd rest) \<le> d)"
    proof (cases "es \<noteq> [] \<and> ent_depth (hd es) > d")
      case deeper: True
      with c have "build (Suc d) es = Inr (ch, rest)" by simp
      from "2.IH"(1) [OF _ deeper this] True steps show ?thesis by fastforce
    next
      case False
      with c show ?thesis by auto
    qed
    then obtain used where u: "es = used @ rest" "map e_sig used = flatten (Suc d) ch"
      "all_groups_filled ch" "rest = [] \<or> ent_depth (hd rest) \<le> d" by blast
    have "steps_ok d (map e_sig rest)"
      using steps u(4) unfolding u(1)
      by (cases rest) (auto dest: steps_tail)
    from "2.IH"(2) [OF _ c _ g n this] True obtain used' where
      "rest = used' @ r" "map e_sig used' = flatten d ns'" "all_groups_filled ns'"
      "r = [] \<or> ent_depth (hd r) < d" by auto
    moreover have "e_sig e = (d, ent_id e, ent_label e, ent_content e)" using True by (simp add: e_sig_def)
    ultimately show ?thesis
      using u ns g by (intro exI [of _ "e # used @ used'"]) auto
  qed
qed

text \<open>Completeness: the document order of a forest without empty groups is built back.\<close>

lemma flatten_hd_depth: "ns \<noteq> [] \<Longrightarrow> flatten d ns \<noteq> [] \<and> fst (hd (flatten d ns)) = d"
  by (cases ns; cases "hd ns") auto

lemma build_stop: "r = [] \<or> ent_depth (hd r) \<noteq> d \<Longrightarrow> build d r = Inr ([], r)"
  by (cases r) auto

lemma build_complete_aux:
  "groups_filled n \<Longrightarrow> map e_sig es = flatten_node d n \<Longrightarrow> r = [] \<or> ent_depth (hd r) \<le> d \<Longrightarrow>
   build d r = Inr (ns, r') \<Longrightarrow> build d (es @ r) = Inr (n # ns, r')"
  "all_groups_filled m \<Longrightarrow> map e_sig es = flatten d m \<Longrightarrow> r = [] \<or> ent_depth (hd r) < d \<Longrightarrow>
   build d (es @ r) = Inr (m, r)"
proof (induction d n and d m arbitrary: es r ns r' and es r
    rule: flatten_node_flatten.induct)
  case (1 d i l c ch)
  then obtain e es' where es: "es = e # es'" "e_sig e = (d, i, l, c)"
    and es': "map e_sig es' = flatten (Suc d) ch" by auto
  have inner: "build (Suc d) (es' @ r) = Inr (ch, r)"
    using "1.IH" [OF _ es'] "1.prems" by auto
  have "(if es' @ r \<noteq> [] \<and> ent_depth (hd (es' @ r)) > d then build (Suc d) (es' @ r)
      else Inr ([], es' @ r)) = Inr (ch, r)"
  proof (cases "ch = []")
    case True
    then have "es' = []" using es' by simp
    then show ?thesis using True "1.prems"(3) inner by auto
  next
    case False
    then have "es' \<noteq> []" "ent_depth (hd es') = Suc d"
      using flatten_hd_depth [of ch "Suc d"] es' by (metis fst_e_sig list.map_disc_iff list.map_sel(1))+
    then show ?thesis using inner by simp
  qed
  moreover have "ent_depth e = d" "ent_id e = i" "ent_label e = l" "ent_content e = c"
    using es(2) by (simp_all add: e_sig_def)
  ultimately show ?case using "1.prems"(1,4) es(1) by (simp del: if_split)
next
  case (2 d)
  then show ?case by (cases r) auto
next
  case (3 d n ns)
  then obtain es1 es2 where es: "es = es1 @ es2" "map e_sig es1 = flatten_node d n"
    "map e_sig es2 = flatten d ns" by (auto simp: map_eq_append_conv)
  have tail: "build d (es2 @ r) = Inr (ns, r)" using "3.IH"(2) [OF _ es(3)] "3.prems" by simp
  have "es2 @ r = [] \<or> ent_depth (hd (es2 @ r)) \<le> d"
  proof (cases "ns = []")
    case True
    then show ?thesis using es(3) "3.prems"(3) by auto
  next
    case False
    then have "es2 \<noteq> []" "ent_depth (hd es2) = d"
      using flatten_hd_depth [of ns d] es(3) by (metis fst_e_sig list.map_disc_iff list.map_sel(1))+
    then show ?thesis by simp
  qed
  from "3.IH"(1) [OF _ es(2) this tail] "3.prems"(1) es(1) show ?case by simp
qed

lemma build_complete:
  "all_groups_filled ns \<Longrightarrow> map e_sig es = flatten 0 ns \<Longrightarrow> build 0 es = Inr (ns, [])"
  using build_complete_aux(2) [of ns es 0 "[]"] by simp

section \<open>The loop against the specification\<close>

text \<open>The placement a scanned line stands for; headings and blank lines stand for none.\<close>

definition menu_placement :: "string \<Rightarrow> placement option" where
  "menu_placement raw =
     (let line = trim_right [CHR '' '', CHR 0x0D] raw; trimmed = trim_left [CHR '' ''] line
      in case match_menu trimmed of
          None \<Rightarrow> None
        | Some (l, k, i, c) \<Rightarrow> Some ((length line - length trimmed) div 2, i, l, c))"

definition ps_inv :: "parse_state \<Rightarrow> bool" where
  "ps_inv st = (steps_ok 0 (map e_sig (ps_entries st))
     \<and> list_all placement_ok (map e_sig (ps_entries st))
     \<and> ps_ids st = rev (map ent_id (ps_entries st)) \<and> distinct (ps_ids st)
     \<and> length (ps_entries st) \<le> 2000)"

definition accepts :: "parse_state \<Rightarrow> entry \<Rightarrow> bool" where
  "accepts st e = (placement_ok (e_sig e) \<and> ent_id e \<notin> set (ps_ids st)
     \<and> length (ps_entries st) < 2000
     \<and> (if ps_entries st = [] then ent_depth e = 0 else ent_depth e \<le> Suc (ent_depth (last (ps_entries st)))))"

lemma match_menu_hd: "match_menu s = Some x \<Longrightarrow> hd s = CHR ''-'' \<and> s \<noteq> []"
  by (cases x) (auto dest!: match_menu_sound simp: menu_text_def)

lemma match_menu_label_set: "match_menu s = Some (l, k, i, c) \<Longrightarrow> set l \<subseteq> set s"
  by (auto dest!: match_menu_sound simp: menu_text_def)

lemma set_trim_left: "set (trim_left cs s) \<subseteq> set s"
  by (auto simp: trim_left_def dest: set_dropWhileD)

lemma parse_line_blank:
  assumes "trim_right [CHR '' '', CHR 0x0D] raw = [] \<or> has_prefix ''# '' (trim_right [CHR '' '', CHR 0x0D] raw)"
  shows "menu_placement raw = None"
proof -
  have "match_menu [] = None" by (simp add: match_menu_def)
  moreover have "match_menu (CHR ''#'' # r) = None" for r
    using match_menu_hd [of "CHR ''#'' # r"] by (cases "match_menu (CHR ''#'' # r)") auto
  ultimately show ?thesis
    using assms by (auto simp: menu_placement_def Let_def has_prefix_iff trim_left_def)
qed

lemma parse_line_cases:
  assumes "parse_line st raw = Inr st'"
  obtains
    (skip) "ps_entries st' = ps_entries st" "ps_ids st' = ps_ids st" "menu_placement raw = None"
  | (entry) e where "ps_entries st' = ps_entries st @ [e]" "ps_ids st' = ent_id e # ps_ids st"
      "menu_placement raw = Some (e_sig e)" "accepts st e"
proof -
  define line where "line = trim_right [CHR '' '', CHR 0x0D] raw"
  define trimmed where "trimmed = trim_left [CHR '' ''] line"
  define depth where "depth = (length line - length trimmed) div 2"
  show thesis
  proof (cases "line = [] \<or> (has_prefix ''# '' line \<and> \<not> ps_heading st \<and> ps_entries st = [])")
    case True
    then have "menu_placement raw = None" by (intro parse_line_blank) (auto simp: line_def)
    moreover have "ps_entries st' = ps_entries st \<and> ps_ids st' = ps_ids st"
      using assms True by (auto simp: parse_line_def Let_def line_def split: if_splits)
    ultimately show thesis using skip by blast
  next
    case False
    have tab: "CHR 0x09 \<notin> set line" and d: "depth \<le> 12"
      and dd: "if ps_entries st = [] then depth = 0 else depth \<le> Suc (ent_depth (last (ps_entries st)))"
      using assms False
      by (auto simp: parse_line_def Let_def line_def [symmetric] trimmed_def [symmetric]
          depth_def [symmetric] split: if_splits)
    obtain l k i c where m: "match_menu trimmed = Some (l, k, i, c)"
      using assms False
      by (auto simp: parse_line_def Let_def line_def [symmetric] trimmed_def [symmetric]
          split: if_splits option.splits)
    define e where "e = \<lparr>ent_id = i, ent_label = l, ent_content = c, ent_depth = depth, ent_line = Suc (ps_line st)\<rparr>"
    have st': "st' = st\<lparr>ps_entries := ps_entries st @ [e], ps_ids := i # ps_ids st, ps_line := Suc (ps_line st)\<rparr>"
      and fits: "label_fits l" and fresh: "i \<notin> set (ps_ids st)" and n: "length (ps_entries st) < 2000"
      using assms False m
      by (auto simp: parse_line_def Let_def line_def [symmetric] trimmed_def [symmetric]
          depth_def [symmetric] e_def split: if_splits)
    have "CHR 0x09 \<notin> set l"
      using tab match_menu_label_set [OF m] set_trim_left [of "[CHR '' '']" line]
      by (auto simp: trimmed_def)
    then have "placement_ok (e_sig e)"
      using match_menu_sound [OF m] fits d by (auto simp: placement_ok_def e_sig_def e_def label_ok_def)
    then have "accepts st e" using fresh n dd by (simp add: accepts_def e_def)
    moreover have "menu_placement raw = Some (e_sig e)"
      using m by (simp add: menu_placement_def line_def [symmetric] trimmed_def [symmetric]
          depth_def e_def e_sig_def Let_def)
    ultimately show thesis using entry [of e] st' by (simp add: e_def)
  qed
qed

lemma parse_line_inv:
  assumes "parse_line st raw = Inr st'" "ps_inv st"
  shows "ps_inv st' \<and> map e_sig (ps_entries st') =
    map e_sig (ps_entries st) @ (case menu_placement raw of None \<Rightarrow> [] | Some p \<Rightarrow> [p])"
  using assms(1)
proof (cases rule: parse_line_cases)
  case skip
  with assms(2) show ?thesis by (auto simp: ps_inv_def)
next
  case (entry e)
  with assms(2) show ?thesis
    by (auto simp: ps_inv_def accepts_def steps_ok_snoc last_map split: if_splits)
qed

lemma parse_lines_inv:
  "parse_lines st ls = Inr st' \<Longrightarrow> ps_inv st \<Longrightarrow>
   ps_inv st' \<and> map e_sig (ps_entries st') = map e_sig (ps_entries st) @ List.map_filter menu_placement ls"
proof (induction st ls rule: parse_lines.induct)
  case (1 st)
  then show ?case by (simp add: List.map_filter_simps)
next
  case (2 st l ls)
  then obtain st1 where st1: "parse_line st l = Inr st1" "parse_lines st1 ls = Inr st'"
    by (auto split: sum.splits)
  from parse_line_inv [OF st1(1) "2.prems"(2)] "2.IH" [OF st1(1) st1(2)] show ?case
    by (auto simp: List.map_filter_simps split: option.splits)
qed

lemma ps_inv_init: "ps_inv parse_init"
  by (simp add: ps_inv_def parse_init_def)

text \<open>C28: an accepted Markdown menu yields a well-formed tree (valid and unique location IDs,
  plain labels, at most 13 levels and 2000 placements, no empty group), and reading the tree in
  document order gives back every menu line of the text: none is lost, moved or re-nested.\<close>

theorem parse_tree_sound:
  assumes "parse_tree text = Inr ns"
  shows "wf_tree ns \<and>
    flatten 0 ns = List.map_filter menu_placement (fst (scan_lines max_tree_bytes text))"
proof -
  obtain st r where st: "parse_lines parse_init (fst (scan_lines max_tree_bytes text)) = Inr st"
    and ne: "ps_entries st \<noteq> []" and b: "build 0 (ps_entries st) = Inr (ns, r)"
    using assms by (auto simp: parse_tree_def split: if_splits prod.splits sum.splits)
  have inv: "ps_inv st" and sig: "map e_sig (ps_entries st) =
      List.map_filter menu_placement (fst (scan_lines max_tree_bytes text))"
    using parse_lines_inv [OF st ps_inv_init] by (simp_all add: parse_init_def)
  obtain used where "ps_entries st = used @ r" "map e_sig used = flatten 0 ns"
    "all_groups_filled ns" "r = []"
    using build_sound [OF b] inv by (auto simp: ps_inv_def)
  then have flat: "flatten 0 ns = map e_sig (ps_entries st)" and g: "all_groups_filled ns" by simp_all
  have ids: "map node_id (forest_nodes ns) = map ent_id (ps_entries st)"
    using flatten_ids(2) [of 0 ns] by (simp add: flat comp_def e_sig_def)
  have len: "length (forest_nodes ns) = length (ps_entries st)"
    using length_flatten [of 0 ns] flat by simp
  have "ns \<noteq> []" using ne flat by auto
  moreover have "distinct (map ent_id (ps_entries st))"
    using inv by (metis distinct_rev ps_inv_def)
  ultimately have "wf_tree ns"
    using inv g ids len by (simp add: wf_tree_def ps_inv_def flat)
  with flat sig show ?thesis by simp
qed

section \<open>Round trip\<close>

text \<open>The dialect's text for a placement and for a forest: two spaces per level, one line each.\<close>

fun render_line :: "placement \<Rightarrow> string" where
  "render_line (d, i, l, c) =
     replicate (2 * d) (CHR '' '') @ menu_text l (if c = [] then ''group'' else ''page'') i c"

declare render_line.simps [simp del]

definition render :: "node list \<Rightarrow> string" where
  "render ns = concat (map (\<lambda>l. l @ [newline]) (map render_line (flatten 0 ns)))"

definition labels_utf8 :: "node list \<Rightarrow> bool" where
  "labels_utf8 ns = list_all (\<lambda>p. valid_utf8 (fst (snd (snd p)))) (flatten 0 ns)"

lemma ident_char_plain: "ident_char c \<Longrightarrow> byte c < 128 \<and> c \<noteq> CHR 0x09 \<and> c \<noteq> newline"
  by (auto simp: ident_char_def byte_in_def byte_def newline_def)

lemma is_identifier_plain: "is_identifier i \<Longrightarrow> x \<in> set i \<Longrightarrow> byte x < 128 \<and> x \<noteq> CHR 0x09 \<and> x \<noteq> newline"
  using is_identifier_chars [of i] ident_char_plain by (auto simp: list_all_iff)

lemma ids_text_plain:
  assumes "is_identifier i" "c = [] \<or> is_identifier c" "x \<in> set (ids_text i c)"
  shows "byte x < 128 \<and> x \<noteq> CHR 0x09 \<and> x \<noteq> newline"
proof -
  have "byte CHR ''/'' < 128" "byte CHR '')'' < 128" by (simp_all add: byte_def)
  with assms is_identifier_plain show ?thesis
    by (auto simp: ids_text_def newline_def split: if_splits)
qed

lemma menu_text_plain:
  assumes "label_ok l" "k \<in> {''group'', ''page''}" "is_identifier i" "c = [] \<or> is_identifier c"
  shows "CHR 0x09 \<notin> set (menu_text l k i c) \<and> newline \<notin> set (menu_text l k i c)
    \<and> hd (menu_text l k i c) = CHR ''-'' \<and> last (menu_text l k i c) = CHR '')''
    \<and> menu_text l k i c \<noteq> []"
proof -
  have "CHR 0x09 \<notin> set l" "newline \<notin> set l"
    using assms(1) by (auto simp: label_ok_def label_fits_def contains_any_iff newline_def)
  moreover have "CHR 0x09 \<notin> set (ids_text i c)" "newline \<notin> set (ids_text i c)"
    using ids_text_plain assms(3,4) by blast+
  moreover have "last (ids_text i c) = CHR '')''" by (simp add: ids_text_def)
  moreover have "ids_text i c \<noteq> []" by (simp add: ids_text_def)
  ultimately show ?thesis using assms(2) by (auto simp: menu_text_def newline_def)
qed

lemma trim_left_replicate: "hd t \<noteq> x \<Longrightarrow> t \<noteq> [] \<Longrightarrow> trim_left [x] (replicate n x @ t) = t"
  by (induction n) (auto simp: trim_left_def neq_Nil_conv)

lemma menu_text_utf8:
  assumes "valid_utf8 l" "k \<in> {''group'', ''page''}" "is_identifier i" "c = [] \<or> is_identifier c"
  shows "valid_utf8 (menu_text l k i c)"
proof -
  have "valid_utf8 (ids_text i c)"
    by (rule valid_utf8_ascii) (use ids_text_plain assms(3,4) in blast)
  moreover have "valid_utf8 ''- [''" "valid_utf8 '']''" "valid_utf8 ''(''" "valid_utf8 k" "valid_utf8 '':''"
    using assms(2) by (auto simp: valid_utf8_def Let_def byte_def utf8_lead_def)
  ultimately have "valid_utf8 (''- ['' @ l @ '']'' @ ''('' @ k @ '':'' @ ids_text i c)"
    using assms(1) by (simp only: valid_utf8_append)
  then show ?thesis by (simp add: menu_text_def)
qed

lemma render_line_plain:
  assumes "placement_ok p"
  shows "newline \<notin> set (render_line p) \<and> CHR 0x09 \<notin> set (render_line p)
    \<and> render_line p \<noteq> [] \<and> last (render_line p) = CHR '')''"
  using assms menu_text_plain
  by (cases p) (auto simp: placement_ok_def newline_def render_line.simps)

lemma render_line_utf8:
  assumes "placement_ok p" "valid_utf8 (fst (snd (snd p)))"
  shows "valid_utf8 (render_line p)"
proof (cases p)
  case (fields d i l c)
  have "valid_utf8 (replicate (2 * d) (CHR '' ''))"
    by (rule valid_utf8_ascii) (simp add: byte_def)
  with fields assms show ?thesis
    by (auto simp: placement_ok_def valid_utf8_append menu_text_utf8 render_line.simps)
qed

lemma parse_line_render:
  assumes acc: "accepts st e" and n: "ent_line e = Suc (ps_line st)"
  shows "parse_line st (render_line (e_sig e)) =
    Inr (st\<lparr>ps_entries := ps_entries st @ [e], ps_ids := ent_id e # ps_ids st, ps_line := Suc (ps_line st)\<rparr>)"
proof -
  define k where "k = (if ent_content e = [] then ''group'' else ''page'')"
  define t where "t = menu_text (ent_label e) k (ent_id e) (ent_content e)"
  define line where "line = replicate (2 * ent_depth e) (CHR '' '') @ t"
  have p: "ent_depth e \<le> 12" "is_identifier (ent_id e)" "label_ok (ent_label e)"
    "ent_content e = [] \<or> is_identifier (ent_content e)" and k: "k \<in> {''group'', ''page''}"
    using acc by (auto simp: accepts_def placement_ok_def e_sig_def k_def)
  note t = menu_text_plain [OF p(3) k p(2) p(4), folded t_def]
  have line: "render_line (e_sig e) = line"
    by (simp add: line_def t_def e_sig_def k_def render_line.simps)
  have tr: "trim_right [CHR '' '', CHR 0x0D] line = line"
    by (rule trim_right_id) (use t in \<open>simp add: line_def\<close>)
  have tl: "trim_left [CHR '' ''] line = t"
    unfolding line_def using t by (intro trim_left_replicate) auto
  have m: "match_menu t = Some (ent_label e, k, ent_id e, ent_content e)"
    unfolding t_def using p k by (intro match_menu_complete) (auto simp: label_ok_def)
  have "hd line \<noteq> CHR ''#''" using t by (cases "ent_depth e") (auto simp: line_def)
  then have hash: "\<not> has_prefix ''# '' line" using t by (auto simp: has_prefix_iff)
  have "label_fits (ent_label e)" "CHR 0x09 \<notin> set line" "line \<noteq> []" "length line - length t = 2 * ent_depth e"
    using p(3) t by (auto simp: label_ok_def line_def)
  moreover have "\<lparr>ent_id = ent_id e, ent_label = ent_label e, ent_content = ent_content e,
      ent_depth = ent_depth e, ent_line = Suc (ps_line st)\<rparr> = e" using n by simp
  moreover have "k = ''group'' \<longleftrightarrow> ent_content e = []" "k = ''page'' \<longleftrightarrow> ent_content e \<noteq> []"
    by (simp_all add: k_def)
  moreover have "\<not> (ps_entries st = [] \<and> ent_depth e \<noteq> 0 \<or>
      ps_entries st \<noteq> [] \<and> ent_depth e > ent_depth (last (ps_entries st)) + 1)"
    "ent_id e \<notin> set (ps_ids st)" "length (ps_entries st) < 2000"
    using acc by (auto simp: accepts_def split: if_splits)
  ultimately show ?thesis
    using p(1) by (simp add: line parse_line_def tr tl m hash Let_def)
qed

lemma parse_lines_render:
  assumes "list_all placement_ok ps" "steps_ok 0 (map e_sig (ps_entries st) @ ps)"
    "ps_ids st = rev (map ent_id (ps_entries st))"
    "distinct (map ent_id (ps_entries st) @ map (\<lambda>p. fst (snd p)) ps)"
    "length (ps_entries st) + length ps \<le> 2000"
  shows "\<exists>st'. parse_lines st (map render_line ps) = Inr st'
    \<and> map e_sig (ps_entries st') = map e_sig (ps_entries st) @ ps"
  using assms
proof (induction ps arbitrary: st)
  case Nil
  then show ?case by simp
next
  case (Cons p ps)
  obtain d i l c where p: "p = (d, i, l, c)" by (cases p)
  define e where "e = \<lparr>ent_id = i, ent_label = l, ent_content = c, ent_depth = d, ent_line = Suc (ps_line st)\<rparr>"
  have sig: "e_sig e = p" by (simp add: e_def e_sig_def p)
  have "steps_ok 0 ((map e_sig (ps_entries st) @ [p]) @ ps)" using Cons.prems(2) by simp
  then have "steps_ok 0 (map e_sig (ps_entries st) @ [p])" by (rule steps_ok_prefix)
  then have acc: "accepts st e"
    using Cons.prems sig by (auto simp: accepts_def steps_ok_snoc last_map e_def p split: if_splits)
  define st1 where "st1 = st\<lparr>ps_entries := ps_entries st @ [e], ps_ids := ent_id e # ps_ids st,
    ps_line := Suc (ps_line st)\<rparr>"
  have "parse_line st (render_line p) = Inr st1"
    using parse_line_render [OF acc] sig by (simp add: st1_def e_def)
  moreover have "\<exists>st'. parse_lines st1 (map render_line ps) = Inr st'
    \<and> map e_sig (ps_entries st') = map e_sig (ps_entries st1) @ ps"
    by (rule Cons.IH) (use Cons.prems sig in \<open>auto simp: st1_def e_def p\<close>)
  ultimately show ?case using sig by (auto simp: st1_def)
qed

lemma concat_member_length: "l \<in> set ls \<Longrightarrow> length l \<le> length (concat ls)"
  by (induction ls) auto

text \<open>C29: every well-formed tree with UTF-8 labels whose rendering fits the size limit is the parse
  of its rendering, so the dialect can express every tree the parser can return.\<close>

theorem parse_tree_render:
  assumes wf: "wf_tree ns" and utf: "labels_utf8 ns" and size: "length (render ns) \<le> max_tree_bytes"
  shows "parse_tree (render ns) = Inr ns"
proof -
  define ps where "ps = flatten 0 ns"
  have ok: "\<And>p. p \<in> set ps \<Longrightarrow> placement_ok p" using wf by (auto simp: wf_tree_def ps_def list_all_iff)
  have len: "length l < max_tree_bytes" if "l \<in> set (map render_line ps)" for l
  proof -
    have "l @ [newline] \<in> set (map (\<lambda>l. l @ [newline]) (map render_line ps))"
      using that by auto
    then have "length (l @ [newline]) \<le> length (render ns)"
      unfolding render_def ps_def by (rule concat_member_length)
    then show ?thesis using size by simp
  qed
  have "scan_lines max_tree_bytes (render ns) = (map drop_cr (map render_line ps), False)"
    unfolding render_def ps_def [symmetric]
    by (rule scan_lines_unlines) (use len ok render_line_plain in force)
  moreover have "map drop_cr (map render_line ps) = map render_line ps"
    using render_line_plain ok by (auto simp: drop_cr_def)
  ultimately have scan: "scan_lines max_tree_bytes (render ns) = (map render_line ps, False)" by simp
  have v: "valid_utf8 (render ns)"
    unfolding render_def ps_def [symmetric]
    using ok utf render_line_utf8
    by (intro valid_utf8_concat)
       (auto simp: labels_utf8_def ps_def list_all_iff valid_utf8_append valid_utf8_ascii newline_def byte_def)
  have "\<exists>st'. parse_lines parse_init (map render_line ps) = Inr st'
    \<and> map e_sig (ps_entries st') = map e_sig (ps_entries parse_init) @ ps"
    by (rule parse_lines_render)
       (use wf steps_flatten(2) [of 0 ns] flatten_ids(2) [of 0 ns] length_flatten [of 0 ns]
        in \<open>auto simp: wf_tree_def ps_def parse_init_def\<close>)
  then obtain st where st: "parse_lines parse_init (map render_line ps) = Inr st"
    and sig: "map e_sig (ps_entries st) = ps" by (auto simp: parse_init_def)
  have "build 0 (ps_entries st) = Inr (ns, [])"
    by (rule build_complete) (use wf sig in \<open>auto simp: wf_tree_def ps_def\<close>)
  moreover have "ps_entries st \<noteq> []"
    using sig flatten_hd_depth [of ns 0] wf by (auto simp: ps_def wf_tree_def)
  ultimately show ?thesis using st scan v size by (simp add: parse_tree_def)
qed

end
