(* ===== verification/Validate.thy ===== *)
theory Validate
  imports TreeParse Json
begin

text \<open>
  \<open>Validate\<close> and \<open>safeTreeName\<close> of \<open>internal/study/validate.go\<close>. Each loop of the function is
  one definition; the errors are values that carry what the Go message prints. SHA-256 is an
  argument (\<open>sha\<close>, the hexadecimal digest of a byte string). The results characterise the accepted
  bundles by a declarative contract and derive the balance the experiment rests on.
\<close>

datatype study_error =
    SchemaVersion | InvalidSlug | InvalidTitle | LongInstructions | BadTasksPerSession
  | VariantCount | TaskCount | PanelCount
  | InvalidVariant string | VariantName string | VariantTree string | MissingTree string
  | TreeText string parse_error | UnusedTree string
  | InvalidTask string | DuplicateTask string | TaskPrompt string | TaskDifficulty string
  | TaskAnswers string | NoAnswers string string | UnreachableAnswer string string string
  | DuplicateAnswer string string
  | PanelSize nat | PanelTask nat string | PanelBand nat string | Exposure string
  | BundleTooLarge

section \<open>The loops of Validate\<close>

text \<open>
  A file name with one element: \<open>filepath.Base(name) == name\<close> holds for every name without a
  slash except the empty one, and \<open>HasSuffix\<close> already excludes that.
\<close>

definition safe_tree_name :: "string \<Rightarrow> bool" where
  "safe_tree_name n = (length n \<le> 128 \<and> \<not> contains_any [CHR ''/'', CHR 0x5C, CHR 0x00] n
     \<and> has_suffix ''.md'' n \<and> \<not> has_prefix ''.'' n)"

definition check_config :: "config \<Rightarrow> study_error option" where
  "check_config c =
     (if schema_version c \<noteq> 1 then Some SchemaVersion
      else if \<not> is_identifier (cfg_slug c) then Some InvalidSlug
      else if trim_space (cfg_title c) = [] \<or> length (cfg_title c) > 240 then Some InvalidTitle
      else if length (cfg_instructions c) > 8000 then Some LongInstructions
      else if tasks_per_session c < 3 \<or> tasks_per_session c > 30 \<or> tasks_per_session c mod 3 \<noteq> 0
        then Some BadTasksPerSession
      else if length (cfg_variants c) < 2 \<or> length (cfg_variants c) > 10 then Some VariantCount
      else if int (length (cfg_tasks c)) < tasks_per_session c \<or> length (cfg_tasks c) > 200 then Some TaskCount
      else if cfg_panels c = [] \<or> length (cfg_panels c) > 1000 then Some PanelCount
      else None)"

type_synonym forest = "(string \<times> node list) list"

definition check_variant :: "study_bundle \<Rightarrow> forest \<Rightarrow> variant \<Rightarrow> study_error + forest" where
  "check_variant b trees v =
     (if \<not> is_identifier (v_id v) \<or> map_of trees (v_id v) \<noteq> None then Inl (InvalidVariant (v_id v))
      else if trim_space (v_name v) = [] \<or> length (v_name v) > 240 then Inl (VariantName (v_id v))
      else if \<not> safe_tree_name (v_tree v) then Inl (VariantTree (v_id v))
      else case map_of (b_trees b) (v_tree v) of
          None \<Rightarrow> Inl (MissingTree (v_tree v))
        | Some text \<Rightarrow>
            (case parse_tree text of
               Inl e \<Rightarrow> Inl (TreeText (v_tree v) e)
             | Inr parsed \<Rightarrow> Inr ((v_id v, parsed) # trees)))"

fun check_variants :: "study_bundle \<Rightarrow> forest \<Rightarrow> variant list \<Rightarrow> study_error + forest" where
  "check_variants b trees [] = Inr trees"
| "check_variants b trees (v # vs) =
     (case check_variant b trees v of
        Inl e \<Rightarrow> Inl e
      | Inr trees' \<Rightarrow> check_variants b trees' vs)"

definition check_unused :: "study_bundle \<Rightarrow> study_error option" where
  "check_unused b =
     map_option UnusedTree
       (find (\<lambda>n. n \<notin> set (map v_tree (cfg_variants (b_config b)))) (map fst (b_trees b)))"

text \<open>The inner loop over the accepted answers of one task for one variant.\<close>

fun check_answers :: "string \<Rightarrow> string \<Rightarrow> node list \<Rightarrow> string list \<Rightarrow> string list \<Rightarrow> study_error option" where
  "check_answers t v ns seen [] = None"
| "check_answers t v ns seen (a # as) =
     (if a \<notin> set (content_ids ns) then Some (UnreachableAnswer t a v)
      else if a \<in> set seen then Some (DuplicateAnswer t a)
      else check_answers t v ns (a # seen) as)"

fun check_answer_sets :: "forest \<Rightarrow> task \<Rightarrow> variant list \<Rightarrow> study_error option" where
  "check_answer_sets trees t [] = None"
| "check_answer_sets trees t (v # vs) =
     (case map_of (t_answers t) (v_id v) of
        None \<Rightarrow> Some (NoAnswers (t_id t) (v_id v))
      | Some [] \<Rightarrow> Some (NoAnswers (t_id t) (v_id v))
      | Some (a # as) \<Rightarrow>
          (case check_answers (t_id t) (v_id v) (the (map_of trees (v_id v))) [] (a # as) of
             Some e \<Rightarrow> Some e
           | None \<Rightarrow> check_answer_sets trees t vs))"

definition difficulties :: "string list" where
  "difficulties = [''easy'', ''medium'', ''hard'']"

definition check_task :: "config \<Rightarrow> forest \<Rightarrow> string list \<Rightarrow> task \<Rightarrow> study_error option" where
  "check_task c trees seen t =
     (if \<not> is_identifier (t_id t) then Some (InvalidTask (t_id t))
      else if t_id t \<in> set seen then Some (DuplicateTask (t_id t))
      else if trim_space (t_prompt t) = [] \<or> length (t_prompt t) > 4000 then Some (TaskPrompt (t_id t))
      else if t_difficulty t \<notin> set difficulties then Some (TaskDifficulty (t_id t))
      else if card (set (map fst (t_answers t))) \<noteq> length (cfg_variants c) then Some (TaskAnswers (t_id t))
      else check_answer_sets trees t (cfg_variants c))"

fun check_tasks :: "config \<Rightarrow> forest \<Rightarrow> string list \<Rightarrow> task list \<Rightarrow> study_error option" where
  "check_tasks c trees seen [] = None"
| "check_tasks c trees seen (t # ts) =
     (case check_task c trees seen t of
        Some e \<Rightarrow> Some e
      | None \<Rightarrow> check_tasks c trees (t_id t # seen) ts)"

definition task_named :: "task list \<Rightarrow> string \<Rightarrow> task option" where
  "task_named ts i = find (\<lambda>t. t_id t = i) ts"

fun check_panel_tasks :: "task list \<Rightarrow> nat \<Rightarrow> string list \<Rightarrow> string list \<Rightarrow> study_error option" where
  "check_panel_tasks ts k seen [] = None"
| "check_panel_tasks ts k seen (i # is) =
     (if task_named ts i = None \<or> i \<in> set seen then Some (PanelTask k i)
      else check_panel_tasks ts k (i # seen) is)"

text \<open>\<open>difficulty[band]\<close> after the loop over a panel whose tasks are all known.\<close>

definition band_count :: "task list \<Rightarrow> string \<Rightarrow> string list \<Rightarrow> nat" where
  "band_count ts band is =
     length (filter (\<lambda>i. map_option t_difficulty (task_named ts i) = Some band) is)"

definition check_panel :: "config \<Rightarrow> nat \<Rightarrow> string list \<Rightarrow> study_error option" where
  "check_panel c k panel =
     (if int (length panel) \<noteq> tasks_per_session c then Some (PanelSize k)
      else case check_panel_tasks (cfg_tasks c) k [] panel of
          Some e \<Rightarrow> Some e
        | None \<Rightarrow>
            map_option (PanelBand k)
              (find (\<lambda>band. int (band_count (cfg_tasks c) band panel) \<noteq> tasks_per_session c div 3)
                 difficulties))"

fun check_panels :: "config \<Rightarrow> nat \<Rightarrow> string list list \<Rightarrow> study_error option" where
  "check_panels c k [] = None"
| "check_panels c k (p # ps) =
     (case check_panel c k p of Some e \<Rightarrow> Some e | None \<Rightarrow> check_panels c (Suc k) ps)"

text \<open>\<open>exposure[id]\<close>: how often the panels use a task.\<close>

definition exposure :: "config \<Rightarrow> string \<Rightarrow> nat" where
  "exposure c i = count_list (concat (cfg_panels c)) i"

definition check_exposure :: "config \<Rightarrow> study_error option" where
  "check_exposure c =
     (let expected = exposure c (t_id (hd (cfg_tasks c)))
      in map_option (\<lambda>t. Exposure (t_id t))
           (find (\<lambda>t. exposure c (t_id t) = 0 \<or> exposure c (t_id t) \<noteq> expected) (cfg_tasks c)))"

definition max_bundle_bytes :: nat where
  "max_bundle_bytes = 8 * 2 ^ 20"

definition validate :: "(string \<Rightarrow> string) \<Rightarrow> study_bundle \<Rightarrow> study_error + snapshot" where
  "validate sha b =
     (let c = b_config b
      in case check_config c of Some e \<Rightarrow> Inl e | None \<Rightarrow>
         (case check_variants b [] (cfg_variants c) of Inl e \<Rightarrow> Inl e | Inr trees \<Rightarrow>
         (case check_unused b of Some e \<Rightarrow> Inl e | None \<Rightarrow>
         (case check_tasks c trees [] (cfg_tasks c) of Some e \<Rightarrow> Inl e | None \<Rightarrow>
         (case check_panels c 1 (cfg_panels c) of Some e \<Rightarrow> Inl e | None \<Rightarrow>
         (case check_exposure c of Some e \<Rightarrow> Inl e | None \<Rightarrow>
            let raw = bundle_json b
            in if length raw > max_bundle_bytes then Inl BundleTooLarge
               else Inr \<lparr>s_bundle = frozen_bundle b, s_hash = sha raw, s_trees = trees\<rparr>))))))"

section \<open>The contract of a bundle\<close>

definition tree_of :: "study_bundle \<Rightarrow> variant \<Rightarrow> node list" where
  "tree_of b v =
     (case map_of (b_trees b) (v_tree v) of
        None \<Rightarrow> []
      | Some text \<Rightarrow> (case parse_tree text of Inl _ \<Rightarrow> [] | Inr ns \<Rightarrow> ns))"

definition variant_ok :: "study_bundle \<Rightarrow> variant \<Rightarrow> bool" where
  "variant_ok b v \<longleftrightarrow>
     is_identifier (v_id v) \<and> trim_space (v_name v) \<noteq> [] \<and> length (v_name v) \<le> 240
     \<and> safe_tree_name (v_tree v)
     \<and> (\<exists>text ns. map_of (b_trees b) (v_tree v) = Some text \<and> parse_tree text = Inr ns)"

text \<open>Every variant has at least one accepted answer, and each is a page of that variant's tree.\<close>

definition answers_ok :: "study_bundle \<Rightarrow> task \<Rightarrow> variant \<Rightarrow> bool" where
  "answers_ok b t v \<longleftrightarrow>
     (\<exists>as. map_of (t_answers t) (v_id v) = Some as \<and> as \<noteq> [] \<and> distinct as
        \<and> set as \<subseteq> set (content_ids (tree_of b v)))"

definition task_ok :: "study_bundle \<Rightarrow> task \<Rightarrow> bool" where
  "task_ok b t \<longleftrightarrow>
     is_identifier (t_id t) \<and> trim_space (t_prompt t) \<noteq> [] \<and> length (t_prompt t) \<le> 4000
     \<and> t_difficulty t \<in> set difficulties
     \<and> card (set (map fst (t_answers t))) = length (cfg_variants (b_config b))
     \<and> (\<forall>v \<in> set (cfg_variants (b_config b)). answers_ok b t v)"

definition panel_ok :: "config \<Rightarrow> string list \<Rightarrow> bool" where
  "panel_ok c p \<longleftrightarrow>
     int (length p) = tasks_per_session c \<and> distinct p \<and> set p \<subseteq> t_id ` set (cfg_tasks c)
     \<and> (\<forall>band \<in> set difficulties. int (band_count (cfg_tasks c) band p) = tasks_per_session c div 3)"

definition study_contract :: "study_bundle \<Rightarrow> bool" where
  "study_contract b \<longleftrightarrow>
     (let c = b_config b; vs = cfg_variants c; ts = cfg_tasks c
      in schema_version c = 1 \<and> is_identifier (cfg_slug c)
       \<and> trim_space (cfg_title c) \<noteq> [] \<and> length (cfg_title c) \<le> 240 \<and> length (cfg_instructions c) \<le> 8000
       \<and> 3 \<le> tasks_per_session c \<and> tasks_per_session c \<le> 30 \<and> tasks_per_session c mod 3 = 0
       \<and> 2 \<le> length vs \<and> length vs \<le> 10
       \<and> tasks_per_session c \<le> int (length ts) \<and> length ts \<le> 200
       \<and> cfg_panels c \<noteq> [] \<and> length (cfg_panels c) \<le> 1000
       \<and> (\<forall>v \<in> set vs. variant_ok b v) \<and> distinct (map v_id vs)
       \<and> fst ` set (b_trees b) \<subseteq> v_tree ` set vs
       \<and> (\<forall>t \<in> set ts. task_ok b t) \<and> distinct (map t_id ts)
       \<and> (\<forall>p \<in> set (cfg_panels c). panel_ok c p)
       \<and> (\<exists>n > 0. \<forall>t \<in> set ts. exposure c (t_id t) = n)
       \<and> length (bundle_json b) \<le> max_bundle_bytes)"

definition snapshot_of :: "(string \<Rightarrow> string) \<Rightarrow> study_bundle \<Rightarrow> snapshot" where
  "snapshot_of sha b =
     \<lparr>s_bundle = frozen_bundle b, s_hash = sha (bundle_json b),
      s_trees = rev (map (\<lambda>v. (v_id v, tree_of b v)) (cfg_variants (b_config b)))\<rparr>"

lemma check_variant_Inr:
  "check_variant b trees v = Inr trees' \<longleftrightarrow>
   variant_ok b v \<and> v_id v \<notin> fst ` set trees \<and> trees' = (v_id v, tree_of b v) # trees"
  unfolding map_of_eq_None_iff [symmetric]
  by (auto simp: check_variant_def variant_ok_def tree_of_def split: option.splits sum.splits)

lemma check_variants_Inr:
  "check_variants b trees vs = Inr trees' \<longleftrightarrow>
   (\<forall>v \<in> set vs. variant_ok b v) \<and> distinct (map v_id vs) \<and> v_id ` set vs \<inter> fst ` set trees = {}
   \<and> trees' = rev (map (\<lambda>v. (v_id v, tree_of b v)) vs) @ trees"
proof (induction vs arbitrary: trees)
  case Nil
  then show ?case by auto
next
  case (Cons v vs)
  show ?case
  proof (cases "check_variant b trees v")
    case (Inl e)
    then have "\<not> (variant_ok b v \<and> v_id v \<notin> fst ` set trees)"
      by (metis check_variant_Inr sum.distinct(1))
    with Inl show ?thesis by auto
  next
    case (Inr t)
    then have "variant_ok b v" "v_id v \<notin> fst ` set trees" "t = (v_id v, tree_of b v) # trees"
      by (auto simp: check_variant_Inr)
    with Inr Cons.IH [of t] show ?thesis by auto
  qed
qed

lemma check_answers_None:
  "check_answers t v ns seen as = None \<longleftrightarrow>
   set as \<subseteq> set (content_ids ns) \<and> distinct as \<and> set as \<inter> set seen = {}"
  by (induction t v ns seen as rule: check_answers.induct) auto

lemma check_answer_sets_None:
  assumes "\<And>v. v \<in> set vs \<Longrightarrow> map_of trees (v_id v) = Some (tree_of b v)"
  shows "check_answer_sets trees t vs = None \<longleftrightarrow> (\<forall>v \<in> set vs. answers_ok b t v)"
  using assms
proof (induction vs)
  case Nil
  then show ?case by simp
next
  case (Cons v vs)
  then have v: "map_of trees (v_id v) = Some (tree_of b v)" by simp
  show ?case
    using Cons
    by (cases "map_of (t_answers t) (v_id v)"; cases "the (map_of (t_answers t) (v_id v))")
       (auto simp: v answers_ok_def check_answers_None simp del: check_answers.simps)
qed

lemma check_task_None:
  assumes "\<And>v. v \<in> set (cfg_variants (b_config b)) \<Longrightarrow> map_of trees (v_id v) = Some (tree_of b v)"
  shows "check_task (b_config b) trees seen t = None \<longleftrightarrow> task_ok b t \<and> t_id t \<notin> set seen"
  using check_answer_sets_None [of "cfg_variants (b_config b)" trees b t] assms
  by (auto simp: check_task_def task_ok_def)

lemma check_tasks_None:
  assumes "\<And>v. v \<in> set (cfg_variants (b_config b)) \<Longrightarrow> map_of trees (v_id v) = Some (tree_of b v)"
  shows "check_tasks (b_config b) trees seen ts = None \<longleftrightarrow>
    (\<forall>t \<in> set ts. task_ok b t) \<and> distinct (map t_id ts) \<and> t_id ` set ts \<inter> set seen = {}"
proof (induction ts arbitrary: seen)
  case Nil
  then show ?case by simp
next
  case (Cons t ts)
  show ?case
    using check_task_None [OF assms, of seen t] Cons.IH [of "t_id t # seen"]
    by auto
qed

lemma task_named_None: "task_named ts i = None \<longleftrightarrow> i \<notin> t_id ` set ts"
  by (auto simp: task_named_def find_None_iff)

lemma check_panel_tasks_None:
  "check_panel_tasks ts k seen is = None \<longleftrightarrow>
   set is \<subseteq> t_id ` set ts \<and> distinct is \<and> set is \<inter> set seen = {}"
  by (induction ts k seen "is" rule: check_panel_tasks.induct) (auto simp: task_named_None)

lemma check_panel_None: "check_panel c k p = None \<longleftrightarrow> panel_ok c p"
  by (auto simp: check_panel_def panel_ok_def check_panel_tasks_None find_None_iff)

lemma check_panels_None: "check_panels c k ps = None \<longleftrightarrow> (\<forall>p \<in> set ps. panel_ok c p)"
  by (induction c k ps rule: check_panels.induct) (auto simp: check_panel_None)

lemma check_exposure_None:
  assumes "cfg_tasks c \<noteq> []"
  shows "check_exposure c = None \<longleftrightarrow> (\<exists>n > 0. \<forall>t \<in> set (cfg_tasks c). exposure c (t_id t) = n)"
proof -
  have "hd (cfg_tasks c) \<in> set (cfg_tasks c)" using assms by simp
  then show ?thesis by (auto simp: check_exposure_def Let_def find_None_iff)
qed

lemma check_config_None:
  "check_config c = None \<longleftrightarrow>
   schema_version c = 1 \<and> is_identifier (cfg_slug c)
   \<and> trim_space (cfg_title c) \<noteq> [] \<and> length (cfg_title c) \<le> 240 \<and> length (cfg_instructions c) \<le> 8000
   \<and> 3 \<le> tasks_per_session c \<and> tasks_per_session c \<le> 30 \<and> tasks_per_session c mod 3 = 0
   \<and> 2 \<le> length (cfg_variants c) \<and> length (cfg_variants c) \<le> 10
   \<and> tasks_per_session c \<le> int (length (cfg_tasks c)) \<and> length (cfg_tasks c) \<le> 200
   \<and> cfg_panels c \<noteq> [] \<and> length (cfg_panels c) \<le> 1000"
  by (auto simp: check_config_def not_less)

lemma check_unused_None:
  "check_unused b = None \<longleftrightarrow> fst ` set (b_trees b) \<subseteq> v_tree ` set (cfg_variants (b_config b))"
  by (auto simp: check_unused_def find_None_iff)

section \<open>What Validate accepts\<close>

lemma validate_contract:
  "validate sha b = Inr s \<longleftrightarrow> study_contract b \<and> s = snapshot_of sha b"
proof -
  define c where "c = b_config b"
  define trees where "trees = rev (map (\<lambda>v. (v_id v, tree_of b v)) (cfg_variants c))"
  have lookup: "map_of trees (v_id v) = Some (tree_of b v)"
    if "v \<in> set (cfg_variants c)" "distinct (map v_id (cfg_variants c))" for v
    using that by (intro map_of_is_SomeI) (auto simp: trees_def comp_def rev_map [symmetric])
  have variants: "check_variants b [] (cfg_variants c) = Inr t \<longleftrightarrow>
      (\<forall>v \<in> set (cfg_variants c). variant_ok b v) \<and> distinct (map v_id (cfg_variants c)) \<and> t = trees" for t
    by (auto simp: check_variants_Inr trees_def)
  show ?thesis
  proof (cases "check_config c = None \<and> check_variants b [] (cfg_variants c) = Inr trees")
    case False
    then have "\<not> study_contract b"
      by (auto simp: study_contract_def Let_def c_def [symmetric] check_config_None variants)
    moreover have "validate sha b \<noteq> Inr s"
      using False variants by (auto simp: validate_def Let_def c_def [symmetric] split: option.splits sum.splits)
    ultimately show ?thesis by simp
  next
    case True
    then have "distinct (map v_id (cfg_variants c))" and cfg: "check_config c = None" by (auto simp: variants)
    note tasks = check_tasks_None [of b trees "[]", folded c_def, OF lookup [OF _ this(1)]]
    have "cfg_tasks c \<noteq> []" using cfg by (auto simp: check_config_None)
    note expo = check_exposure_None [OF this]
    have "validate sha b = Inr s \<longleftrightarrow> check_unused b = None \<and> check_tasks c trees [] (cfg_tasks c) = None
      \<and> check_panels c 1 (cfg_panels c) = None \<and> check_exposure c = None
      \<and> length (bundle_json b) \<le> max_bundle_bytes \<and> s = snapshot_of sha b"
      using True by (auto simp: validate_def Let_def c_def [symmetric] snapshot_of_def trees_def
          not_less split: option.splits if_splits)
    also have "\<dots> \<longleftrightarrow> study_contract b \<and> s = snapshot_of sha b"
      using True tasks expo check_panels_None [of c 1 "cfg_panels c"] check_unused_None [of b]
      by (auto simp: study_contract_def Let_def c_def [symmetric] check_config_None variants)
    finally show ?thesis .
  qed
qed

text \<open>C24: a bundle is accepted exactly when it meets the contract, and the snapshot then holds the
  parsed tree of every variant and the hash of the marshalled bundle.\<close>

theorem validate_iff:
  "validate sha b = Inr s \<longleftrightarrow> study_contract b \<and> s = snapshot_of sha b"
  by (rule validate_contract)

lemma length_filter_count:
  assumes "set xs \<subseteq> S" "finite S"
  shows "length (filter P xs) = (\<Sum>i | i \<in> S \<and> P i. count_list xs i)"
proof -
  have "length (filter P xs) = (\<Sum>i | i \<in> S \<and> P i. count_list (filter P xs) i)"
    by (rule sum_count_set [symmetric]) (use assms in auto)
  also have "\<dots> = (\<Sum>i | i \<in> S \<and> P i. count_list xs i)"
    by (intro sum.cong refl) (induction xs, auto)
  finally show ?thesis .
qed

lemma task_named_unique: "distinct (map t_id ts) \<Longrightarrow> t \<in> set ts \<Longrightarrow> task_named ts (t_id t) = Some t"
  unfolding task_named_def using tbl_lookup_unique [of t_id ts t] by (simp add: tbl_keys_def tbl_lookup_def)

lemma band_ids:
  assumes "distinct (map t_id ts)"
  shows "{i \<in> t_id ` set ts. map_option t_difficulty (task_named ts i) = Some band} =
    t_id ` {t \<in> set ts. t_difficulty t = band}"
  using assms by (auto simp: task_named_unique)

lemma length_concat_const: "(\<And>p. p \<in> set ps \<Longrightarrow> f p = k) \<Longrightarrow> sum_list (map f ps) = length ps * k"
  by (induction ps) auto

text \<open>The tasks of a band appear in the panels as often as the panels hold tasks of the band.\<close>

lemma band_exposure:
  assumes ids: "distinct (map t_id ts)" and n: "\<And>t. t \<in> set ts \<Longrightarrow> count_list (concat ps) (t_id t) = n"
    and known: "\<And>p. p \<in> set ps \<Longrightarrow> set p \<subseteq> t_id ` set ts"
    and band: "\<And>p. p \<in> set ps \<Longrightarrow> band_count ts band p = k"
  shows "n * length (filter (\<lambda>t. t_difficulty t = band) ts) = length ps * k"
proof -
  define P where "P i \<longleftrightarrow> map_option t_difficulty (task_named ts i) = Some band" for i
  define B where "B = {t \<in> set ts. t_difficulty t = band}"
  have inj: "inj_on t_id (set ts)" using ids by (simp add: distinct_map)
  have B: "{i \<in> t_id ` set ts. P i} = t_id ` B" using band_ids [OF ids, of band] by (simp add: P_def B_def)
  have "length ps * k = sum_list (map (\<lambda>p. length (filter P p)) ps)"
    using band by (intro length_concat_const [symmetric]) (simp add: band_count_def P_def [abs_def])
  also have "\<dots> = length (filter P (concat ps))"
    by (simp add: filter_concat length_concat comp_def)
  also have "\<dots> = (\<Sum>i \<in> t_id ` B. count_list (concat ps) i)"
    using length_filter_count [of "concat ps" "t_id ` set ts" P] known B by fastforce
  also have "\<dots> = (\<Sum>t \<in> B. count_list (concat ps) (t_id t))"
    by (rule sum.reindex_cong [of t_id]) (use inj in \<open>auto simp: B_def inj_on_def\<close>)
  also have "\<dots> = n * card B" using n by (simp add: B_def)
  also have "card B = length (filter (\<lambda>t. t_difficulty t = band) ts)"
    using ids distinct_card [of "filter (\<lambda>t. t_difficulty t = band) ts"]
    by (simp add: B_def distinct_map)
  finally show ?thesis by simp
qed

text \<open>In an accepted study all tasks appear equally often in the panels, and although the task
  bank is never checked for it, exactly a third of the tasks is in each difficulty band.\<close>

theorem validated_balance:
  assumes "validate sha b = Inr s"
  defines "ts \<equiv> cfg_tasks (b_config b)" and "ps \<equiv> cfg_panels (b_config b)"
  shows "\<exists>n > 0. (\<forall>t \<in> set ts. exposure (b_config b) (t_id t) = n)
    \<and> int (n * length ts) = int (length ps) * tasks_per_session (b_config b)
    \<and> (\<forall>band \<in> set difficulties. 3 * length (filter (\<lambda>t. t_difficulty t = band) ts) = length ts)"
proof -
  define k where "k = nat (tasks_per_session (b_config b) div 3)"
  have contract: "study_contract b" using assms(1) by (simp add: validate_contract)
  then obtain n where n: "n > 0" "\<And>t. t \<in> set ts \<Longrightarrow> exposure (b_config b) (t_id t) = n"
    by (auto simp: study_contract_def Let_def ts_def)
  have tps: "tasks_per_session (b_config b) = 3 * int k" and ids: "distinct (map t_id ts)"
    and panels: "\<And>p. p \<in> set ps \<Longrightarrow> panel_ok (b_config b) p"
    and diff: "\<And>t. t \<in> set ts \<Longrightarrow> t_difficulty t \<in> set difficulties"
    using contract by (auto simp: study_contract_def Let_def ts_def ps_def k_def task_ok_def)
  have band: "n * length (filter (\<lambda>t. t_difficulty t = band) ts) = length ps * k"
    if "band \<in> set difficulties" for band
    by (rule band_exposure [OF ids])
       (use n panels tps that in \<open>auto simp: panel_ok_def exposure_def ps_def ts_def\<close>)
  define L where "L band = length (filter (\<lambda>t. t_difficulty t = band) ts)" for band
  have split: "length ts = L ''easy'' + L ''medium'' + L ''hard''"
    using diff unfolding L_def by (induction ts) (auto simp: difficulties_def)
  have eq: "L band = L ''easy''" if "band \<in> set difficulties" for band
  proof -
    have "n * L band = n * L ''easy''"
      using band [OF that] band [of "''easy''"] by (simp add: L_def difficulties_def)
    with n(1) show ?thesis by simp
  qed
  have third: "3 * L band = length ts" if "band \<in> set difficulties" for band
    using split eq [of "''medium''"] eq [of "''hard''"] eq [OF that] by (simp add: difficulties_def)
  have "n * length ts = n * (3 * L ''easy'')" using third [of "''easy''"] by (simp add: difficulties_def)
  also have "\<dots> = 3 * (length ps * k)" using band [of "''easy''"] by (simp add: L_def difficulties_def)
  finally have "int (n * length ts) = int (length ps) * tasks_per_session (b_config b)"
    using tps by simp
  with n third show ?thesis by (auto simp: L_def)
qed

end
