(* ===== verification/Policy.thy ===== *)
theory Policy
  imports Shuffle Json Clock Validate
begin

text \<open>
  \<open>policy.go\<close>: the frozen study policy, its identity hash, the balanced block allocation of
  enrolments to arms and panels, and the scoring rule. \<open>digest\<close> of the Go code (SHA-256 in
  hexadecimal) is the parameter \<open>sha\<close>. A stored \<open>policy_json\<close> column is the policy it decodes to,
  or \<open>None\<close> when the decoder rejects the text.
\<close>

record policy =
  p_version :: string
  p_allocation :: string
  p_scoring :: string
  p_timing :: string

definition policy_v1 :: policy where
  "policy_v1 = \<lparr>p_version = ''v1'', p_allocation = ''balanced-block-v1'',
     p_scoring = ''membership-v1'', p_timing = ''visible-terminal-v1''\<rparr>"

definition current_policy :: policy where
  "current_policy = policy_v1"

text \<open>The guard of \<open>resolvePolicy\<close>: only the complete first policy is supported.\<close>

definition unsupported_policy :: api_error where
  "unsupported_policy =
     Problem 409 ''unsupported frozen study policy; this server cannot process this version''"

definition check_policy :: "policy \<Rightarrow> unit result" where
  "check_policy p =
     (if p_version p \<noteq> ''v1'' \<or> p \<noteq> policy_v1 then Inl unsupported_policy else Inr ())"

lemma check_policy_Inr [simp]: "check_policy p = Inr u \<longleftrightarrow> p = policy_v1"
  by (auto simp: check_policy_def policy_v1_def)

definition decode_policy :: "policy option \<Rightarrow> policy result" where
  "decode_policy stored = (case stored of
      None \<Rightarrow> Inl (Problem 409 ''unsupported frozen policy encoding'')
    | Some p \<Rightarrow> (case check_policy p of Inl e \<Rightarrow> Inl e | Inr _ \<Rightarrow> Inr p))"

lemma decode_policy_Inr: "decode_policy s = Inr p \<longleftrightarrow> s = Some policy_v1 \<and> p = policy_v1"
  by (auto simp: decode_policy_def check_policy_def policy_v1_def split: option.splits)

definition policy_json :: "policy \<Rightarrow> string" where
  "policy_json p = json_object
     [(''version'', json_string (p_version p)), (''allocation'', json_string (p_allocation p)),
      (''scoring'', json_string (p_scoring p)), (''timing'', json_string (p_timing p))]"

definition publication_hash :: "(string \<Rightarrow> string) \<Rightarrow> string \<Rightarrow> policy \<Rightarrow> string" where
  "publication_hash sha content p = sha (json_object
     [(''content_hash'', json_string content), (''policy'', policy_json p)])"

text \<open>The frozen snapshot: a validated study, its publication hash and its policy.\<close>

record frozen_snapshot =
  f_snapshot :: snapshot
  f_hash :: string
  f_policy :: policy

definition f_config :: "frozen_snapshot \<Rightarrow> config" where
  "f_config f = b_config (s_bundle (f_snapshot f))"

text \<open>Go's map index on the parsed trees: a missing variant reads as no nodes.\<close>

definition f_tree :: "frozen_snapshot \<Rightarrow> string \<Rightarrow> node list" where
  "f_tree f v = (case map_of (s_trees (f_snapshot f)) v of None \<Rightarrow> [] | Some ns \<Rightarrow> ns)"

section \<open>Allocation\<close>

record allocation =
  al_variant :: string
  al_panel :: nat

definition allocation_block :: "config \<Rightarrow> allocation list" where
  "allocation_block c = concat (map (\<lambda>v. map (\<lambda>p. \<lparr>al_variant = v_id v, al_panel = p\<rparr>)
     [0..<length (cfg_panels c)]) (cfg_variants c))"

definition allocate_v1 :: "nat list \<Rightarrow> config \<Rightarrow> allocation list result" where
  "allocate_v1 rs c = (case shuffle rs (allocation_block c) of
      None \<Rightarrow> Inl (Internal ''random source'') | Some b \<Rightarrow> Inr b)"

lemma length_allocation_block:
  "length (allocation_block c) = length (cfg_variants c) * length (cfg_panels c)"
  by (simp add: allocation_block_def length_concat comp_def sum_list_triv)

lemma set_allocation_block:
  "a \<in> set (allocation_block c) \<longleftrightarrow>
    al_variant a \<in> v_id ` set (cfg_variants c) \<and> al_panel a < length (cfg_panels c)"
  by (cases a) (fastforce simp: allocation_block_def)

lemma distinct_allocation_block:
  assumes "distinct (map v_id (cfg_variants c))"
  shows "distinct (allocation_block c)"
proof -
  have "distinct (concat (map (\<lambda>v. map (\<lambda>p. \<lparr>al_variant = v_id v, al_panel = p\<rparr>) [0..<n]) vs))"
    if "distinct (map v_id vs)" for n vs
    using that by (induction vs) (auto simp: distinct_map inj_on_def image_iff)
  with assms show ?thesis by (simp add: allocation_block_def)
qed

lemma allocate_v1_block:
  assumes "allocate_v1 rs c = Inr b"
  shows "mset b = mset (allocation_block c)"
proof (cases "allocation_block c")
  case Nil
  with assms show ?thesis by (simp add: allocate_v1_def shuffle_def split: option.splits)
next
  case (Cons a as)
  then show ?thesis using assms shuffle_from_mset [of "length as" rs "a # as" b]
    by (auto simp: allocate_v1_def shuffle_def split: option.splits)
qed

text \<open>
  The part of \<open>join\<close> that takes the next allocation of a run: a new block when none is pending,
  then the first entry; the rest stays pending. The handler reads \<open>run.Allocation[0]\<close>, which
  panics on an empty block.
\<close>

definition next_allocation ::
    "(nat list \<Rightarrow> config \<Rightarrow> allocation list result) \<Rightarrow> nat list \<Rightarrow> config \<Rightarrow> allocation list
      \<Rightarrow> (allocation \<times> allocation list) result" where
  "next_allocation allocate rs c pending =
     (case (if pending = [] then allocate rs c else Inr pending) of
        Inl e \<Rightarrow> Inl e
      | Inr [] \<Rightarrow> Inl (Fault ''index out of range'')
      | Inr (a # as) \<Rightarrow> Inr (a, as))"

section \<open>Blocks\<close>

text \<open>What was handed out and what is pending make up whole blocks; what is pending is part of one.\<close>

definition balanced :: "allocation list \<Rightarrow> allocation list \<Rightarrow> allocation list \<Rightarrow> bool" where
  "balanced block given pending \<longleftrightarrow> (\<exists>n. mset given + mset pending = repeat_mset n (mset block)) \<and> mset pending \<subseteq># mset block"

lemma balanced_start: "balanced block [] []"
  by (auto simp: balanced_def intro: exI [of _ 0])

lemma balanced_next:
  assumes "balanced (allocation_block c) given pending" "next_allocation allocate_v1 rs c pending = Inr (a, rest)"
  shows "balanced (allocation_block c) (given @ [a]) rest" "a \<in> set (allocation_block c)"
proof -
  obtain n where n: "mset given + mset pending = repeat_mset n (mset (allocation_block c))"
    "mset pending \<subseteq># mset (allocation_block c)" using assms(1) by (auto simp: balanced_def)
  obtain k where k: "mset given + mset (a # rest) = repeat_mset k (mset (allocation_block c))"
    "mset (a # rest) \<subseteq># mset (allocation_block c)"
  proof (cases "pending = []")
    case True
    then have "mset (a # rest) = mset (allocation_block c)"
      using assms(2) allocate_v1_block [of rs c "a # rest"] by (auto simp: next_allocation_def neq_Nil_conv split: list.splits)
    with that [of "Suc n"] n(1) True show ?thesis by (simp add: add.commute)
  next
    case False
    with assms(2) have "pending = a # rest" by (auto simp: next_allocation_def split: list.splits)
    with that [of n] n show ?thesis by simp
  qed
  show "a \<in> set (allocation_block c)" using mset_subset_eqD [OF k(2), of a] by simp
  have "mset rest \<subseteq># mset (allocation_block c)" using k(2) mset_subset_eq_insertD by fastforce
  with k(1) show "balanced (allocation_block c) (given @ [a]) rest" by (auto simp: balanced_def)
qed

lemma balanced_counts:
  assumes "balanced block given pending" "distinct block" "x \<in> set block" "y \<in> set block"
  shows "count (mset given) x \<le> count (mset given) y + 1"
proof -
  obtain n where n: "mset given + mset pending = repeat_mset n (mset block)" "mset pending \<subseteq># mset block"
    using assms(1) by (auto simp: balanced_def)
  have one: "count (mset block) z = 1" if "z \<in> set block" for z
    using that assms(2) by (simp add: distinct_count_atmost_1)
  have "count (mset given) z + count (mset pending) z = n \<and> count (mset pending) z \<le> 1" if z: "z \<in> set block" for z
    using arg_cong [OF n(1), of "\<lambda>m. count m z"] mset_subset_eq_count [OF n(2), of z] one [OF z] by simp
  from this [OF assms(3)] this [OF assms(4)] show ?thesis by simp
qed

lemma balanced_members: "balanced block given pending \<Longrightarrow> set given \<subseteq> set block"
proof -
  assume "balanced block given pending"
  then obtain n where "mset given + mset pending = repeat_mset n (mset block)" by (auto simp: balanced_def)
  then have "set_mset (mset given) \<subseteq> set_mset (repeat_mset n (mset block))" by (metis set_mset_union Un_upper1)
  also have "\<dots> \<subseteq> set block" by (induction n) auto
  finally show "set given \<subseteq> set block" by simp
qed

section \<open>Scoring\<close>

text \<open>The \<open>correct\<close> closure of \<open>resolvePolicy\<close>: membership in the accepted answers of the arm.\<close>

fun accepted :: "string list \<Rightarrow> string \<Rightarrow> bool" where
  "accepted [] content = False"
| "accepted (a # as) content = (if a = content then True else accepted as content)"

definition correct_v1 :: "task \<Rightarrow> string \<Rightarrow> string \<Rightarrow> bool" where
  "correct_v1 t v content =
     accepted (case map_of (t_answers t) v of None \<Rightarrow> [] | Some as \<Rightarrow> as) content"

lemma accepted_iff [simp]: "accepted as content \<longleftrightarrow> content \<in> set as"
  by (induction as) auto

end
