(* ===== verification/EventMetrics.thy ===== *)
theory EventMetrics
  imports Navigation Policy
begin

text \<open>
  \<open>eventMetricsV1\<close> of \<open>events.go\<close> and the policy engine of \<open>resolvePolicy\<close> that holds it: the
  navigation time, its quality, the directness and the backtracks of an attempt are read off the
  event log. The theorems say when a time is reported, that it is then the time between the first
  and the last event, that no sum overflows, and what directness means for the walk in the tree.
\<close>

record attempt_metrics =
  m_navigation :: "int option"
  m_observed :: int
  m_quality :: string
  m_epochs :: nat
  m_direct :: bool
  m_backtracks :: nat

record metrics_state =
  ms_m :: attempt_metrics
  ms_visible :: bool
  ms_browsing :: bool
  ms_interrupted :: bool
  ms_page :: string
  ms_elapsed :: int

definition metrics_start :: metrics_state where
  "metrics_start = \<lparr>ms_m = \<lparr>m_navigation = None, m_observed = 0, m_quality = ''not_started'',
     m_epochs = 0, m_direct = True, m_backtracks = 0\<rparr>, ms_visible = False, ms_browsing = False,
     ms_interrupted = False, ms_page = [], ms_elapsed = 0\<rparr>"

definition shown_after :: "event \<Rightarrow> bool \<Rightarrow> bool" where
  "shown_after e visible =
     (if e_type e = ''visibility_visible'' then True
      else if e_type e = ''visibility_hidden'' then False
      else case e_visible e of None \<Rightarrow> visible | Some b \<Rightarrow> b)"

text \<open>The clock of one event: visibility, page changes, observed time and interruptions.\<close>

definition metrics_clock :: "event \<Rightarrow> metrics_state \<Rightarrow> metrics_state" where
  "metrics_clock e st =
     (let pg = trim_space (epoch_text (e_epoch e));
          visible = ms_visible st;
          shown = shown_after e visible;
          changed = (pg \<noteq> ms_page st);
          next_visible = (if changed then e_visible e = Some True else shown);
          known_end = (next_visible \<or> e_type e = ''visibility_hidden'');
          observed = (if \<not> changed \<and> visible \<and> known_end \<and> e_type e \<noteq> ''resume''
                      then e_elapsed e - ms_elapsed st else 0);
          broken = (if changed then ms_page st \<noteq> []
                    else next_visible \<noteq> visible \<and> e_type e \<noteq> ''visibility_hidden''
                      \<and> e_type e \<noteq> ''visibility_visible'')
      in st\<lparr>ms_m := (ms_m st)\<lparr>m_epochs := m_epochs (ms_m st) + (if changed then 1 else 0),
                               m_observed := m_observed (ms_m st) + observed\<rparr>,
           ms_interrupted := ms_interrupted st \<or> broken \<or> \<not> next_visible,
           ms_page := pg, ms_elapsed := e_elapsed e, ms_visible := next_visible\<rparr>)"

text \<open>The switch on the type of the event.\<close>

definition metrics_type :: "string list \<Rightarrow> string \<Rightarrow> event \<Rightarrow> metrics_state \<Rightarrow> metrics_state" where
  "metrics_type anc selected e st =
     (if e_type e = ''tree_shown'' then st\<lparr>ms_browsing := True\<rparr>
      else if e_type e = ''resume'' \<or> e_type e = ''visibility_hidden'' then st\<lparr>ms_interrupted := True\<rparr>
      else if e_type e = ''back'' \<or> e_type e = ''root'' then
        st\<lparr>ms_m := (ms_m st)\<lparr>m_backtracks := m_backtracks (ms_m st) + 1, m_direct := False\<rparr>\<rparr>
      else if e_type e = ''enter'' then
        (if e_node e \<notin> set anc then st\<lparr>ms_m := (ms_m st)\<lparr>m_direct := False\<rparr>\<rparr> else st)
      else if e_type e = ''select'' then
        (if e_node e \<noteq> selected then st\<lparr>ms_m := (ms_m st)\<lparr>m_direct := False\<rparr>\<rparr> else st)
      else st)"

definition metrics_event :: "string list \<Rightarrow> string \<Rightarrow> metrics_state \<Rightarrow> event \<Rightarrow> metrics_state" where
  "metrics_event anc selected st e = metrics_type anc selected e (metrics_clock e st)"

definition event_metrics_v1 ::
    "event list \<Rightarrow> node_index \<Rightarrow> string \<Rightarrow> string \<Rightarrow> bool \<Rightarrow> attempt_metrics result" where
  "event_metrics_v1 events idx selected outcome finalized =
     (case ancestors_of idx selected of
        None \<Rightarrow> Inl (Fault ''the ancestors of a node form a cycle'')
      | Some anc \<Rightarrow>
         (let st = foldl (metrics_event anc selected) metrics_start events;
              m = ms_m st in
          if \<not> ms_browsing st then Inr m
          else if finalized \<and> \<not> ms_interrupted st \<and> length events > 1 \<and> e_type (last events) = ''submit''
          then Inr (m\<lparr>m_quality := ''complete'',
                     m_navigation := if outcome = ''selected'' \<or> outcome = ''gave_up''
                       then Some (m_observed m) else None\<rparr>)
          else Inr (m\<lparr>m_quality := ''interrupted''\<rparr>)))"

section \<open>The policy engine\<close>

record policy_engine =
  pe_allocate :: "nat list \<Rightarrow> config \<Rightarrow> allocation list result"
  pe_order :: "nat list \<Rightarrow> string list \<Rightarrow> string list option"
  pe_correct :: "task \<Rightarrow> string \<Rightarrow> string \<Rightarrow> bool"
  pe_metrics :: "event list \<Rightarrow> node_index \<Rightarrow> string \<Rightarrow> string \<Rightarrow> bool \<Rightarrow> attempt_metrics result"

definition resolve_policy :: "policy \<Rightarrow> policy_engine result" where
  "resolve_policy p = (case check_policy p of
      Inl e \<Rightarrow> Inl e
    | Inr _ \<Rightarrow> Inr \<lparr>pe_allocate = allocate_v1, pe_order = shuffle, pe_correct = correct_v1,
                    pe_metrics = event_metrics_v1\<rparr>)"

section \<open>Lemmas on the fold\<close>

lemma metrics_clock_simps [simp]:
  "ms_browsing (metrics_clock e st) = ms_browsing st"
  "m_direct (ms_m (metrics_clock e st)) = m_direct (ms_m st)"
  "m_backtracks (ms_m (metrics_clock e st)) = m_backtracks (ms_m st)"
  "m_navigation (ms_m (metrics_clock e st)) = m_navigation (ms_m st)"
  "m_quality (ms_m (metrics_clock e st)) = m_quality (ms_m st)"
  "ms_page (metrics_clock e st) = page e"
  "ms_elapsed (metrics_clock e st) = e_elapsed e"
  by (simp_all add: metrics_clock_def Let_def page_def)

lemma metrics_type_simps [simp]:
  "ms_visible (metrics_type anc s e st) = ms_visible st"
  "ms_page (metrics_type anc s e st) = ms_page st"
  "ms_elapsed (metrics_type anc s e st) = ms_elapsed st"
  "m_observed (ms_m (metrics_type anc s e st)) = m_observed (ms_m st)"
  "m_epochs (ms_m (metrics_type anc s e st)) = m_epochs (ms_m st)"
  "m_navigation (ms_m (metrics_type anc s e st)) = m_navigation (ms_m st)"
  "m_quality (ms_m (metrics_type anc s e st)) = m_quality (ms_m st)"
  "ms_interrupted (metrics_type anc s e st) \<longleftrightarrow>
     ms_interrupted st \<or> e_type e \<in> {''resume'', ''visibility_hidden''}"
  "ms_browsing (metrics_type anc s e st) \<longleftrightarrow> ms_browsing st \<or> e_type e = ''tree_shown''"
  by (auto simp: metrics_type_def)

lemma metrics_interrupted_mono:
  "ms_interrupted st \<Longrightarrow> ms_interrupted (foldl (metrics_event anc s) st es)"
  by (induction es arbitrary: st) (auto simp: metrics_event_def metrics_clock_def Let_def)

definition strays :: "string list \<Rightarrow> string \<Rightarrow> event \<Rightarrow> bool" where
  "strays anc selected e \<longleftrightarrow> e_type e \<in> {''back'', ''root''}
     \<or> (e_type e = ''enter'' \<and> e_node e \<notin> set anc) \<or> (e_type e = ''select'' \<and> e_node e \<noteq> selected)"

lemma metrics_fold_direct:
  "m_direct (ms_m (foldl (metrics_event anc s) st es)) \<longleftrightarrow>
     m_direct (ms_m st) \<and> (\<forall>e \<in> set es. \<not> strays anc s e)"
proof (induction es arbitrary: st)
  case (Cons e es)
  have "m_direct (ms_m (metrics_event anc s st e)) \<longleftrightarrow> m_direct (ms_m st) \<and> \<not> strays anc s e"
    by (auto simp: metrics_event_def metrics_type_def strays_def)
  with Cons show ?case by auto
qed simp

lemma metrics_fold_backtracks:
  "m_backtracks (ms_m (foldl (metrics_event anc s) st es)) =
     m_backtracks (ms_m st) + length (filter (\<lambda>e. e_type e \<in> {''back'', ''root''}) es)"
proof (induction es arbitrary: st)
  case (Cons e es)
  have "m_backtracks (ms_m (metrics_event anc s st e)) =
      m_backtracks (ms_m st) + (if e_type e \<in> {''back'', ''root''} then 1 else 0)"
    by (auto simp: metrics_event_def metrics_type_def)
  with Cons show ?case by auto
qed simp

text \<open>An uninterrupted stretch from an event \<open>e\<close> on: one page, always visible, all time observed.\<close>

lemma metrics_fold_complete:
  assumes "\<not> ms_interrupted (foldl (metrics_event anc s) st es)" "ms_visible st"
    "ms_page st = page e" "page e \<noteq> []"
  shows "m_observed (ms_m (foldl (metrics_event anc s) st es)) =
      m_observed (ms_m st) + (if es = [] then 0 else e_elapsed (last es) - ms_elapsed st)
    \<and> m_epochs (ms_m (foldl (metrics_event anc s) st es)) = m_epochs (ms_m st)
    \<and> (\<forall>f \<in> set es. page f = page e \<and> e_type f \<notin> {''resume'', ''visibility_hidden''}
         \<and> shown_after f True)"
  using assms
proof (induction es arbitrary: st)
  case (Cons f es)
  define st1 where "st1 = metrics_event anc s st f"
  have "\<not> ms_interrupted st1"
    using Cons.prems(1) metrics_interrupted_mono [of st1 anc s es] by (auto simp: st1_def)
  then have f: "page f = page e" "ms_visible st1" "e_type f \<notin> {''resume'', ''visibility_hidden''}"
    "shown_after f True"
    using Cons.prems(2,3,4)
    by (auto simp: st1_def metrics_event_def metrics_clock_def Let_def page_def split: if_splits)
  have st1: "m_observed (ms_m st1) = m_observed (ms_m st) + (e_elapsed f - ms_elapsed st)"
    "m_epochs (ms_m st1) = m_epochs (ms_m st)" "ms_page st1 = page e" "ms_elapsed st1 = e_elapsed f"
    using f Cons.prems(2,3)
    by (auto simp: st1_def metrics_event_def metrics_clock_def Let_def page_def)
  from Cons.IH [of st1] Cons.prems f st1 show ?case by (auto simp: st1_def)
qed simp

section \<open>What the metrics mean\<close>

lemma event_metrics_v1_Inr:
  "event_metrics_v1 es idx sel outcome fin = Inr m \<longleftrightarrow> (\<exists>anc st. ancestors_of idx sel = Some anc
     \<and> st = foldl (metrics_event anc sel) metrics_start es
     \<and> m = (if \<not> ms_browsing st then ms_m st
            else if fin \<and> \<not> ms_interrupted st \<and> length es > 1 \<and> e_type (last es) = ''submit''
            then (ms_m st)\<lparr>m_quality := ''complete'', m_navigation :=
              if outcome = ''selected'' \<or> outcome = ''gave_up'' then Some (m_observed (ms_m st)) else None\<rparr>
            else (ms_m st)\<lparr>m_quality := ''interrupted''\<rparr>))"
  by (auto simp: event_metrics_v1_def Let_def split: option.splits)

lemma event_metrics_v1_fields:
  assumes "event_metrics_v1 es idx sel outcome fin = Inr m"
  obtains anc st where "ancestors_of idx sel = Some anc"
    "st = foldl (metrics_event anc sel) metrics_start es" "m_observed m = m_observed (ms_m st)"
    "m_epochs m = m_epochs (ms_m st)" "m_direct m = m_direct (ms_m st)"
    "m_backtracks m = m_backtracks (ms_m st)"
proof -
  from assms obtain anc where anc: "ancestors_of idx sel = Some anc"
    by (auto simp: event_metrics_v1_Inr)
  have "m_observed m = m_observed (ms_m (foldl (metrics_event anc sel) metrics_start es))"
    "m_epochs m = m_epochs (ms_m (foldl (metrics_event anc sel) metrics_start es))"
    "m_direct m = m_direct (ms_m (foldl (metrics_event anc sel) metrics_start es))"
    "m_backtracks m = m_backtracks (ms_m (foldl (metrics_event anc sel) metrics_start es))"
    using assms anc by (auto simp: event_metrics_v1_Inr split: if_splits)
  with anc that show thesis by blast
qed

lemma metrics_fold_const:
  "m_navigation (ms_m (foldl (metrics_event anc s) st es)) = m_navigation (ms_m st)
    \<and> m_quality (ms_m (foldl (metrics_event anc s) st es)) = m_quality (ms_m st)"
  by (induction es arbitrary: st) (simp_all add: metrics_event_def)

lemma metrics_start_simps [simp]:
  "ms_page metrics_start = []" "ms_visible metrics_start = False"
  "ms_interrupted metrics_start = False" "m_quality (ms_m metrics_start) = ''not_started''"
  "m_navigation (ms_m metrics_start) = None" "m_direct (ms_m metrics_start)"
  "m_backtracks (ms_m metrics_start) = 0" "m_observed (ms_m metrics_start) = 0"
  "m_epochs (ms_m metrics_start) = 0" "ms_elapsed metrics_start = 0"
  by (simp_all add: metrics_start_def)

lemma metrics_first_event:
  assumes "page e \<noteq> []"
  shows "m_observed (ms_m (metrics_event anc s metrics_start e)) = 0"
    "m_epochs (ms_m (metrics_event anc s metrics_start e)) = 1"
    "ms_page (metrics_event anc s metrics_start e) = page e"
    "ms_elapsed (metrics_event anc s metrics_start e) = e_elapsed e"
    "ms_visible (metrics_event anc s metrics_start e) \<longleftrightarrow> e_visible e = Some True"
    "ms_interrupted (metrics_event anc s metrics_start e) \<longleftrightarrow>
       e_visible e \<noteq> Some True \<or> e_type e \<in> {''resume'', ''visibility_hidden''}"
  using assms by (auto simp: metrics_event_def metrics_clock_def Let_def page_def)

text \<open>C34: a navigation time is reported only for a complete, finalised attempt that was selected or
  given up; then the whole log is one page that stayed visible, and the time is exactly the elapsed
  time from its first event to its final submit.\<close>

theorem navigation_time_complete:
  assumes "log_ok idx es" "event_metrics_v1 es idx selected outcome finalized = Inr m"
    "m_navigation m = Some t"
  shows "m_quality m = ''complete'' \<and> finalized \<and> outcome \<in> {''selected'', ''gave_up''}
    \<and> length es > 1 \<and> e_type (last es) = ''submit'' \<and> m_epochs m = 1
    \<and> (\<forall>e \<in> set es. page e = page (hd es) \<and> shown_after e True
         \<and> e_type e \<notin> {''resume'', ''visibility_hidden''})
    \<and> e_visible (hd es) = Some True
    \<and> t = m_observed m \<and> t = e_elapsed (last es) - e_elapsed (hd es)"
proof -
  obtain anc st where st: "st = foldl (metrics_event anc selected) metrics_start es"
    and m: "m = (if \<not> ms_browsing st then ms_m st
            else if finalized \<and> \<not> ms_interrupted st \<and> length es > 1 \<and> e_type (last es) = ''submit''
            then (ms_m st)\<lparr>m_quality := ''complete'', m_navigation :=
              if outcome = ''selected'' \<or> outcome = ''gave_up'' then Some (m_observed (ms_m st)) else None\<rparr>
            else (ms_m st)\<lparr>m_quality := ''interrupted''\<rparr>)"
    using assms(2) by (auto simp: event_metrics_v1_Inr)
  have "m_navigation (ms_m st) = None" using metrics_fold_const st by simp
  with m assms(3) have c: "finalized" "\<not> ms_interrupted st" "length es > 1" "e_type (last es) = ''submit''"
    "outcome \<in> {''selected'', ''gave_up''}" "m_quality m = ''complete''"
    "t = m_observed (ms_m st)" "m_observed m = m_observed (ms_m st)" "m_epochs m = m_epochs (ms_m st)"
    by (auto split: if_splits)
  obtain e fs where es: "es = e # fs" "fs \<noteq> []" using c(3) by (cases es) auto
  have pg: "page e \<noteq> []" using assms(1) es by (intro event_ok_page [of idx]) (simp add: log_ok_def)
  define st1 where "st1 = metrics_event anc selected metrics_start e"
  have st1: "st = foldl (metrics_event anc selected) st1 fs" using st es st1_def by simp
  note first = metrics_first_event [OF pg, of anc selected, folded st1_def]
  have "\<not> ms_interrupted st1" using metrics_interrupted_mono [of st1] c(2) st1 by blast
  then have e: "e_visible e = Some True" "e_type e \<notin> {''resume'', ''visibility_hidden''}"
    using first(6) by auto
  have "ms_visible st1" using first(5) e(1) by simp
  from metrics_fold_complete [of anc selected st1 fs, OF _ this first(3) pg] c(2) st1 first es e
  show ?thesis using c by (auto simp: shown_after_def)
qed

lemma metrics_fold_observed:
  assumes "clock_ok (e # es)" "\<forall>f \<in> set (e # es). 0 \<le> e_elapsed f \<and> e_elapsed f \<le> max_elapsed"
    "ms_page st = page e" "ms_elapsed st = e_elapsed e"
  shows "m_observed (ms_m st) \<le> m_observed (ms_m (foldl (metrics_event anc s) st es))
    \<and> m_observed (ms_m (foldl (metrics_event anc s) st es))
        \<le> m_observed (ms_m st) + int (length es) * max_elapsed"
  using assms
proof (induction es arbitrary: e st)
  case (Cons f es)
  define st1 where "st1 = metrics_event anc s st f"
  have "clock_ok (f # es)" "page e = page f \<Longrightarrow> e_elapsed e \<le> e_elapsed f"
    using Cons.prems(1) by (auto split: if_splits)
  moreover from this have "m_observed (ms_m st) \<le> m_observed (ms_m st1)"
    "m_observed (ms_m st1) \<le> m_observed (ms_m st) + max_elapsed"
    using Cons.prems(2,3,4)
    by (auto simp: st1_def metrics_event_def metrics_clock_def Let_def page_def max_elapsed_def)
  moreover have "ms_page st1 = page f" "ms_elapsed st1 = e_elapsed f"
    by (simp_all add: st1_def metrics_event_def)
  ultimately show ?case using Cons.IH [of f st1] Cons.prems(2)
    by (simp add: st1_def [symmetric] algebra_simps)
qed simp

text \<open>The observed time of an accepted log is never negative and never leaves 64 bits, however
  many pages and interruptions the log has.\<close>

theorem observed_time_bounds:
  assumes "log_ok idx es" "replay idx es = Inr rp"
    "event_metrics_v1 es idx selected outcome finalized = Inr m"
  shows "0 \<le> m_observed m \<and> m_observed m \<le> int (length es) * max_elapsed
    \<and> m_observed m < 2 ^ 63"
proof -
  obtain anc where o: "m_observed m =
      m_observed (ms_m (foldl (metrics_event anc selected) metrics_start es))"
    using event_metrics_v1_fields [OF assms(3)] by metis
  have "0 \<le> m_observed m \<and> m_observed m \<le> int (length es) * max_elapsed"
  proof (cases es)
    case Nil
    with o show ?thesis by simp
  next
    case (Cons e fs)
    have ev: "\<forall>f \<in> set es. event_ok idx f" using assms(1) by (simp add: log_ok_def)
    then have "page e \<noteq> []" using Cons by (intro event_ok_page [of idx]) simp
    note first = metrics_first_event [OF this, of anc selected]
    have "clock_ok (e # fs)" using replay_pages_contiguous [OF assms(1,2)] Cons by simp
    from metrics_fold_observed [OF this _ first(3,4), of anc selected] ev first(1) Cons o
    show ?thesis by (auto simp: event_ok_def max_elapsed_def)
  qed
  moreover have "length es \<le> 5000" using assms(1) by (simp add: log_ok_def max_events_per_attempt_def)
  ultimately show ?thesis by (simp add: max_elapsed_def)
qed

section \<open>Directness\<close>

lemma nav_run_direct:
  assumes "nav_run idx p es q" "\<forall>e \<in> set es. e_type e \<notin> {''back'', ''root''}"
  shows "q = rev (map e_node (filter (\<lambda>e. e_type e = ''enter'') es)) @ p"
  using assms by induction (auto elim!: nav_stepE)

text \<open>C35: an attempt counts as direct exactly when it never went back or to the root, entered only
  the selected node or its ancestors, and selected nothing else; the nodes entered by a direct
  attempt are then, in order, the path from the top to the node that is current at the end of the log.\<close>

theorem direct_attempt_walk:
  assumes "log_ok idx es" "replay idx es = Inr rp"
    "event_metrics_v1 es idx selected outcome finalized = Inr m"
  shows "\<exists>anc. ancestors_of idx selected = Some anc
    \<and> (m_direct m \<longleftrightarrow> (\<forall>e \<in> set es. \<not> strays anc selected e))
    \<and> m_backtracks m = length (filter (\<lambda>e. e_type e \<in> {''back'', ''root''}) es)
    \<and> (m_direct m \<longrightarrow> ancestors_of idx (rp_current rp)
         = Some (rev (map e_node (filter (\<lambda>e. e_type e = ''enter'') es))))"
proof -
  obtain anc where anc: "ancestors_of idx selected = Some anc"
    and m: "m_direct m = m_direct (ms_m (foldl (metrics_event anc selected) metrics_start es))"
      "m_backtracks m = m_backtracks (ms_m (foldl (metrics_event anc selected) metrics_start es))"
    using event_metrics_v1_fields [OF assms(3)] by metis
  have d: "m_direct m \<longleftrightarrow> (\<forall>e \<in> set es. \<not> strays anc selected e)"
    using m(1) by (simp add: metrics_fold_direct)
  obtain q where q: "nav_run idx [] es q" "ancestors_of idx (rp_current rp) = Some q"
    using replay_from_nav [of idx 0 es replay_start rp "[]"] assms(1,2)
    by (auto simp: replay_def replay_start_def log_ok_def)
  have "q = rev (map e_node (filter (\<lambda>e. e_type e = ''enter'') es))" if "m_direct m"
    using nav_run_direct [OF q(1)] that d by (auto simp: strays_def)
  with anc d m(2) q(2) show ?thesis by (auto simp: metrics_fold_backtracks)
qed

end
