(* ===== verification/RateLimit.thy ===== *)
theory RateLimit
  imports Clock GoText
begin

text \<open>
  The fixed-window rate limiter (\<open>limits.go\<close>). The map \<open>windows\<close> is an association list with
  unique keys; \<open>allow\<close> takes the instant \<open>time.Now()\<close> returned and gives the new map, the wait
  and whether the request may pass. The quotas of the participant operations and the two callers
  of \<open>allow\<close> on the participant routes follow.
\<close>

record rate_window =
  w_expires :: time
  w_count :: nat

type_synonym windows = "(string \<times> rate_window) list"

definition max_rate_windows :: nat where
  "max_rate_windows = 10000"

definition put :: "'k \<Rightarrow> 'v \<Rightarrow> ('k \<times> 'v) list \<Rightarrow> ('k \<times> 'v) list" where
  "put k v m = (k, v) # filter (\<lambda>e. fst e \<noteq> k) m"

definition allow :: "time \<Rightarrow> string \<Rightarrow> nat \<Rightarrow> nat \<Rightarrow> windows \<Rightarrow> windows \<times> nat \<times> bool" where
  "allow now key limit window l =
     (let crowded = map_of l key = None \<and> length l \<ge> max_rate_windows;
          l1 = (if crowded then filter (\<lambda>e. now < w_expires (snd e)) l else l)
      in if crowded \<and> length l1 \<ge> max_rate_windows then (l1, second, False)
         else
           let v0 = (case map_of l key of None \<Rightarrow> \<lparr>w_expires = 0, w_count = 0\<rparr> | Some v \<Rightarrow> v);
               v = (if now < w_expires v0 then v0 else \<lparr>w_expires = now + window, w_count = 0\<rparr>)
           in if w_count v \<ge> limit then (l1, w_expires v - now, False)
              else (put key (v\<lparr>w_count := Suc (w_count v)\<rparr>) l1, 0, True))"

lemma map_of_put: "map_of (put k v m) j = (if j = k then Some v else map_of m j)"
  by (induction m) (auto simp: put_def)

lemma length_put:
  "length (put k v m) \<le> (if k \<in> fst ` set m then length m else Suc (length m))"
proof -
  have "length (filter (\<lambda>e. fst e \<noteq> k) m) \<le> length m" by simp
  moreover have "length (filter (\<lambda>e. fst e \<noteq> k) m) < length m" if "k \<in> fst ` set m"
    using that by (auto intro!: length_filter_less)
  ultimately show ?thesis by (cases "k \<in> fst ` set m") (simp_all add: put_def Suc_le_eq le_imp_less_Suc)
qed

lemma distinct_put: "distinct (map fst m) \<Longrightarrow> distinct (map fst (put k v m))"
  by (auto simp: put_def distinct_map_filter)

lemma map_of_filter_unique:
  "distinct (map fst m) \<Longrightarrow>
   map_of (filter P m) k = (case map_of m k of Some v \<Rightarrow> if P (k, v) then Some v else None | None \<Rightarrow> None)"
  by (induction m) (auto simp: map_of_eq_None_iff split: option.splits dest: map_of_SomeD)

definition limiter_ok :: "windows \<Rightarrow> bool" where
  "limiter_ok l \<longleftrightarrow> distinct (map fst l) \<and> length l \<le> max_rate_windows"

text \<open>The window of a key that still counts at \<open>now\<close>.\<close>

definition live :: "time \<Rightarrow> windows \<Rightarrow> string \<Rightarrow> rate_window option" where
  "live now l key =
     (case map_of l key of Some v \<Rightarrow> if now < w_expires v then Some v else None | None \<Rightarrow> None)"

lemma allow_limiter_ok:
  assumes "limiter_ok l" "allow now key limit window l = (l', wait, pass)"
  shows "limiter_ok l'"
proof -
  define l1 where "l1 = (if map_of l key = None \<and> length l \<ge> max_rate_windows
    then filter (\<lambda>e. now < w_expires (snd e)) l else l)"
  have l1: "distinct (map fst l1)" "length l1 \<le> max_rate_windows"
    using assms(1) by (auto simp: l1_def limiter_ok_def distinct_map_filter intro: le_trans length_filter_le)
  have "l' = l1 \<or> (\<exists>v. l' = put key v l1 \<and> \<not> (map_of l key = None \<and> length l1 \<ge> max_rate_windows))"
    using assms(2) unfolding allow_def l1_def [symmetric] Let_def
    by (auto simp: l1_def split: if_splits)
  then show ?thesis
  proof
    assume "l' = l1"
    with l1 show ?thesis by (simp add: limiter_ok_def)
  next
    assume "\<exists>v. l' = put key v l1 \<and> \<not> (map_of l key = None \<and> length l1 \<ge> max_rate_windows)"
    then obtain v where v: "l' = put key v l1" "map_of l key \<noteq> None \<or> length l1 < max_rate_windows"
      by auto
    have "length l' \<le> max_rate_windows"
    proof (cases "map_of l key = None")
      case True
      then show ?thesis using v length_put [of key v l1] by (auto split: if_splits)
    next
      case False
      then have "l1 = l" "key \<in> fst ` set l1" by (auto simp: l1_def map_of_eq_None_iff)
      then show ?thesis using v l1 length_put [of key v l1] by simp
    qed
    then show ?thesis using v l1 by (simp add: limiter_ok_def distinct_put)
  qed
qed

text \<open>What one call does to the live window of a key \<open>k\<close> at the instant of the call.\<close>

lemma allow_live:
  assumes ok: "limiter_ok l" and a: "allow now key limit window l = (l', wait, pass)" and w: "0 < window"
  shows "key \<noteq> k \<Longrightarrow> live now l' k = live now l k"
    and "\<not> pass \<Longrightarrow> live now l' k = live now l k"
    and "pass \<Longrightarrow> live now l' key =
      (case live now l key of
         Some v \<Rightarrow> Some (v\<lparr>w_count := Suc (w_count v)\<rparr>)
       | None \<Rightarrow> Some \<lparr>w_expires = now + window, w_count = 1\<rparr>)"
    and "pass \<Longrightarrow> (case live now l key of Some v \<Rightarrow> w_count v | None \<Rightarrow> 0) < limit"
proof -
  define l1 where "l1 = (if map_of l key = None \<and> length l \<ge> max_rate_windows
    then filter (\<lambda>e. now < w_expires (snd e)) l else l)"
  define v where "v = (case live now l key of Some v \<Rightarrow> v | None \<Rightarrow> \<lparr>w_expires = now + window, w_count = 0\<rparr>)"
  have dist: "distinct (map fst l)" using ok by (simp add: limiter_ok_def)
  have l1: "live now l1 j = live now l j" for j
    unfolding l1_def live_def by (auto simp: map_of_filter_unique [OF dist] split: option.splits)
  have v': "(let v0 = (case map_of l key of None \<Rightarrow> \<lparr>w_expires = 0, w_count = 0\<rparr> | Some v \<Rightarrow> v)
      in if now < w_expires v0 then v0 else \<lparr>w_expires = now + window, w_count = 0\<rparr>) = v"
    by (auto simp: v_def live_def Let_def split: option.splits)
  have r: "(l' = l1 \<and> \<not> pass) \<or> (l' = put key (v\<lparr>w_count := Suc (w_count v)\<rparr>) l1 \<and> pass \<and> w_count v < limit)"
    using a v' unfolding allow_def l1_def [symmetric] Let_def by (auto split: if_splits)
  show "key \<noteq> k \<Longrightarrow> live now l' k = live now l k"
    using r l1 by (auto simp: live_def map_of_put)
  show "\<not> pass \<Longrightarrow> live now l' k = live now l k" using r l1 by auto
  have ve: "now < w_expires v" using w by (auto simp: v_def live_def split: option.splits if_splits)
  show "pass \<Longrightarrow> live now l' key =
      (case live now l key of
         Some v \<Rightarrow> Some (v\<lparr>w_count := Suc (w_count v)\<rparr>)
       | None \<Rightarrow> Some \<lparr>w_expires = now + window, w_count = 1\<rparr>)"
  proof -
    assume pass
    then have "live now l' key = Some (v\<lparr>w_count := Suc (w_count v)\<rparr>)"
      using r ve by (auto simp: live_def map_of_put)
    then show ?thesis by (auto simp: v_def split: option.splits)
  qed
  show "pass \<Longrightarrow> (case live now l key of Some v \<Rightarrow> w_count v | None \<Rightarrow> 0) < limit"
    using r by (auto simp: v_def split: option.splits)
qed

section \<open>Sequences of requests\<close>

record request =
  r_now :: time
  r_key :: string
  r_limit :: nat
  r_window :: nat

text \<open>The answers of the limiter to a sequence of requests.\<close>

fun serve :: "windows \<Rightarrow> request list \<Rightarrow> bool list \<times> windows" where
  "serve l [] = ([], l)"
| "serve l (r # rs) =
     (case allow (r_now r) (r_key r) (r_limit r) (r_window r) l of (l', _, pass) \<Rightarrow>
        case serve l' rs of (ps, l'') \<Rightarrow> (pass # ps, l''))"

definition passed :: "string \<Rightarrow> windows \<Rightarrow> request list \<Rightarrow> nat" where
  "passed key l rs = length (filter (\<lambda>(r, pass). r_key r = key \<and> pass) (zip rs (fst (serve l rs))))"

text \<open>How many more requests of the key can pass until the instant \<open>T + W\<close>.\<close>

definition budget :: "nat \<Rightarrow> time \<Rightarrow> rate_window option \<Rightarrow> nat" where
  "budget lim stop v = (case v of
      None \<Rightarrow> lim
    | Some v \<Rightarrow> (lim - w_count v) + (if w_expires v < stop then lim else 0))"

lemma live_later: "now \<le> now' \<Longrightarrow> live now' l k = (case live now l k of
    Some v \<Rightarrow> if now' < w_expires v then Some v else None | None \<Rightarrow> None)"
  by (auto simp: live_def split: option.splits)

lemma passed_Cons:
  "passed key l (r # rs) =
     (case allow (r_now r) (r_key r) (r_limit r) (r_window r) l of (l', _, pass) \<Rightarrow>
        (if r_key r = key \<and> pass then 1 else 0) + passed key l' rs)"
  by (auto simp: passed_def split: prod.splits)

lemma passed_budget:
  assumes "limiter_ok l" "sorted (now # map r_now rs)"
    "\<And>r. r \<in> set rs \<Longrightarrow> 0 < r_window r \<and> r_now r < T + W"
    "\<And>r. r \<in> set rs \<Longrightarrow> r_key r = key \<Longrightarrow> r_limit r = lim \<and> r_window r = W"
    "T \<le> now"
  shows "passed key l rs \<le> budget lim (T + W) (live now l key)"
  using assms
proof (induction rs arbitrary: l now)
  case Nil
  then show ?case by (simp add: passed_def)
next
  case (Cons r rs)
  obtain l' wait pass where a: "allow (r_now r) (r_key r) (r_limit r) (r_window r) l = (l', wait, pass)"
    by (metis prod_cases3)
  have w: "0 < r_window r" and fin: "r_now r < T + W" and le: "now \<le> r_now r" using Cons.prems by auto
  have rest: "passed key l' rs \<le> budget lim (T + W) (live (r_now r) l' key)"
    using Cons.prems allow_limiter_ok [OF Cons.prems(1) a] by (intro Cons.IH) auto
  have step: "budget lim (T + W) (live (r_now r) l key) \<le> budget lim (T + W) (live now l key)"
    by (auto simp: live_later [OF le] budget_def split: option.splits)
      (use fin in simp_all)
  show ?case
  proof (cases "r_key r = key \<and> pass")
    case False
    then have "live (r_now r) l' key = live (r_now r) l key"
      using allow_live(1,2) [OF Cons.prems(1) a w] by blast
    with rest step False show ?thesis by (auto simp: passed_Cons a)
  next
    case True
    then have k: "r_key r = key" "r_limit r = lim" "r_window r = W" using Cons.prems by auto
    note live = allow_live(3,4) [OF Cons.prems(1) a w, unfolded k]
    have "Suc (budget lim (T + W) (live (r_now r) l' key)) \<le> budget lim (T + W) (live (r_now r) l key)"
      using live True Cons.prems(5) le by (auto simp: budget_def split: option.splits)
    with rest step True show ?thesis by (simp add: passed_Cons a [unfolded k(1)])
  qed
qed

text \<open>C31: whatever other keys do and whenever the map is cleaned up, within any span of one window
  length at most twice the quota of a key passes, and at most the quota when the key starts
  without a live window.\<close>

theorem rate_limit_quota:
  assumes "limiter_ok l" and "sorted (T # map r_now rs)"
    and "\<And>r. r \<in> set rs \<Longrightarrow> 0 < r_window r \<and> r_now r < T + W"
    and "\<And>r. r \<in> set rs \<Longrightarrow> r_key r = key \<Longrightarrow> r_limit r = lim \<and> r_window r = W"
  shows "passed key l rs \<le> (if live T l key = None then lim else 2 * lim)"
proof -
  have "passed key l rs \<le> budget lim (T + W) (live T l key)"
    using passed_budget [OF assms] by simp
  then show ?thesis
    by (auto simp: budget_def split: option.splits if_splits)
qed

section \<open>The quotas of the participant routes\<close>

text \<open>\<open>retryAfter\<close>: the wait in whole seconds, rounded up and at least one.\<close>

definition retry_after :: "nat \<Rightarrow> api_error" where
  "retry_after wait = RetryAfter (max 1 ((wait + (second - 1)) div second))"

definition public_operation :: "string \<Rightarrow> string" where
  "public_operation path =
     (if has_suffix ''/join'' path then ''join''
      else if has_suffix ''/start'' path then ''start''
      else if has_suffix ''/events'' path then ''events''
      else if has_suffix ''/finish'' path then ''finish''
      else [])"

definition source_limits :: "(string \<times> nat) list" where
  "source_limits = [(''join'', 60), (''start'', 120), (''events'', 300), (''finish'', 120)]"

text \<open>\<open>limitPublicSource\<close>, given the source network of the request.\<close>

definition limit_public_source ::
    "time \<Rightarrow> string \<Rightarrow> string \<Rightarrow> windows \<Rightarrow> windows \<times> api_error option" where
  "limit_public_source now path source l =
     (let op = public_operation path
      in if op = [] then (l, None)
         else case allow now (''public:source:'' @ op @ '':'' @ source)
               (case map_of source_limits op of None \<Rightarrow> 0 | Some n \<Rightarrow> n) minute l of
             (l', wait, pass) \<Rightarrow> (l', if pass then None else Some (retry_after wait)))"

text \<open>Run limit, participant limit, run window and participant window of an operation.\<close>

definition quotas :: "(string \<times> nat \<times> nat \<times> nat \<times> nat) list" where
  "quotas = [(''join'', 240, 60, hour, hour), (''start'', 500, 30, minute, hour),
     (''events'', 2000, 200, minute, minute), (''finish'', 500, 30, minute, hour)]"

definition run_key :: "string \<Rightarrow> string \<Rightarrow> string" where
  "run_key operation run = ''public:run:'' @ operation @ '':'' @ run"

definition participant_key :: "string \<Rightarrow> string \<Rightarrow> string" where
  "participant_key operation identity = ''public:participant:'' @ operation @ '':'' @ identity"

definition limit_participant ::
    "time \<Rightarrow> string \<Rightarrow> string \<Rightarrow> string \<Rightarrow> bool \<Rightarrow> windows \<Rightarrow> windows \<times> api_error option" where
  "limit_participant now run identity operation replay l =
     (case map_of quotas operation of
        None \<Rightarrow> (l, None)
      | Some (run_limit, participant_limit, run_window, participant_window) \<Rightarrow>
          (case allow now (run_key operation run) run_limit run_window l of
             (l1, wait, False) \<Rightarrow> (l1, Some (retry_after wait))
           | (l1, _, True) \<Rightarrow>
               if replay then (l1, None)
               else case allow now (participant_key operation identity) participant_limit participant_window l1 of
                   (l2, wait, pass) \<Rightarrow> (l2, if pass then None else Some (retry_after wait))))"

lemma limit_participant_ok:
  assumes "limiter_ok l" "limit_participant now run identity operation replay l = (l', e)"
  shows "limiter_ok l'"
proof (cases "map_of quotas operation")
  case None
  with assms show ?thesis by (simp add: limit_participant_def)
next
  case (Some q)
  obtain rl pl rw pw where q: "q = (rl, pl, rw, pw)" by (metis prod_cases4)
  obtain l1 w1 p1 where a: "allow now (run_key operation run) rl rw l = (l1, w1, p1)"
    by (metis prod_cases3)
  obtain l2 w2 p2 where b: "allow now (participant_key operation identity) pl pw l1 = (l2, w2, p2)"
    by (metis prod_cases3)
  have l1: "limiter_ok l1" by (rule allow_limiter_ok [OF assms(1) a])
  moreover have "limiter_ok l2" by (rule allow_limiter_ok [OF l1 b])
  moreover have "l' = l1 \<or> l' = l2"
    using assms(2) by (cases p1) (auto simp: limit_participant_def Some q a b split: if_splits)
  ultimately show ?thesis by auto
qed

lemma limit_public_source_ok:
  assumes "limiter_ok l" "limit_public_source now path source l = (l', e)"
  shows "limiter_ok l'"
  using assms allow_limiter_ok
  by (auto simp: limit_public_source_def Let_def split: option.splits prod.splits if_splits)

lemma run_key_participant_key [simp]: "run_key op r \<noteq> participant_key op' i"
  by (simp add: run_key_def participant_key_def)

text \<open>A participant without live windows passes, and leaves one window for the run and one of its own.\<close>

lemma allow_unseen: "map_of l key = None \<Longrightarrow> length l < max_rate_windows \<Longrightarrow> 0 < limit \<Longrightarrow> 0 < now \<Longrightarrow>
    allow now key limit window l = (put key \<lparr>w_expires = now + window, w_count = 1\<rparr> l, 0, True)"
  by (simp add: allow_def Let_def)

lemma unseen_participant_passes:
  assumes "map_of quotas op = Some (a, b, v, w)" "0 < a" "0 < b" "Suc (length l) < max_rate_windows" "0 < now"
    "map_of l (run_key op r) = None" "map_of l (participant_key op i) = None"
  shows "limit_participant now r i op False l =
    (put (participant_key op i) \<lparr>w_expires = now + w, w_count = 1\<rparr>
      (put (run_key op r) \<lparr>w_expires = now + v, w_count = 1\<rparr> l), None)"
proof -
  have "length (put (run_key op r) x l) < max_rate_windows" for x :: rate_window
    using length_put [of "run_key op r" x l] assms(4) by (auto split: if_splits)
  then show ?thesis
    using assms run_key_participant_key [of op r op i, THEN not_sym]
    by (simp add: limit_participant_def allow_unseen map_of_put)
qed

text \<open>A receipt replay is charged to the run but never to the participant: the participant's
  window is the same after it as before.\<close>

theorem replay_spares_participant:
  assumes "limiter_ok l"
  shows "live now (fst (limit_participant now run identity operation True l)) (participant_key operation' identity')
    = live now l (participant_key operation' identity')"
proof (cases "map_of quotas operation")
  case None
  then show ?thesis by (simp add: limit_participant_def)
next
  case (Some q)
  obtain rl pl rw pw where q: "q = (rl, pl, rw, pw)" by (metis prod_cases4)
  have "0 < rw" using Some by (auto simp: q quotas_def durations split: if_splits)
  moreover obtain l1 wait pass where a: "allow now (run_key operation run) rl rw l = (l1, wait, pass)"
    by (metis prod_cases3)
  ultimately have "live now l1 (participant_key operation' identity') = live now l (participant_key operation' identity')"
    by (intro allow_live(1) [OF assms a]) simp_all
  then show ?thesis by (cases pass) (simp_all add: limit_participant_def Some q a)
qed

end
