(* ===== verification/Tables.thy ===== *)
theory Tables
  imports Prelude
begin

text \<open>
  The contract between the handlers and a database table under a key: what a lookup returns after
  an insertion, an update of one row or a deletion, and that the key stays unique. The locale
  states it for any implementation; the list tables of \<open>Prelude\<close> provide it. Sums over the rows of
  a table follow, for the byte counters that the handlers keep.
\<close>

section \<open>The interface of a keyed table\<close>

locale keyed_table =
  fixes key :: "'r \<Rightarrow> 'k"
    and valid :: "'t \<Rightarrow> bool"
    and lookup :: "'k \<Rightarrow> 't \<Rightarrow> 'r option"
    and insert_row :: "'r \<Rightarrow> 't \<Rightarrow> 't option"
    and modify :: "'k \<Rightarrow> ('r \<Rightarrow> 'r) \<Rightarrow> 't \<Rightarrow> 't"
    and remove :: "'k \<Rightarrow> 't \<Rightarrow> 't"
  assumes lookup_key: "lookup k t = Some r \<Longrightarrow> key r = k"
    and insert_fresh: "insert_row r t = None \<longleftrightarrow> lookup (key r) t \<noteq> None"
    and insert_valid: "valid t \<Longrightarrow> insert_row r t = Some t' \<Longrightarrow> valid t'"
    and lookup_insert: "insert_row r t = Some t' \<Longrightarrow>
      lookup k t' = (if k = key r then Some r else lookup k t)"
    and modify_valid: "valid t \<Longrightarrow> (\<And>r. key (f r) = key r) \<Longrightarrow> valid (modify k f t)"
    and lookup_modify: "(\<And>r. key (f r) = key r) \<Longrightarrow>
      lookup j (modify k f t) = (if j = k then map_option f (lookup j t) else lookup j t)"
    and remove_valid: "valid t \<Longrightarrow> valid (remove k t)"
    and lookup_remove: "valid t \<Longrightarrow> lookup j (remove k t) = (if j = k then None else lookup j t)"
begin

lemma insert_twice: "insert_row r t = Some t' \<Longrightarrow> key r' = key r \<Longrightarrow> insert_row r' t' = None"
  using insert_fresh [of r' t'] by (simp add: lookup_insert)

lemma insert_keeps: "insert_row r t = Some t' \<Longrightarrow> lookup k t = Some q \<Longrightarrow> lookup k t' = Some q"
  using insert_fresh [of r t] by (auto simp: lookup_insert)

lemma remove_then_insert:
  "valid t \<Longrightarrow> \<exists>t'. insert_row r (remove (key r) t) = Some t' \<and> valid t' \<and> lookup (key r) t' = Some r"
  using insert_fresh [of r "remove (key r) t"] lookup_remove [of t "key r" "key r"]
    insert_valid [OF remove_valid] lookup_insert [of r "remove (key r) t"]
  by (cases "insert_row r (remove (key r) t)") auto

lemma modify_keeps_rows:
  "(\<And>r. key (f r) = key r) \<Longrightarrow> lookup j (modify k f t) = None \<longleftrightarrow> lookup j t = None"
  by (simp add: lookup_modify)

end

text \<open>The list tables provide the interface for every key function.\<close>

definition tbl_modify :: "('r \<Rightarrow> 'k) \<Rightarrow> 'k \<Rightarrow> ('r \<Rightarrow> 'r) \<Rightarrow> 'r list \<Rightarrow> 'r list" where
  "tbl_modify key k f t = tbl_update (\<lambda>r. key r = k) f t"

definition tbl_remove :: "('r \<Rightarrow> 'k) \<Rightarrow> 'k \<Rightarrow> 'r list \<Rightarrow> 'r list" where
  "tbl_remove key k t = tbl_delete (\<lambda>r. key r = k) t"

lemma tbl_remove_lookup:
  "tbl_keys key t \<Longrightarrow> tbl_lookup key j (tbl_remove key k t) = (if j = k then None else tbl_lookup key j t)"
  by (auto simp: tbl_remove_def tbl_lookup_delete split: option.splits dest: tbl_lookup_Some)

lemma list_table: "keyed_table key (tbl_keys key) (tbl_lookup key) (tbl_insert key) (tbl_modify key) (tbl_remove key)"
proof
  show "\<And>k t r. tbl_lookup key k t = Some r \<Longrightarrow> key r = k" by (auto dest: tbl_lookup_Some)
  show "\<And>r t. tbl_insert key r t = None \<longleftrightarrow> tbl_lookup key (key r) t \<noteq> None"
    by (simp add: tbl_insert_def tbl_lookup_None)
  show "\<And>t r t'. tbl_keys key t \<Longrightarrow> tbl_insert key r t = Some t' \<Longrightarrow> tbl_keys key t'"
    by (rule tbl_insert_keys)
  show "\<And>r t t' k. tbl_insert key r t = Some t' \<Longrightarrow>
      tbl_lookup key k t' = (if k = key r then Some r else tbl_lookup key k t)"
    by (rule tbl_lookup_insert)
  show "\<And>t f k. tbl_keys key t \<Longrightarrow> (\<And>r. key (f r) = key r) \<Longrightarrow> tbl_keys key (tbl_modify key k f t)"
    by (simp add: tbl_modify_def tbl_update_keys)
  show "\<And>f j k t. (\<And>r. key (f r) = key r) \<Longrightarrow> tbl_lookup key j (tbl_modify key k f t) =
      (if j = k then map_option f (tbl_lookup key j t) else tbl_lookup key j t)"
    by (auto simp: tbl_modify_def tbl_lookup_update)
  show "\<And>t k. tbl_keys key t \<Longrightarrow> tbl_keys key (tbl_remove key k t)"
    by (simp add: tbl_remove_def tbl_delete_keys)
  show "\<And>t j k. tbl_keys key t \<Longrightarrow>
      tbl_lookup key j (tbl_remove key k t) = (if j = k then None else tbl_lookup key j t)"
    by (rule tbl_remove_lookup)
qed

section \<open>Sums over rows\<close>

definition tbl_sum :: "('r \<Rightarrow> bool) \<Rightarrow> ('r \<Rightarrow> nat) \<Rightarrow> 'r list \<Rightarrow> nat" where
  "tbl_sum p f t = sum_list (map f (filter p t))"

lemma tbl_sum_simps [simp]:
  "tbl_sum p f [] = 0" "tbl_sum p f (s @ t) = tbl_sum p f s + tbl_sum p f t"
  "tbl_sum p f (r # t) = (if p r then f r else 0) + tbl_sum p f t"
  by (simp_all add: tbl_sum_def)

lemma tbl_sum_none: "\<forall>r \<in> set t. \<not> p r \<Longrightarrow> tbl_sum p f t = 0"
  by (induction t) auto

lemma tbl_sum_mono: "(\<And>r. r \<in> set t \<Longrightarrow> p r \<Longrightarrow> f r \<le> g r) \<Longrightarrow> tbl_sum p f t \<le> tbl_sum p g t"
  by (induction t) (auto simp: add_mono)

lemma tbl_sum_member: "r \<in> set t \<Longrightarrow> p r \<Longrightarrow> f r \<le> tbl_sum p f t"
  by (induction t) auto

lemma tbl_count_sum: "tbl_count p t = tbl_sum p (\<lambda>r. 1) t"
  by (induction t) (auto simp: tbl_count_def)

lemma tbl_update_same: "(\<And>r. r \<in> set t \<Longrightarrow> q r \<Longrightarrow> g r = r) \<Longrightarrow> tbl_update q g t = t"
  by (induction t) (auto simp: tbl_update_def)

lemma tbl_sum_update_same:
  "(\<And>r. p (g r) = p r \<and> f (g r) = f r) \<Longrightarrow> tbl_sum p f (tbl_update q g t) = tbl_sum p f t"
  by (induction t) (auto simp: tbl_update_def)

text \<open>An update of the one row with a given key changes a sum by the change of that row.\<close>

lemma tbl_sum_update_one:
  assumes "tbl_keys key t" "r \<in> set t" "key r = k" "p (g r) = p r" "f (g r) = f r + d"
  shows "tbl_sum p f (tbl_update (\<lambda>r. key r = k) g t) = tbl_sum p f t + (if p r then d else 0)"
  using assms(1,2)
proof (induction t)
  case Nil
  then show ?case by simp
next
  case (Cons x t)
  show ?case
  proof (cases "x = r")
    case True
    have "k \<notin> key ` set t" using Cons.prems(1) True assms(3) by (auto simp: tbl_keys_def)
    then have "tbl_update (\<lambda>r. key r = k) g t = t" by (intro tbl_update_same) auto
    then show ?thesis using True assms(3-5) by (simp add: tbl_update_def)
  next
    case False
    then have "r \<in> set t" "key x \<noteq> k"
      using Cons.prems assms(3) by (auto simp: tbl_keys_def image_iff)
    with Cons show ?thesis by (simp add: tbl_update_def tbl_keys_def)
  qed
qed

lemma tbl_lookup_key: "tbl_keys key t \<Longrightarrow> tbl_lookup key k t = Some r \<longleftrightarrow> r \<in> set t \<and> key r = k"
  by (auto dest: tbl_lookup_Some tbl_lookup_unique)

lemma tbl_keys_eq: "tbl_keys key t \<Longrightarrow> r \<in> set t \<Longrightarrow> r' \<in> set t \<Longrightarrow> key r = key r' \<Longrightarrow> r = r'"
  by (auto simp: tbl_keys_def distinct_map inj_on_def)

lemma tbl_keys_snoc: "tbl_keys key (t @ [r]) \<longleftrightarrow> tbl_keys key t \<and> key r \<notin> key ` set t"
  by (auto simp: tbl_keys_def)

lemma filter_tbl_update: "(\<And>r. p (g r) = p r) \<Longrightarrow> filter p (tbl_update q g t) = tbl_update q g (filter p t)"
  by (induction t) (auto simp: tbl_update_def)

end
