(* ===== verification/Store.thy ===== *)
theory Store
  imports EventMetrics RateLimit Tables
begin

text \<open>
  The database (the schema of \<open>db.go\<close>) and the loaders that read it. A table is the list of its
  rows; a JSON column holds the value it encodes. The rows of the Go structs \<open>storedSession\<close>,
  \<open>attempt\<close> and \<open>commandReceipt\<close> are the table rows themselves. An insertion checks the primary
  key, the \<open>UNIQUE\<close> constraints and the foreign keys of its table, as SQLite does.
\<close>

section \<open>Rows\<close>

record run_row =
  rn_id :: string
  rn_slug :: string
  rn_version :: string
  rn_mode :: string
  rn_status :: string
  rn_suspended :: bool
  rn_created :: time
  rn_arms :: "(string \<times> string) list"
  rn_tasks :: "(string \<times> string) list"
  rn_allocation :: "allocation list"
  rn_cap :: nat
  rn_recruitment :: string
  rn_retention_days :: nat
  rn_closed_at :: "time option"
  rn_target_at :: "time option"
  rn_purged_at :: "time option"
  rn_purge_pending :: bool
  rn_event_bytes :: nat
  rn_data_bytes :: nat

record version_row =
  vr_id :: string
  vr_hash :: string
  vr_content_hash :: string
  vr_title :: string
  vr_slug :: string
  vr_snapshot :: snapshot
  vr_policy :: "policy option"
  vr_created :: time

record session_row =
  ss_id :: string
  ss_run :: string
  ss_identity :: string
  ss_variant :: string
  ss_panel :: nat
  ss_tasks :: "string list"
  ss_nodes :: "(string \<times> string) list"
  ss_public_tasks :: "(string \<times> string) list"
  ss_experience :: string
  ss_familiarity :: string
  ss_index :: nat
  ss_created :: time
  ss_completed :: "time option"
  ss_event_bytes :: nat
  ss_storage_bytes :: nat

record attempt_row =
  at_id :: string
  at_session :: string
  at_index :: nat
  at_task :: string
  at_started :: time
  at_next_seq :: nat
  at_finished :: "time option"
  at_outcome :: "string option"
  at_selected :: "string option"
  at_correct :: "bool option"
  at_navigation :: "int option"
  at_direct :: bool
  at_backtracks :: nat
  at_policy :: "policy option"
  at_server_elapsed :: "nat option"
  at_observed :: int
  at_quality :: string
  at_epochs :: nat
  at_event_bytes :: nat

record event_row =
  ev_attempt :: string
  ev_seq :: int
  ev_id :: string
  ev_event :: event
  ev_received :: time

record command_row =
  cm_session :: string
  cm_command :: string
  cm_operation :: string
  cm_hash :: string
  cm_response :: nat
  cm_attempt :: "string option"
  cm_created :: time
  cm_expires :: time

record invitation_row =
  iv_id :: string
  iv_run :: string
  iv_hash :: string
  iv_created :: time
  iv_expires :: time
  iv_used :: "time option"
  iv_session :: "string option"

record database =
  db_versions :: "version_row list"
  db_runs :: "run_row list"
  db_sessions :: "session_row list"
  db_attempts :: "attempt_row list"
  db_events :: "event_row list"
  db_commands :: "command_row list"
  db_invitations :: "invitation_row list"

section \<open>Insertions\<close>

definition constraint_failed :: "string \<Rightarrow> api_error" where
  "constraint_failed what = Internal (''constraint failed: '' @ what)"

definition insert_session :: "session_row \<Rightarrow> database \<Rightarrow> database result" where
  "insert_session r db =
     (if rn_id ` set (db_runs db) \<inter> {ss_run r} = {} then Inl (constraint_failed ''FOREIGN KEY'')
      else if tbl_lookup (\<lambda>s. (ss_run s, ss_identity s)) (ss_run r, ss_identity r) (db_sessions db) \<noteq> None
        then Inl (constraint_failed ''UNIQUE'')
      else case tbl_insert ss_id r (db_sessions db) of
          None \<Rightarrow> Inl (constraint_failed ''UNIQUE'')
        | Some t \<Rightarrow> Inr (db\<lparr>db_sessions := t\<rparr>))"

definition insert_attempt :: "attempt_row \<Rightarrow> database \<Rightarrow> database result" where
  "insert_attempt r db =
     (if at_session r \<notin> ss_id ` set (db_sessions db) then Inl (constraint_failed ''FOREIGN KEY'')
      else if tbl_lookup (\<lambda>a. (at_session a, at_index a)) (at_session r, at_index r) (db_attempts db) \<noteq> None
        then Inl (constraint_failed ''UNIQUE'')
      else case tbl_insert at_id r (db_attempts db) of
          None \<Rightarrow> Inl (constraint_failed ''UNIQUE'')
        | Some t \<Rightarrow> Inr (db\<lparr>db_attempts := t\<rparr>))"

definition insert_event :: "event_row \<Rightarrow> database \<Rightarrow> database result" where
  "insert_event r db =
     (if ev_attempt r \<notin> at_id ` set (db_attempts db) then Inl (constraint_failed ''FOREIGN KEY'')
      else if tbl_lookup (\<lambda>e. (ev_attempt e, ev_id e)) (ev_attempt r, ev_id r) (db_events db) \<noteq> None
        then Inl (constraint_failed ''UNIQUE'')
      else case tbl_insert (\<lambda>e. (ev_attempt e, ev_seq e)) r (db_events db) of
          None \<Rightarrow> Inl (constraint_failed ''UNIQUE'')
        | Some t \<Rightarrow> Inr (db\<lparr>db_events := t\<rparr>))"

definition insert_command :: "command_row \<Rightarrow> database \<Rightarrow> database result" where
  "insert_command r db =
     (if cm_session r \<notin> ss_id ` set (db_sessions db) then Inl (constraint_failed ''FOREIGN KEY'')
      else case tbl_insert (\<lambda>c. (cm_session c, cm_command c)) r (db_commands db) of
          None \<Rightarrow> Inl (constraint_failed ''UNIQUE'')
        | Some t \<Rightarrow> Inr (db\<lparr>db_commands := t\<rparr>))"

section \<open>Loaders\<close>

text \<open>\<open>loadRun\<close> by a column: the status reads as \<open>suspended\<close> while writes are suspended.\<close>

definition load_run :: "(run_row \<Rightarrow> string) \<Rightarrow> string \<Rightarrow> database \<Rightarrow> run_row result" where
  "load_run column value db =
     (case tbl_lookup column value (db_runs db) of
        None \<Rightarrow> Inl (Problem 404 ''run not found'')
      | Some r \<Rightarrow> Inr (if rn_suspended r then r\<lparr>rn_status := ''suspended''\<rparr> else r))"

text \<open>\<open>loadSnapshot\<close>: the frozen study of a version, after its hashes have been checked.\<close>

definition load_snapshot :: "(string \<Rightarrow> string) \<Rightarrow> database \<Rightarrow> string \<Rightarrow> frozen_snapshot result" where
  "load_snapshot sha db version =
     (case tbl_lookup vr_id version (db_versions db) of
        None \<Rightarrow> Inl (Problem 404 ''version not found'')
      | Some v \<Rightarrow> (case decode_policy (vr_policy v) of
          Inl e \<Rightarrow> Inl e
        | Inr p \<Rightarrow>
            if vr_content_hash v \<noteq> s_hash (vr_snapshot v)
              \<or> sha (bundle_json (s_bundle (vr_snapshot v))) \<noteq> vr_content_hash v
              \<or> publication_hash sha (vr_content_hash v) p \<noteq> vr_hash v
            then Inl (Problem 409 ''frozen publication hash does not match its content and policy'')
            else Inr \<lparr>f_snapshot = vr_snapshot v, f_hash = vr_hash v, f_policy = p\<rparr>))"

definition load_session :: "database \<Rightarrow> string \<Rightarrow> string \<Rightarrow> session_row result" where
  "load_session db run identity =
     (case tbl_lookup (\<lambda>s. (ss_run s, ss_identity s)) (run, identity) (db_sessions db) of
        None \<Rightarrow> Inl (Problem 404 ''not enrolled in this run'')
      | Some s \<Rightarrow> Inr s)"

definition load_attempt :: "database \<Rightarrow> string \<Rightarrow> string \<Rightarrow> attempt_row result" where
  "load_attempt db session i =
     (case tbl_lookup (\<lambda>a. (at_id a, at_session a)) (i, session) (db_attempts db) of
        None \<Rightarrow> Inl (Problem 404 ''attempt not found'')
      | Some a \<Rightarrow> (case decode_policy (at_policy a) of Inl e \<Rightarrow> Inl e | Inr p \<Rightarrow> Inr a))"

definition load_events :: "database \<Rightarrow> string \<Rightarrow> event list" where
  "load_events db i = map ev_event (sort_key ev_seq (filter (\<lambda>e. ev_attempt e = i) (db_events db)))"

section \<open>Freezing a study\<close>

text \<open>\<open>insertVersion\<close>: an equal publication is not stored twice. The result is the version's ID.\<close>

definition insert_version_with_policy ::
    "(string \<Rightarrow> string) \<Rightarrow> string \<Rightarrow> time \<Rightarrow> snapshot \<Rightarrow> policy \<Rightarrow> database \<Rightarrow> (string \<times> database) result" where
  "insert_version_with_policy sha rid now snap p db =
     (case check_policy p of Inl e \<Rightarrow> Inl e
      | Inr _ \<Rightarrow>
        (let hash = publication_hash sha (s_hash snap) p in
         case tbl_lookup vr_hash hash (db_versions db) of
           Some v \<Rightarrow> Inr (vr_id v, db)
         | None \<Rightarrow>
             (case tbl_insert vr_id \<lparr>vr_id = rid, vr_hash = hash, vr_content_hash = s_hash snap,
                 vr_title = cfg_title (b_config (s_bundle snap)),
                 vr_slug = cfg_slug (b_config (s_bundle snap)), vr_snapshot = snap,
                 vr_policy = Some p, vr_created = now\<rparr> (db_versions db) of
                None \<Rightarrow> Inl (constraint_failed ''UNIQUE'')
              | Some t \<Rightarrow> Inr (rid, db\<lparr>db_versions := t\<rparr>))))"

definition insert_version ::
    "(string \<Rightarrow> string) \<Rightarrow> string \<Rightarrow> time \<Rightarrow> snapshot \<Rightarrow> database \<Rightarrow> (string \<times> database) result" where
  "insert_version sha rid now snap db = insert_version_with_policy sha rid now snap current_policy db"

text \<open>\<open>Import\<close>: validate and freeze a bundle; every error leaves the database as it was.\<close>

definition import_bundle ::
    "(string \<Rightarrow> string) \<Rightarrow> string \<Rightarrow> time \<Rightarrow> study_bundle \<Rightarrow> database \<Rightarrow> string result \<times> database" where
  "import_bundle sha rid now b db =
     (case validate sha b of
        Inl e \<Rightarrow> (Inl (Internal ''invalid bundle''), db)
      | Inr snap \<Rightarrow> (case insert_version sha rid now snap db of
          Inl e \<Rightarrow> (Inl e, db)
        | Inr (i, db') \<Rightarrow> (Inr i, db')))"

end
