(* ===== verification/Participant.thy ===== *)
theory Participant
  imports Store
begin

text \<open>
  The participant API (\<open>participant.go\<close>) with the database part of \<open>appendEvents\<close>. A handler takes
  the environment of the request and the server state (database and rate windows) and returns a
  response or an error with the new state. Its transaction is the database that it threads: on an
  error the handler returns the database it started with, while the charged rate windows stay, as
  \<open>defer tx.Rollback()\<close> and the in-memory limiter do. The environment holds what the code takes from
  outside: SHA-256 (\<open>digest\<close>), the keyed identity hash, the readings of the clock (\<open>clock k\<close> is the
  \<open>k\<close>-th call in the handler), the random IDs and the draws of the shuffles.
\<close>

record environment =
  en_sha :: "string \<Rightarrow> string"
  en_identity :: "string \<Rightarrow> string \<Rightarrow> string"
  en_clock :: "nat \<Rightarrow> time"
  en_random :: "nat \<Rightarrow> string"
  en_draws :: "nat list"
  en_order_draws :: "nat list"

record server =
  sv_db :: database
  sv_windows :: windows

text \<open>The participant token of the cookie; \<open>None\<close> or a malformed value reads as no token.\<close>

definition token_char :: "char \<Rightarrow> bool" where
  "token_char c \<longleftrightarrow> (CHR ''a'' \<le> c \<and> c \<le> CHR ''z'') \<or> (CHR ''A'' \<le> c \<and> c \<le> CHR ''Z'')
     \<or> (CHR ''0'' \<le> c \<and> c \<le> CHR ''9'') \<or> c = CHR ''-'' \<or> c = CHR ''_''"

definition token :: "string option \<Rightarrow> string" where
  "token cookie = (case cookie of None \<Rightarrow> []
     | Some v \<Rightarrow> if length v \<noteq> 43 then [] else if list_all token_char v then v else [])"

definition anonymous :: "string option \<Rightarrow> string result" where
  "anonymous cookie = (if token cookie = []
     then Inl (Problem 401 ''open the study to establish an anonymous session'')
     else Inr (token cookie))"

definition valid_invitation_token :: "string \<Rightarrow> bool" where
  "valid_invitation_token v \<longleftrightarrow> length v = 43 \<and> list_all token_char v"

definition valid_demographics :: "string \<Rightarrow> string \<Rightarrow> bool" where
  "valid_demographics experience familiarity \<longleftrightarrow>
     experience \<in> set ['''', ''new'', ''some'', ''regular'', ''extensive'']
     \<and> familiarity \<in> set ['''', ''never'', ''occasionally'', ''regularly'']"

definition suspended_error :: api_error where
  "suspended_error = Problem 423 ''participant writes are temporarily suspended''"

fun has_status :: "nat \<Rightarrow> api_error \<Rightarrow> bool" where
  "has_status n (Problem s t) = (s = n)"
| "has_status n e = False"

definition policy_mismatch :: api_error where
  "policy_mismatch = Problem 409 ''attempt policy does not match its frozen version''"

section \<open>The view of a session\<close>

record public_attempt =
  pa_id :: string
  pa_next_seq :: nat
  pa_events :: "event list"
  pa_started :: time

record session_view =
  sw_id :: string
  sw_title :: string
  sw_completed :: bool
  sw_index :: nat
  sw_total :: nat
  sw_task :: "(string \<times> string) option"
  sw_tree :: "public_node list"
  sw_attempt :: "public_attempt option"

definition empty_task :: task where
  "empty_task = \<lparr>t_id = [], t_prompt = [], t_difficulty = [], t_answers = []\<rparr>"

definition find_task :: "frozen_snapshot \<Rightarrow> string \<Rightarrow> task" where
  "find_task f i = (case find (\<lambda>t. t_id t = i) (cfg_tasks (f_config f)) of
     None \<Rightarrow> empty_task | Some t \<Rightarrow> t)"

text \<open>The part of the view that does not depend on the attempt, for the task at an index.\<close>

definition task_view :: "frozen_snapshot \<Rightarrow> session_row \<Rightarrow> nat \<Rightarrow> session_view result" where
  "task_view f s i =
     (let base = \<lparr>sw_id = ss_id s, sw_title = cfg_title (f_config f),
            sw_completed = (length (ss_tasks s) \<le> i), sw_index = i, sw_total = length (ss_tasks s),
            sw_task = None, sw_tree = [], sw_attempt = None\<rparr>
      in if sw_completed base then Inr base
         else case slice_at (ss_tasks s) (int i) of Inl e \<Rightarrow> Inl e
         | Inr t \<Rightarrow>
           (let task = find_task f t
            in Inr (base\<lparr>sw_task := Some (str_get (ss_public_tasks s) (t_id task), t_prompt task),
                   sw_tree := nodes_for (f_tree f (ss_variant s)) (ss_nodes s)\<rparr>)))"

definition make_session :: "database \<Rightarrow> session_row \<Rightarrow> frozen_snapshot \<Rightarrow> session_view result" where
  "make_session db s f =
     (case task_view f s (ss_index s) of Inl e \<Rightarrow> Inl e
      | Inr view \<Rightarrow>
      if sw_completed view then Inr view
      else case tbl_lookup (\<lambda>a. (at_session a, at_index a)) (ss_id s, ss_index s) (db_attempts db) of
          None \<Rightarrow> Inr view
        | Some a \<Rightarrow> (case decode_policy (at_policy a) of
            Inl e \<Rightarrow> Inl e
          | Inr p \<Rightarrow> if p \<noteq> f_policy f then Inl policy_mismatch
              else Inr (view\<lparr>sw_attempt := Some \<lparr>pa_id = at_id a, pa_next_seq = at_next_seq a,
                     pa_events = load_events db (at_id a), pa_started = at_started a\<rparr>\<rparr>)))"

text \<open>\<open>owned\<close>: the session, the study, the run and the identity behind a slug and a token.\<close>

definition owned :: "environment \<Rightarrow> database \<Rightarrow> string \<Rightarrow> string
    \<Rightarrow> (session_row \<times> frozen_snapshot \<times> run_row \<times> string) result" where
  "owned env db slug tok =
     (case load_run rn_slug slug db of Inl e \<Rightarrow> Inl e
      | Inr run \<Rightarrow>
        (let identity = en_identity env (rn_id run) tok in
         case load_session db (rn_id run) identity of Inl e \<Rightarrow> Inl e
         | Inr s \<Rightarrow> (case load_snapshot (en_sha env) db (rn_version run) of Inl e \<Rightarrow> Inl e
             | Inr f \<Rightarrow> Inr (s, f, run, identity))))"

section \<open>Joining a run\<close>

text \<open>\<open>ids\<close> in \<open>join\<close>: a random ID for every placement, in document order; the counter names the
  next random ID.\<close>

fun assign_ids :: "(nat \<Rightarrow> string) \<Rightarrow> node list \<Rightarrow> (string \<times> string) list \<times> nat \<Rightarrow> (string \<times> string) list \<times> nat" where
  "assign_ids random [] st = st"
| "assign_ids random (Node i l c ch # ns) (m, k) =
     assign_ids random ns (assign_ids random ch (put i (random k) m, Suc k))"

fun assign_task_ids :: "(nat \<Rightarrow> string) \<Rightarrow> string list \<Rightarrow> (string \<times> string) list \<times> nat \<Rightarrow> (string \<times> string) list \<times> nat" where
  "assign_task_ids random [] st = st"
| "assign_task_ids random (t # ts) (m, k) = assign_task_ids random ts (put t (random k) m, Suc k)"

record join_request =
  jr_slug :: string
  jr_cookie :: "string option"
  jr_experience :: string
  jr_familiarity :: string
  jr_invite :: string

text \<open>The bytes that a session row is charged for: its JSON columns and the demographics.\<close>

definition storage_bytes ::
    "string list \<Rightarrow> (string \<times> string) list \<Rightarrow> (string \<times> string) list \<Rightarrow> string \<Rightarrow> string \<Rightarrow> nat" where
  "storage_bytes tasks nodes public experience familiarity =
     length (json_array (map json_string tasks)) + length (json_map json_string nodes)
       + length (json_map json_string public) + length experience + length familiarity"

text \<open>The new session of a participant, before it is stored, and the rest of the allocation block.\<close>

definition new_session ::
    "environment \<Rightarrow> policy_engine \<Rightarrow> frozen_snapshot \<Rightarrow> run_row \<Rightarrow> string \<Rightarrow> join_request
      \<Rightarrow> (session_row \<times> allocation list) result" where
  "new_session env engine f run identity req =
     (case next_allocation (pe_allocate engine) (en_draws env) (f_config f) (rn_allocation run) of
        Inl e \<Rightarrow> Inl e
      | Inr (choice, rest) \<Rightarrow>
          if length (cfg_panels (f_config f)) \<le> al_panel choice then Inl (Fault ''index out of range'')
          else case pe_order engine (en_order_draws env) (cfg_panels (f_config f) ! al_panel choice) of
              None \<Rightarrow> Inl (Internal ''random source'')
            | Some tasks \<Rightarrow>
                (let named = assign_ids (en_random env) (f_tree f (al_variant choice)) ([], 1);
                     nodes = fst named;
                     public = fst (assign_task_ids (en_random env) tasks ([], snd named))
                 in Inr (\<lparr>ss_id = en_random env 0, ss_run = rn_id run, ss_identity = identity,
                      ss_variant = al_variant choice, ss_panel = al_panel choice, ss_tasks = tasks,
                      ss_nodes = nodes, ss_public_tasks = public, ss_experience = jr_experience req,
                      ss_familiarity = jr_familiarity req, ss_index = 0, ss_created = en_clock env 0,
                      ss_completed = None, ss_event_bytes = 0,
                      ss_storage_bytes = storage_bytes tasks nodes public
                        (jr_experience req) (jr_familiarity req)\<rparr>, rest)))"

definition usable_invitation :: "string \<Rightarrow> string \<Rightarrow> time \<Rightarrow> invitation_row \<Rightarrow> bool" where
  "usable_invitation run hash now i \<longleftrightarrow>
     iv_run i = run \<and> iv_hash i = hash \<and> iv_used i = None \<and> text_less now (iv_expires i)"

text \<open>The \<open>UPDATE invitations\<close> of \<open>join\<close>: exactly one row must be consumed.\<close>

definition use_invitation :: "environment \<Rightarrow> string \<Rightarrow> string \<Rightarrow> string \<Rightarrow> database \<Rightarrow> database result" where
  "use_invitation env run session invite db =
     (let p = usable_invitation run (en_sha env invite) (en_clock env 2);
          used = tbl_count p (db_invitations db)
      in if used \<noteq> 1 then Inl (Problem 403 ''the study invitation is invalid, expired, or already used'')
         else Inr (db\<lparr>db_invitations := tbl_update p
           (\<lambda>i. i\<lparr>iv_used := Some (en_clock env 1), iv_session := Some session\<rparr>) (db_invitations db)\<rparr>))"

definition spend_invitation :: "environment \<Rightarrow> run_row \<Rightarrow> string \<Rightarrow> string \<Rightarrow> database \<Rightarrow> database result" where
  "spend_invitation env run session invite db =
     (if rn_recruitment run = ''invitation'' then use_invitation env (rn_id run) session invite db
      else Inr db)"

text \<open>The branch of \<open>join\<close> for a participant who is not enrolled yet.\<close>

definition enrol ::
    "environment \<Rightarrow> policy_engine \<Rightarrow> frozen_snapshot \<Rightarrow> run_row \<Rightarrow> string \<Rightarrow> join_request \<Rightarrow> database
      \<Rightarrow> (session_row \<times> database) result" where
  "enrol env engine f run identity req db =
     (if rn_status run \<noteq> ''open'' then Inl (Problem 409 ''enrollment is not open'')
      else if tbl_count (\<lambda>s. ss_run s = rn_id run) (db_sessions db) \<ge> rn_cap run
        then Inl (Problem 429 ''this study has reached its enrollment limit'')
      else case new_session env engine f run identity req of Inl e \<Rightarrow> Inl e
      | Inr (s, rest) \<Rightarrow>
        if ss_storage_bytes s > max_session_event_data
          then Inl (Problem 422 ''study session data exceeds the storage limit'')
        else if rn_data_bytes run + ss_storage_bytes s > max_run_event_data
          then Inl (Problem 429 ''study storage limit reached'')
        else if rn_recruitment run = ''invitation'' \<and> \<not> valid_invitation_token (jr_invite req)
          then Inl (Problem 403 ''a valid study invitation is required'')
        else case insert_session s db of Inl e \<Rightarrow> Inl e
        | Inr db1 \<Rightarrow>
          (case spend_invitation env run (ss_id s) (jr_invite req) db1 of
             Inl e \<Rightarrow> Inl e
           | Inr db2 \<Rightarrow> Inr (s, db2\<lparr>db_runs := tbl_update (\<lambda>r. rn_id r = rn_id run)
               (\<lambda>r. r\<lparr>rn_allocation := rest, rn_data_bytes := rn_data_bytes r + ss_storage_bytes s\<rparr>)
               (db_runs db2)\<rparr>)))"

text \<open>The whole handler. A session that exists already is returned as it is.\<close>

definition join :: "environment \<Rightarrow> join_request \<Rightarrow> server \<Rightarrow> session_view result \<times> server" where
  "join env req sv =
     (let db = sv_db sv in
      if \<not> valid_demographics (jr_experience req) (jr_familiarity req)
        then (Inl (Problem 422 ''experience fields must use the available response options''), sv)
      else case anonymous (jr_cookie req) of Inl e \<Rightarrow> (Inl e, sv)
      | Inr tok \<Rightarrow>
      (case load_run rn_slug (jr_slug req) db of Inl e \<Rightarrow> (Inl e, sv)
      | Inr run \<Rightarrow>
      (case load_snapshot (en_sha env) db (rn_version run) of Inl e \<Rightarrow> (Inl e, sv)
      | Inr f \<Rightarrow>
      (case resolve_policy (f_policy f) of Inl e \<Rightarrow> (Inl e, sv)
      | Inr engine \<Rightarrow>
      if rn_status run = ''suspended'' then (Inl suspended_error, sv)
      else
        (let identity = en_identity env (rn_id run) tok;
             found = load_session db (rn_id run) identity;
             (windows, limited) = limit_participant (en_clock env 3) (rn_id run) identity ''join'' False
               (sv_windows sv);
             sv1 = sv\<lparr>sv_windows := windows\<rparr>
         in case limited of Some e \<Rightarrow> (Inl e, sv1)
         | None \<Rightarrow>
           (case (case found of
                    Inr s \<Rightarrow> Inr (s, db)
                  | Inl e \<Rightarrow> if has_status 404 e then enrol env engine f run identity req db
                      else Inl e) of
              Inl e \<Rightarrow> (Inl e, sv1)
            | Inr (s, db1) \<Rightarrow>
              (case make_session db1 s f of
                 Inl e \<Rightarrow> (Inl e, sv1)
               | Inr view \<Rightarrow> (Inr view, sv1\<lparr>sv_db := db1\<rparr>))))))))"

section \<open>Receipts\<close>

definition max_command_receipts :: nat where "max_command_receipts = 64"
definition receipt_lifetime :: nat where "receipt_lifetime = 24 * hour"

definition command_id :: "string \<Rightarrow> api_error option" where
  "command_id i = (if trim_space i \<noteq> i \<or> length i < 1 \<or> length i > 128
     then Some (Problem 422 (''command_id must contain 1'' @ [CHR 0xE2, CHR 0x80, CHR 0x93] @ ''128 characters''))
     else None)"

text \<open>\<open>receipt\<close>: the saved receipt of a command, if it is still valid; an expired one is deleted.\<close>

definition receipt :: "time \<Rightarrow> string \<Rightarrow> string \<Rightarrow> string \<Rightarrow> string \<Rightarrow> database
    \<Rightarrow> (command_row option \<times> database) result" where
  "receipt now session command operation hash db =
     (case tbl_lookup (\<lambda>c. (cm_session c, cm_command c)) (session, command) (db_commands db) of
        None \<Rightarrow> Inr (None, db)
      | Some c \<Rightarrow>
          if cm_operation c \<noteq> operation \<or> hash \<noteq> cm_hash c
            then Inl (Problem 409 ''command_id already used with a different request'')
          else if cm_expires c \<le> now
            then Inr (None, db\<lparr>db_commands :=
              tbl_delete (\<lambda>c. cm_session c = session \<and> cm_command c = command) (db_commands db)\<rparr>)
          else Inr (Some c, db))"

text \<open>\<open>saveReceipt\<close>; its four readings of the clock are \<open>t0\<close> to \<open>t3\<close>.\<close>

definition save_receipt :: "time \<Rightarrow> time \<Rightarrow> time \<Rightarrow> time \<Rightarrow> string \<Rightarrow> string \<Rightarrow> string \<Rightarrow> string
    \<Rightarrow> nat \<Rightarrow> string \<Rightarrow> database \<Rightarrow> database result" where
  "save_receipt t0 t1 t2 t3 session command operation hash response attempt db =
     (let db1 = db\<lparr>db_commands := tbl_delete (\<lambda>c. text_le (cm_expires c) t0) (db_commands db)\<rparr>
      in if tbl_count (\<lambda>c. cm_session c = session \<and> text_less t1 (cm_expires c)) (db_commands db1)
             \<ge> max_command_receipts
         then Inl (Problem 429 ''too many recent command receipts; reload the study'')
         else insert_command \<lparr>cm_session = session, cm_command = command, cm_operation = operation,
           cm_hash = hash, cm_response = response,
           cm_attempt = (if attempt = [] then None else Some attempt), cm_created = t2,
           cm_expires = t3 + receipt_lifetime\<rparr> db1)"

text \<open>\<open>replayReceipt\<close>: the response of the original command, rebuilt from the receipt.\<close>

definition replay_receipt ::
    "database \<Rightarrow> session_row \<Rightarrow> frozen_snapshot \<Rightarrow> command_row \<Rightarrow> session_view result" where
  "replay_receipt db s f c =
     (if cm_response c > length (ss_tasks s)
        then Inl (Problem 409 ''command receipt cannot be reconstructed; reload the study'')
      else
        (case task_view f s (cm_response c) of Inl e \<Rightarrow> Inl e
         | Inr view \<Rightarrow>
         case cm_attempt c of
           None \<Rightarrow> Inr view
         | Some i \<Rightarrow>
             (case tbl_lookup (\<lambda>a. (at_id a, at_session a)) (i, ss_id s) (db_attempts db) of
                None \<Rightarrow> Inl (Internal ''no rows in result set'')
              | Some a \<Rightarrow> Inr (view\<lparr>sw_attempt := Some \<lparr>pa_id = i, pa_next_seq = 1, pa_events = [],
                    pa_started = at_started a\<rparr>\<rparr>))))"

section \<open>The session handler\<close>

definition session :: "environment \<Rightarrow> string \<Rightarrow> string option \<Rightarrow> server \<Rightarrow> session_view result \<times> server" where
  "session env slug cookie sv =
     (case anonymous cookie of
        Inl e \<Rightarrow> (Inl (Problem 404 ''not enrolled in this run''), sv)
      | Inr tok \<Rightarrow>
        (case owned env (sv_db sv) slug tok of
           Inl e \<Rightarrow> (Inl e, sv)
         | Inr (s, f, run, identity) \<Rightarrow> (make_session (sv_db sv) s f, sv)))"

section \<open>Starting a task\<close>

record start_request =
  sr_slug :: string
  sr_cookie :: "string option"
  sr_command :: string
  sr_task :: string

definition new_attempt :: "string \<Rightarrow> session_row \<Rightarrow> string \<Rightarrow> time \<Rightarrow> policy \<Rightarrow> attempt_row" where
  "new_attempt i s task now p = \<lparr>at_id = i, at_session = ss_id s, at_index = ss_index s,
     at_task = task, at_started = now, at_next_seq = 1, at_finished = None,
     at_outcome = None, at_selected = None, at_correct = None, at_navigation = None, at_direct = False,
     at_backtracks = 0, at_policy = Some p, at_server_elapsed = None, at_observed = 0,
     at_quality = ''not_started'', at_epochs = 0, at_event_bytes = 0\<rparr>"

text \<open>The transaction after the receipt check.\<close>

definition start_task :: "environment \<Rightarrow> start_request \<Rightarrow> session_row \<Rightarrow> frozen_snapshot \<Rightarrow> database
    \<Rightarrow> (session_view \<times> database) result" where
  "start_task env req s f db =
     (if ss_index s \<ge> length (ss_tasks s) then Inl (Problem 409 ''session is complete'')
      else case slice_at (ss_tasks s) (int (ss_index s)) of Inl e \<Rightarrow> Inl e
      | Inr task \<Rightarrow>
      if sr_task req \<noteq> str_get (ss_public_tasks s) task
        then Inl (Problem 409 ''task changed; reload this session before starting'')
      else if tbl_count (\<lambda>a. at_session a = ss_id s \<and> at_index a = ss_index s) (db_attempts db) \<noteq> 0
        then Inl (Problem 409 ''task already started; reload this session'')
      else case insert_attempt (new_attempt (en_random env 0) s task (en_clock env 1) (f_policy f)) db of
          Inl e \<Rightarrow> Inl e
        | Inr db1 \<Rightarrow>
          (case make_session db1 s f of Inl e \<Rightarrow> Inl e
           | Inr view \<Rightarrow>
             (case save_receipt (en_clock env 2) (en_clock env 3) (en_clock env 4) (en_clock env 5)
                 (ss_id s) (sr_command req) ''start'' (en_sha env (sr_task req)) (ss_index s)
                 (en_random env 0) db1 of Inl e \<Rightarrow> Inl e
              | Inr db2 \<Rightarrow> Inr (view, db2))))"

text \<open>A replayed command returns without a commit, so its transaction is rolled back as well.\<close>

definition start :: "environment \<Rightarrow> start_request \<Rightarrow> server \<Rightarrow> session_view result \<times> server" where
  "start env req sv =
     (let db = sv_db sv in
      case command_id (sr_command req) of Some e \<Rightarrow> (Inl e, sv)
      | None \<Rightarrow>
      if sr_task req = [] then (Inl (Problem 422 ''task_id is required''), sv)
      else case anonymous (sr_cookie req) of Inl e \<Rightarrow> (Inl e, sv)
      | Inr tok \<Rightarrow>
      (case owned env db (sr_slug req) tok of Inl e \<Rightarrow> (Inl e, sv)
      | Inr (s, f, run, identity) \<Rightarrow>
      if rn_status run = ''suspended'' then (Inl suspended_error, sv)
      else
        (let saved = receipt (en_clock env 0) (ss_id s) (sr_command req) ''start'' (en_sha env (sr_task req)) db;
             replayed = (case saved of Inr (Some c, _) \<Rightarrow> True | _ \<Rightarrow> False);
             (windows, limited) = limit_participant (en_clock env 6) (rn_id run) identity ''start'' replayed
               (sv_windows sv);
             sv1 = sv\<lparr>sv_windows := windows\<rparr>
         in case limited of Some e \<Rightarrow> (Inl e, sv1)
         | None \<Rightarrow>
           (case saved of
              Inl e \<Rightarrow> (Inl e, sv1)
            | Inr (Some c, db1) \<Rightarrow> (replay_receipt db1 s f c, sv1)
            | Inr (None, db1) \<Rightarrow>
                (case start_task env req s f db1 of
                   Inl e \<Rightarrow> (Inl e, sv1)
                 | Inr (view, db2) \<Rightarrow> (Inr view, sv1\<lparr>sv_db := db2\<rparr>))))))"

section \<open>Appending events\<close>

fun insert_events :: "string \<Rightarrow> (nat \<Rightarrow> time) \<Rightarrow> event list \<Rightarrow> database \<Rightarrow> database result" where
  "insert_events i clock [] db = Inr db"
| "insert_events i clock (e # es) db =
     (case insert_event \<lparr>ev_attempt = i, ev_seq = e_seq e, ev_id = e_id e, ev_event = e,
        ev_received = clock 0\<rparr> db of
        Inl err \<Rightarrow> Inl err
      | Inr db1 \<Rightarrow> insert_events i (\<lambda>k. clock (Suc k)) es db1)"

text \<open>
  \<open>appendEvents\<close>: the log with the batch, and the attempt, the session and the database as they are
  afterwards. The Go function updates the structs of its caller in place.
\<close>

definition append_events ::
    "(nat \<Rightarrow> time) \<Rightarrow> session_row \<Rightarrow> frozen_snapshot \<Rightarrow> attempt_row \<Rightarrow> event list
      \<Rightarrow> (string \<times> string) option \<Rightarrow> database
      \<Rightarrow> (event list \<times> attempt_row \<times> session_row \<times> database) result" where
  "append_events clock s f a incoming terminal db =
     (let saved = load_events db (at_id a);
          idx = index_nodes (f_tree f (ss_variant s)) (ss_nodes s);
          closed = (at_finished a \<noteq> None \<or> at_index a \<noteq> ss_index s)
      in case tbl_lookup rn_id (ss_run s) (db_runs db) of
           None \<Rightarrow> Inl (Internal ''no rows in result set'')
         | Some run \<Rightarrow>
         (case extend_log idx closed (at_event_bytes a) (ss_storage_bytes s) (ss_event_bytes s)
             (rn_data_bytes run) saved incoming terminal of
            Inl e \<Rightarrow> Inl e
          | Inr (log, added) \<Rightarrow>
            (case insert_events (at_id a) clock (drop (length saved) log) db of
               Inl e \<Rightarrow> Inl e
             | Inr db1 \<Rightarrow>
               Inr (log,
                 a\<lparr>at_next_seq := length log + 1, at_event_bytes := at_event_bytes a + added\<rparr>,
                 s\<lparr>ss_event_bytes := ss_event_bytes s + added\<rparr>,
                 db1\<lparr>db_attempts := tbl_update (\<lambda>r. at_id r = at_id a)
                        (\<lambda>r. r\<lparr>at_next_seq := length log + 1, at_event_bytes := at_event_bytes r + added\<rparr>)
                        (db_attempts db1),
                      db_sessions := tbl_update (\<lambda>r. ss_id r = ss_id s)
                        (\<lambda>r. r\<lparr>ss_event_bytes := ss_event_bytes r + added\<rparr>) (db_sessions db1),
                      db_runs := tbl_update (\<lambda>r. rn_id r = ss_run s)
                        (\<lambda>r. r\<lparr>rn_event_bytes := rn_event_bytes r + added,
                              rn_data_bytes := rn_data_bytes r + added\<rparr>) (db_runs db1)\<rparr>))))"

record events_request =
  er_slug :: string
  er_cookie :: "string option"
  er_attempt :: string
  er_events :: "event list"

definition events :: "environment \<Rightarrow> events_request \<Rightarrow> server \<Rightarrow> nat result \<times> server" where
  "events env req sv =
     (let db = sv_db sv in
      case anonymous (er_cookie req) of Inl e \<Rightarrow> (Inl e, sv)
      | Inr tok \<Rightarrow>
      (case owned env db (er_slug req) tok of Inl e \<Rightarrow> (Inl e, sv)
      | Inr (s, f, run, identity) \<Rightarrow>
      if rn_status run = ''suspended'' then (Inl suspended_error, sv)
      else
        (let (windows, limited) = limit_participant (en_clock env 0) (rn_id run) identity ''events'' False
               (sv_windows sv);
             sv1 = sv\<lparr>sv_windows := windows\<rparr>
         in case limited of Some e \<Rightarrow> (Inl e, sv1)
         | None \<Rightarrow>
           (case load_attempt db (ss_id s) (er_attempt req) of Inl e \<Rightarrow> (Inl e, sv1)
            | Inr a \<Rightarrow>
              if at_policy a \<noteq> Some (f_policy f) then (Inl policy_mismatch, sv1)
              else case append_events (\<lambda>k. en_clock env (k + 1)) s f a (er_events req) None db of
                  Inl e \<Rightarrow> (Inl e, sv1)
                | Inr (log, a1, s1, db1) \<Rightarrow> (Inr (at_next_seq a1), sv1\<lparr>sv_db := db1\<rparr>)))))"

section \<open>Finishing a task\<close>

text \<open>The events of the request are \<open>None\<close> when the field is missing (a nil slice).\<close>

record finish_request =
  fr_slug :: string
  fr_cookie :: "string option"
  fr_attempt :: string
  fr_command :: string
  fr_outcome :: string
  fr_node :: string
  fr_events :: "event list option"

definition fr_batch :: "finish_request \<Rightarrow> event list" where
  "fr_batch req = (case fr_events req of None \<Rightarrow> [] | Some es \<Rightarrow> es)"

definition finish_json :: "finish_request \<Rightarrow> string" where
  "finish_json req = json_object
     ([(''attempt_id'', json_string (fr_attempt req)), (''command_id'', json_string (fr_command req)),
       (''outcome'', json_string (fr_outcome req))]
      @ (if fr_node req = [] then [] else [(''node_id'', json_string (fr_node req))])
      @ [(''events'', case fr_events req of None \<Rightarrow> ''null''
           | Some es \<Rightarrow> json_array (map canonical_event es))])"

text \<open>The last selected node that is still selected at the end of the log.\<close>

fun last_select :: "event list \<Rightarrow> string \<Rightarrow> string" where
  "last_select [] l = l"
| "last_select (e # es) l = last_select es
     (if e_type e = ''select'' then e_node e
      else if e_type e = ''enter'' \<or> e_type e = ''back'' \<or> e_type e = ''root'' then [] else l)"

text \<open>The scoring of the request: whether the answer is correct.\<close>

definition judge :: "policy_engine \<Rightarrow> frozen_snapshot \<Rightarrow> session_row \<Rightarrow> attempt_row \<Rightarrow> node_index
    \<Rightarrow> finish_request \<Rightarrow> event list \<Rightarrow> bool result" where
  "judge engine f s a idx req log =
     (if fr_outcome req \<noteq> ''selected'' then Inr False
      else if \<not> indexed idx (fr_node req) \<or> content_of idx (fr_node req) = []
        then Inl (Problem 422 ''select a selectable node from this session'')
      else if last_select log [] \<noteq> fr_node req
        then Inl (Problem 422 ''matching select event is required before finishing'')
      else Inr (pe_correct engine (find_task f (at_task a)) (ss_variant s) (content_of idx (fr_node req))))"

text \<open>The two \<open>UPDATE\<close> statements of \<open>finish\<close>: on the attempt and on its session.\<close>

definition finished_row ::
    "finish_request \<Rightarrow> bool \<Rightarrow> attempt_metrics \<Rightarrow> time \<Rightarrow> nat \<Rightarrow> policy option \<Rightarrow> attempt_row \<Rightarrow> attempt_row" where
  "finished_row req correct m now elapsed p r = r\<lparr>at_finished := Some now, at_outcome := Some (fr_outcome req),
     at_selected := Some (fr_node req), at_correct := Some correct, at_navigation := m_navigation m,
     at_direct := correct \<and> m_direct m, at_backtracks := m_backtracks m, at_server_elapsed := Some elapsed,
     at_observed := m_observed m, at_quality := m_quality m, at_epochs := m_epochs m, at_policy := p\<rparr>"

definition finish_update ::
    "string \<Rightarrow> (attempt_row \<Rightarrow> attempt_row) \<Rightarrow> string \<Rightarrow> nat \<Rightarrow> time option \<Rightarrow> database \<Rightarrow> database" where
  "finish_update i g sid n completed db = db\<lparr>
     db_attempts := tbl_update (\<lambda>r. at_id r = i) g (db_attempts db),
     db_sessions := tbl_update (\<lambda>r. ss_id r = sid) (\<lambda>r. r\<lparr>ss_index := n, ss_completed := completed\<rparr>)
       (db_sessions db)\<rparr>"

definition completion :: "session_row \<Rightarrow> time \<Rightarrow> time option" where
  "completion s now = (if ss_index s = length (ss_tasks s) then Some now else None)"

definition finish_attempt ::
    "environment \<Rightarrow> finish_request \<Rightarrow> session_row \<Rightarrow> frozen_snapshot \<Rightarrow> database
      \<Rightarrow> (session_view \<times> database) result" where
  "finish_attempt env req s f db =
     (case load_attempt db (ss_id s) (fr_attempt req) of Inl e \<Rightarrow> Inl e
      | Inr a \<Rightarrow>
      if at_finished a \<noteq> None \<or> at_index a \<noteq> ss_index s
        then Inl (Problem 409 ''attempt already finished; reload this session'')
      else if at_policy a \<noteq> Some (f_policy f) then Inl policy_mismatch
      else case resolve_policy (f_policy f) of Inl e \<Rightarrow> Inl e
      | Inr engine \<Rightarrow>
      (case append_events (\<lambda>k. en_clock env (k + 8)) s f a (fr_batch req)
          (Some (fr_outcome req, fr_node req)) db of Inl e \<Rightarrow> Inl e
      | Inr (log, a1, s1, db1) \<Rightarrow>
        (let idx = index_nodes (f_tree f (ss_variant s)) (ss_nodes s) in
         case judge engine f s a1 idx req log of Inl e \<Rightarrow> Inl e
         | Inr correct \<Rightarrow>
         (case pe_metrics engine log idx (fr_node req) (fr_outcome req) True of Inl e \<Rightarrow> Inl e
         | Inr m \<Rightarrow>
         (let finished = en_clock env 1;
              s2 = s1\<lparr>ss_index := ss_index s1 + 1\<rparr>;
              db2 = finish_update (at_id a1) (finished_row req correct m finished
                  (server_elapsed (at_started a1) finished) (at_policy a1)) (ss_id s2) (ss_index s2) (completion s2 finished) db1
          in case make_session db2 s2 f of Inl e \<Rightarrow> Inl e
          | Inr view \<Rightarrow>
            (case save_receipt (en_clock env 2) (en_clock env 3) (en_clock env 4) (en_clock env 5)
                (ss_id s2) (fr_command req) ''finish'' (en_sha env (finish_json req)) (ss_index s2) [] db2 of
               Inl e \<Rightarrow> Inl e
             | Inr db3 \<Rightarrow> Inr (view, db3)))))))"

definition finish :: "environment \<Rightarrow> finish_request \<Rightarrow> server \<Rightarrow> session_view result \<times> server" where
  "finish env req sv =
     (let db = sv_db sv in
      case command_id (fr_command req) of Some e \<Rightarrow> (Inl e, sv)
      | None \<Rightarrow>
      if fr_outcome req \<noteq> ''selected'' \<and> fr_outcome req \<noteq> ''gave_up'' \<and> fr_outcome req \<noteq> ''skipped''
        then (Inl (Problem 422 ''invalid outcome''), sv)
      else if fr_outcome req \<noteq> ''selected'' \<and> fr_node req \<noteq> []
        then (Inl (Problem 422 ''node_id is only valid for selected outcomes''), sv)
      else case anonymous (fr_cookie req) of Inl e \<Rightarrow> (Inl e, sv)
      | Inr tok \<Rightarrow>
      (case owned env db (fr_slug req) tok of Inl e \<Rightarrow> (Inl e, sv)
      | Inr (s, f, run, identity) \<Rightarrow>
      if rn_status run = ''suspended'' then (Inl suspended_error, sv)
      else
        (let saved = receipt (en_clock env 0) (ss_id s) (fr_command req) ''finish''
               (en_sha env (finish_json req)) db;
             replayed = (case saved of Inr (Some c, _) \<Rightarrow> True | _ \<Rightarrow> False);
             (windows, limited) = limit_participant (en_clock env 6) (rn_id run) identity ''finish'' replayed
               (sv_windows sv);
             sv1 = sv\<lparr>sv_windows := windows\<rparr>
         in case limited of Some e \<Rightarrow> (Inl e, sv1)
         | None \<Rightarrow>
           (case saved of
              Inl e \<Rightarrow> (Inl e, sv1)
            | Inr (Some c, db1) \<Rightarrow> (replay_receipt db1 s f c, sv1)
            | Inr (None, db1) \<Rightarrow>
                (case finish_attempt env req s f db1 of
                   Inl e \<Rightarrow> (Inl e, sv1)
                 | Inr (view, db2) \<Rightarrow> (Inr view, sv1\<lparr>sv_db := db2\<rparr>))))))"

end
