(* ===== verification/ParticipantInv.thy ===== *)
theory ParticipantInv
  imports Participant
begin

text \<open>
  The invariants of the participant tables and the database transitions of the handlers: keys and
  references, the event logs, the byte accounts, the progress of sessions and the enrolment cap.
  Each successful handler is first reduced to an equation for the new database; each invariant is
  then carried over each of these equations.
\<close>

section \<open>Invariants\<close>

named_theorems db_frames

lemma load_events_frames [simp, db_frames]:
  "load_events (db\<lparr>db_versions := v\<rparr>) i = load_events db i"
  "load_events (db\<lparr>db_runs := r\<rparr>) i = load_events db i"
  "load_events (db\<lparr>db_sessions := s\<rparr>) i = load_events db i"
  "load_events (db\<lparr>db_attempts := a\<rparr>) i = load_events db i"
  "load_events (db\<lparr>db_commands := c\<rparr>) i = load_events db i"
  "load_events (db\<lparr>db_invitations := n\<rparr>) i = load_events db i"
  by (simp_all add: load_events_def)

lemma load_snapshot_frames [simp, db_frames]:
  "load_snapshot sha (db\<lparr>db_runs := r\<rparr>) v = load_snapshot sha db v"
  "load_snapshot sha (db\<lparr>db_sessions := s\<rparr>) v = load_snapshot sha db v"
  "load_snapshot sha (db\<lparr>db_attempts := a\<rparr>) v = load_snapshot sha db v"
  "load_snapshot sha (db\<lparr>db_events := e\<rparr>) v = load_snapshot sha db v"
  "load_snapshot sha (db\<lparr>db_commands := c\<rparr>) v = load_snapshot sha db v"
  "load_snapshot sha (db\<lparr>db_invitations := n\<rparr>) v = load_snapshot sha db v"
  by (simp_all add: load_snapshot_def)

definition keys_ok :: "database \<Rightarrow> bool" where
  "keys_ok db \<longleftrightarrow> tbl_keys rn_id (db_runs db) \<and> tbl_keys rn_slug (db_runs db)
     \<and> tbl_keys ss_id (db_sessions db) \<and> tbl_keys (\<lambda>s. (ss_run s, ss_identity s)) (db_sessions db)
     \<and> tbl_keys at_id (db_attempts db) \<and> tbl_keys (\<lambda>a. (at_session a, at_index a)) (db_attempts db)
     \<and> tbl_keys (\<lambda>e. (ev_attempt e, ev_seq e)) (db_events db)
     \<and> tbl_keys (\<lambda>c. (cm_session c, cm_command c)) (db_commands db)"

definition refs_ok :: "database \<Rightarrow> bool" where
  "refs_ok db \<longleftrightarrow> ss_run ` set (db_sessions db) \<subseteq> rn_id ` set (db_runs db)
     \<and> at_session ` set (db_attempts db) \<subseteq> ss_id ` set (db_sessions db)
     \<and> ev_attempt ` set (db_events db) \<subseteq> at_id ` set (db_attempts db)
     \<and> cm_session ` set (db_commands db) \<subseteq> ss_id ` set (db_sessions db)"

text \<open>The rows of an attempt's events stand in the order of their sequence numbers.\<close>

definition events_of :: "database \<Rightarrow> string \<Rightarrow> event_row list" where
  "events_of db i = filter (\<lambda>e. ev_attempt e = i) (db_events db)"

definition event_rows_ok :: "database \<Rightarrow> bool" where
  "event_rows_ok db \<longleftrightarrow> (\<forall>e \<in> set (db_events db). ev_seq e = e_seq (ev_event e) \<and> ev_id e = e_id (ev_event e))
     \<and> (\<forall>i. sorted (map ev_seq (events_of db i)))"

definition session_index :: "frozen_snapshot \<Rightarrow> session_row \<Rightarrow> node_index" where
  "session_index f s = index_nodes (f_tree f (ss_variant s)) (ss_nodes s)"

definition session_study :: "(string \<Rightarrow> string) \<Rightarrow> database \<Rightarrow> session_row \<Rightarrow> frozen_snapshot \<Rightarrow> bool" where
  "session_study sha db s f \<longleftrightarrow>
     (\<exists>r \<in> set (db_runs db). rn_id r = ss_run s \<and> load_snapshot sha db (rn_version r) = Inr f)"

definition attempt_log_ok :: "(string \<Rightarrow> string) \<Rightarrow> database \<Rightarrow> attempt_row \<Rightarrow> bool" where
  "attempt_log_ok sha db a \<longleftrightarrow>
     at_next_seq a = length (load_events db (at_id a)) + 1
     \<and> at_event_bytes a = bytes_of (load_events db (at_id a))
     \<and> bytes_of (load_events db (at_id a)) \<le> max_attempt_event_data
     \<and> (\<forall>s \<in> set (db_sessions db). \<forall>f. ss_id s = at_session a \<longrightarrow> session_study sha db s f \<longrightarrow>
          log_ok (session_index f s) (load_events db (at_id a))
          \<and> ok (replay (session_index f s) (load_events db (at_id a))))"

definition logs_ok :: "(string \<Rightarrow> string) \<Rightarrow> database \<Rightarrow> bool" where
  "logs_ok sha db \<longleftrightarrow> (\<forall>a \<in> set (db_attempts db). attempt_log_ok sha db a)"

definition session_account_ok :: "database \<Rightarrow> session_row \<Rightarrow> bool" where
  "session_account_ok db s \<longleftrightarrow>
     ss_event_bytes s = tbl_sum (\<lambda>a. at_session a = ss_id s) at_event_bytes (db_attempts db)
     \<and> ss_storage_bytes s + ss_event_bytes s \<le> max_session_event_data"

definition run_account_ok :: "database \<Rightarrow> run_row \<Rightarrow> bool" where
  "run_account_ok db r \<longleftrightarrow>
     rn_event_bytes r = tbl_sum (\<lambda>s. ss_run s = rn_id r) ss_event_bytes (db_sessions db)
     \<and> rn_data_bytes r = tbl_sum (\<lambda>s. ss_run s = rn_id r)
          (\<lambda>s. ss_storage_bytes s + ss_event_bytes s) (db_sessions db)
     \<and> rn_data_bytes r \<le> max_run_event_data"

definition accounts_ok :: "database \<Rightarrow> bool" where
  "accounts_ok db \<longleftrightarrow> (\<forall>s \<in> set (db_sessions db). session_account_ok db s)
     \<and> (\<forall>r \<in> set (db_runs db). run_account_ok db r)"

definition caps_ok :: "database \<Rightarrow> bool" where
  "caps_ok db \<longleftrightarrow> (\<forall>r \<in> set (db_runs db). tbl_count (\<lambda>s. ss_run s = rn_id r) (db_sessions db) \<le> rn_cap r)"

definition attempt_progress :: "session_row \<Rightarrow> attempt_row \<Rightarrow> bool" where
  "attempt_progress s a \<longleftrightarrow> at_index a \<le> ss_index s \<and> at_index a < length (ss_tasks s)
     \<and> at_task a = ss_tasks s ! at_index a \<and> (at_finished a \<noteq> None \<longleftrightarrow> at_index a < ss_index s)"

definition session_progress :: "database \<Rightarrow> session_row \<Rightarrow> bool" where
  "session_progress db s \<longleftrightarrow> ss_index s \<le> length (ss_tasks s)
     \<and> (ss_completed s \<noteq> None \<longrightarrow> ss_index s = length (ss_tasks s))
     \<and> (0 < ss_index s \<longrightarrow> ss_index s = length (ss_tasks s) \<longrightarrow> ss_completed s \<noteq> None)
     \<and> (\<forall>i < ss_index s. \<exists>a \<in> set (db_attempts db). at_session a = ss_id s \<and> at_index a = i)
     \<and> (\<forall>a \<in> set (db_attempts db). at_session a = ss_id s \<longrightarrow> attempt_progress s a)"

definition progress_ok :: "database \<Rightarrow> bool" where
  "progress_ok db \<longleftrightarrow> (\<forall>s \<in> set (db_sessions db). session_progress db s)"

definition db_ok :: "(string \<Rightarrow> string) \<Rightarrow> database \<Rightarrow> bool" where
  "db_ok sha db \<longleftrightarrow> keys_ok db \<and> refs_ok db \<and> event_rows_ok db \<and> logs_ok sha db \<and> accounts_ok db
     \<and> caps_ok db \<and> progress_ok db"

lemmas db_ok_parts = keys_ok_def refs_ok_def event_rows_ok_def logs_ok_def accounts_ok_def caps_ok_def
  progress_ok_def

text \<open>Rows with the same key are the same row.\<close>

lemma keys_ok_eq:
  assumes "keys_ok db"
  shows "r \<in> set (db_runs db) \<Longrightarrow> r' \<in> set (db_runs db) \<Longrightarrow> rn_id r = rn_id r' \<Longrightarrow> r = r'"
    "s \<in> set (db_sessions db) \<Longrightarrow> s' \<in> set (db_sessions db) \<Longrightarrow> ss_id s = ss_id s' \<Longrightarrow> s = s'"
    "a \<in> set (db_attempts db) \<Longrightarrow> a' \<in> set (db_attempts db) \<Longrightarrow> at_id a = at_id a' \<Longrightarrow> a = a'"
    "a \<in> set (db_attempts db) \<Longrightarrow> a' \<in> set (db_attempts db) \<Longrightarrow> at_session a = at_session a'
      \<Longrightarrow> at_index a = at_index a' \<Longrightarrow> a = a'"
proof -
  have k: "tbl_keys rn_id (db_runs db)" "tbl_keys ss_id (db_sessions db)" "tbl_keys at_id (db_attempts db)"
    "tbl_keys (\<lambda>a. (at_session a, at_index a)) (db_attempts db)"
    using assms by (simp_all add: keys_ok_def)
  show "r \<in> set (db_runs db) \<Longrightarrow> r' \<in> set (db_runs db) \<Longrightarrow> rn_id r = rn_id r' \<Longrightarrow> r = r'"
    by (rule tbl_keys_eq [OF k(1)])
  show "s \<in> set (db_sessions db) \<Longrightarrow> s' \<in> set (db_sessions db) \<Longrightarrow> ss_id s = ss_id s' \<Longrightarrow> s = s'"
    by (rule tbl_keys_eq [OF k(2)])
  show "a \<in> set (db_attempts db) \<Longrightarrow> a' \<in> set (db_attempts db) \<Longrightarrow> at_id a = at_id a' \<Longrightarrow> a = a'"
    by (rule tbl_keys_eq [OF k(3)])
  show "a \<in> set (db_attempts db) \<Longrightarrow> a' \<in> set (db_attempts db) \<Longrightarrow> at_session a = at_session a'
      \<Longrightarrow> at_index a = at_index a' \<Longrightarrow> a = a'"
    using tbl_keys_eq [OF k(4)] by simp
qed

section \<open>Loading\<close>

lemma load_run_Inr: "load_run column v db = Inr run \<Longrightarrow>
    \<exists>r \<in> set (db_runs db). column r = v \<and> run = (if rn_suspended r then r\<lparr>rn_status := ''suspended''\<rparr> else r)"
  by (auto simp: load_run_def split: option.splits dest!: tbl_lookup_Some)

lemma load_session_Inr: "load_session db run identity = Inr s \<Longrightarrow>
    s \<in> set (db_sessions db) \<and> ss_run s = run \<and> ss_identity s = identity"
  by (auto simp: load_session_def split: option.splits dest!: tbl_lookup_Some)

lemma load_session_Inl: "load_session db run identity = Inl e \<Longrightarrow>
    e = Problem 404 ''not enrolled in this run''
    \<and> (\<forall>s \<in> set (db_sessions db). (ss_run s, ss_identity s) \<noteq> (run, identity))"
  by (auto simp: load_session_def tbl_lookup_None image_iff split: option.splits)

lemma owned_Inr:
  assumes "owned env db slug tok = Inr (s, f, run, identity)"
  shows "load_run rn_slug slug db = Inr run \<and> identity = en_identity env (rn_id run) tok
    \<and> load_session db (rn_id run) identity = Inr s \<and> s \<in> set (db_sessions db) \<and> ss_run s = rn_id run
    \<and> load_snapshot (en_sha env) db (rn_version run) = Inr f"
  using assms load_session_Inr by (auto simp: owned_def Let_def)

lemma owned_study:
  assumes "owned env db slug tok = Inr (s, f, run, identity)"
  shows "session_study (en_sha env) db s f"
proof -
  obtain r where "r \<in> set (db_runs db)" "rn_id run = rn_id r" "rn_version run = rn_version r"
    using owned_Inr [OF assms] load_run_Inr [of rn_slug slug db run] by (auto split: if_splits)
  with owned_Inr [OF assms] show ?thesis by (auto simp: session_study_def)
qed

lemma load_attempt_Inr: "load_attempt db sid i = Inr a \<Longrightarrow>
    a \<in> set (db_attempts db) \<and> at_id a = i \<and> at_session a = sid \<and> at_policy a = Some policy_v1"
  by (auto simp: load_attempt_def decode_policy_Inr split: option.splits dest!: tbl_lookup_Some)

lemma session_study_unique:
  "keys_ok db \<Longrightarrow> session_study sha db s f \<Longrightarrow> session_study sha db s g \<Longrightarrow> f = g"
  by (auto simp: session_study_def keys_ok_def) (metis Inr_inject tbl_keys_eq)

section \<open>Transitions\<close>

text \<open>Receipts: only the commands change, and a deletion keeps them well-formed.\<close>

definition commands_only :: "database \<Rightarrow> database \<Rightarrow> bool" where
  "commands_only db db' \<longleftrightarrow> (\<exists>cs. db' = db\<lparr>db_commands := cs\<rparr>
     \<and> tbl_keys (\<lambda>c. (cm_session c, cm_command c)) cs \<and> cm_session ` set cs \<subseteq> ss_id ` set (db_sessions db))"

lemma session_progress_snoc:
  assumes "session_progress db s" "db_attempts db' = db_attempts db @ [a]"
    "at_session a = ss_id s \<Longrightarrow> attempt_progress s a"
  shows "session_progress db' s"
proof -
  have e: "set (db_attempts db') = insert a (set (db_attempts db))" by (simp add: assms(2))
  show ?thesis
    using assms(1,3) unfolding session_progress_def e
    by (intro conjI allI impI ballI) (elim conjE; blast)+
qed

lemma session_progress_frame:
  "db_attempts db' = db_attempts db \<Longrightarrow> session_progress db' s = session_progress db s"
  by (simp add: session_progress_def)

lemma session_study_frame:
  "db_runs db' = db_runs db \<Longrightarrow> db_versions db' = db_versions db \<Longrightarrow>
    session_study sha db' s f = session_study sha db s f"
  by (simp add: session_study_def load_snapshot_def)

lemma load_events_frame: "db_events db' = db_events db \<Longrightarrow> load_events db' i = load_events db i"
  by (simp add: load_events_def)

lemma attempt_log_frame:
  assumes "db_runs db' = db_runs db" "db_versions db' = db_versions db"
    "db_sessions db' = db_sessions db" "db_events db' = db_events db"
  shows "attempt_log_ok sha db' a = attempt_log_ok sha db a"
  using assms session_study_frame [of db' db sha] load_events_frame [of db' db]
  by (simp add: attempt_log_ok_def)

lemma account_frames:
  "db_attempts db' = db_attempts db \<Longrightarrow> session_account_ok db' s = session_account_ok db s"
  "db_sessions db' = db_sessions db \<Longrightarrow> run_account_ok db' r = run_account_ok db r"
  by (simp_all add: session_account_ok_def run_account_ok_def)

lemma event_rows_frame: "db_events db' = db_events db \<Longrightarrow> event_rows_ok db' = event_rows_ok db"
  by (simp add: event_rows_ok_def events_of_def)

lemma commands_only_ok:
  assumes "db_ok sha db" "commands_only db db'"
  shows "db_ok sha db'"
proof -
  obtain cs where cs: "db' = db\<lparr>db_commands := cs\<rparr>" "tbl_keys (\<lambda>c. (cm_session c, cm_command c)) cs"
    "cm_session ` set cs \<subseteq> ss_id ` set (db_sessions db)"
    using assms(2) by (auto simp: commands_only_def)
  note parts = assms(1) [unfolded db_ok_def]
  have "keys_ok db'" using parts cs by (simp add: keys_ok_def)
  moreover have "refs_ok db'" using parts cs by (simp add: refs_ok_def)
  moreover have "event_rows_ok db'" using parts cs(1) event_rows_frame [of db' db] by simp
  moreover have "logs_ok sha db'"
    using parts attempt_log_frame [of db' db sha] by (simp add: logs_ok_def cs(1))
  moreover have "accounts_ok db'" using parts cs(1) account_frames [of db' db] by (simp add: accounts_ok_def)
  moreover have "caps_ok db'" using parts cs(1) by (simp add: caps_ok_def)
  moreover have "progress_ok db'"
    using parts cs(1) session_progress_frame [of db' db] by (simp add: progress_ok_def)
  ultimately show ?thesis by (simp add: db_ok_def)
qed

lemma commands_only_refl: "db_ok sha db \<Longrightarrow> commands_only db db"
  unfolding commands_only_def
  by (rule exI [of _ "db_commands db"]) (simp add: db_ok_def keys_ok_def refs_ok_def)

lemma commands_only_delete:
  assumes "db_ok sha db"
  shows "commands_only db (db\<lparr>db_commands := tbl_delete p (db_commands db)\<rparr>)"
proof -
  have "tbl_keys (\<lambda>c. (cm_session c, cm_command c)) (tbl_delete p (db_commands db))"
    using assms by (simp add: db_ok_def keys_ok_def tbl_delete_keys)
  moreover have "cm_session ` set (tbl_delete p (db_commands db)) \<subseteq> ss_id ` set (db_sessions db)"
    using assms by (auto simp: db_ok_def refs_ok_def)
  ultimately show ?thesis
    unfolding commands_only_def by (intro exI [of _ "tbl_delete p (db_commands db)"]) simp
qed

lemma receipt_commands:
  assumes "receipt t sid command operation hash db = Inr (c, db')" "db_ok sha db"
  shows "commands_only db db'"
proof -
  have "db' = db \<or> (\<exists>p. db' = db\<lparr>db_commands := tbl_delete p (db_commands db)\<rparr>)"
    using assms(1) by (auto simp: receipt_def split: option.splits if_splits)
  with commands_only_refl [OF assms(2)] commands_only_delete [OF assms(2)] show ?thesis by blast
qed

lemma insert_command_Inr: "insert_command r db = Inr db' \<longleftrightarrow>
    cm_session r \<in> ss_id ` set (db_sessions db)
    \<and> (cm_session r, cm_command r) \<notin> (\<lambda>c. (cm_session c, cm_command c)) ` set (db_commands db)
    \<and> db' = db\<lparr>db_commands := db_commands db @ [r]\<rparr>"
  by (auto simp: insert_command_def tbl_insert_def split: option.splits if_splits)

lemma save_receipt_commands:
  assumes "save_receipt t0 t1 t2 t3 sid command operation hash response attempt db = Inr db'"
    "db_ok sha db"
  shows "commands_only db db'"
proof -
  define db1 where "db1 = db\<lparr>db_commands := tbl_delete (\<lambda>c. text_le (cm_expires c) t0) (db_commands db)\<rparr>"
  obtain r where "insert_command r db1 = Inr db'"
    using assms(1) by (auto simp: save_receipt_def Let_def db1_def split: if_splits)
  then have r: "cm_session r \<in> ss_id ` set (db_sessions db)"
    "(cm_session r, cm_command r) \<notin> (\<lambda>c. (cm_session c, cm_command c)) ` set (db_commands db1)"
    "db' = db\<lparr>db_commands := db_commands db1 @ [r]\<rparr>"
    by (simp_all add: insert_command_Inr db1_def)
  have "commands_only db db1" unfolding db1_def by (rule commands_only_delete [OF assms(2)])
  then have "tbl_keys (\<lambda>c. (cm_session c, cm_command c)) (db_commands db1)"
    "cm_session ` set (db_commands db1) \<subseteq> ss_id ` set (db_sessions db)"
    by (auto simp: commands_only_def)
  with r show ?thesis
    unfolding commands_only_def
    by (intro exI [of _ "db_commands db1 @ [r]"]) (simp add: tbl_keys_snoc)
qed

text \<open>Starting a task: one new attempt.\<close>

lemma insert_attempt_Inr: "insert_attempt r db = Inr db' \<longleftrightarrow>
    at_session r \<in> ss_id ` set (db_sessions db)
    \<and> (at_session r, at_index r) \<notin> (\<lambda>a. (at_session a, at_index a)) ` set (db_attempts db)
    \<and> at_id r \<notin> at_id ` set (db_attempts db) \<and> db' = db\<lparr>db_attempts := db_attempts db @ [r]\<rparr>"
  by (auto simp: insert_attempt_def tbl_insert_def tbl_lookup_None split: option.splits if_splits)

lemma load_events_none:
  "refs_ok db \<Longrightarrow> i \<notin> at_id ` set (db_attempts db) \<Longrightarrow> load_events db i = []"
proof -
  assume "refs_ok db" "i \<notin> at_id ` set (db_attempts db)"
  then have "filter (\<lambda>e. ev_attempt e = i) (db_events db) = []"
    by (auto simp: refs_ok_def filter_empty_conv)
  then show ?thesis by (simp only: load_events_def) simp
qed

lemma new_attempt_simps [simp]:
  "at_id (new_attempt i s q t p) = i" "at_session (new_attempt i s q t p) = ss_id s"
  "at_index (new_attempt i s q t p) = ss_index s" "at_next_seq (new_attempt i s q t p) = 1"
  "at_event_bytes (new_attempt i s q t p) = 0" "at_finished (new_attempt i s q t p) = None"
  "at_task (new_attempt i s q t p) = q" "at_policy (new_attempt i s q t p) = Some p"
  "at_started (new_attempt i s q t p) = t"
  by (simp_all add: new_attempt_def)

lemma start_ok:
  assumes "db_ok sha db" "insert_attempt (new_attempt i s (ss_tasks s ! ss_index s) t p) db = Inr db'"
    "s \<in> set (db_sessions db)" "ss_index s < length (ss_tasks s)"
  shows "db_ok sha db'"
proof -
  define a where "a = new_attempt i s (ss_tasks s ! ss_index s) t p"
  have a: "at_session a = ss_id s" "at_index a = ss_index s" "at_id a = i" "at_next_seq a = 1"
    "at_event_bytes a = 0" "at_finished a = None" "at_task a = ss_tasks s ! ss_index s"
    by (simp_all add: a_def)
  have db': "db' = db\<lparr>db_attempts := db_attempts db @ [a]\<rparr>" and new: "i \<notin> at_id ` set (db_attempts db)"
    "(ss_id s, ss_index s) \<notin> (\<lambda>a. (at_session a, at_index a)) ` set (db_attempts db)"
    using assms(2) by (auto simp: insert_attempt_Inr a_def)
  note parts = assms(1) [unfolded db_ok_def]
  have frame: "db_runs db' = db_runs db" "db_versions db' = db_versions db" "db_sessions db' = db_sessions db"
    "db_events db' = db_events db" "db_commands db' = db_commands db"
    "db_attempts db' = db_attempts db @ [a]" by (simp_all add: db')
  have log: "load_events db i = []" using parts new(1) by (intro load_events_none) auto
  have "keys_ok db'" using parts new a by (simp add: keys_ok_def frame tbl_keys_snoc)
  moreover have "refs_ok db'" using parts assms(3) a by (auto simp: refs_ok_def frame)
  moreover have "event_rows_ok db'" using parts event_rows_frame [OF frame(4)] by simp
  moreover have "logs_ok sha db'"
  proof -
    have "attempt_log_ok sha db a"
      by (simp add: attempt_log_ok_def a log replay_def)
    with parts show ?thesis by (simp add: logs_ok_def frame attempt_log_frame [OF frame(1-4)])
  qed
  moreover have "accounts_ok db'"
  proof -
    have "session_account_ok db' q = session_account_ok db q" for q
      by (simp add: session_account_ok_def frame a)
    with parts show ?thesis by (simp add: accounts_ok_def frame account_frames(2) [OF frame(3)])
  qed
  moreover have "caps_ok db'" using parts by (simp add: caps_ok_def frame)
  moreover have "progress_ok db'"
    unfolding progress_ok_def
  proof
    fix q assume "q \<in> set (db_sessions db')"
    then have q: "q \<in> set (db_sessions db)" "session_progress db q"
      using parts by (auto simp: frame progress_ok_def)
    have "q = s" if "ss_id q = ss_id s"
      using that q(1) assms(3) parts keys_ok_eq(2) by blast
    then have "attempt_progress q a" if "at_session a = ss_id q"
      using that a assms(4) by (simp add: attempt_progress_def)
    then show "session_progress db' q" by (rule session_progress_snoc [OF q(2) frame(6)])
  qed
  ultimately show ?thesis by (simp add: db_ok_def)
qed

end
