(* ===== verification/ParticipantSteps.thy ===== *)
theory ParticipantSteps
  imports ParticipantInv
begin

text \<open>
  The larger transitions of the participant handlers: enrolling, appending events and finishing an
  attempt keep the invariants of \<open>ParticipantInv\<close>.
\<close>

section \<open>Updates that keep the identity of rows\<close>

definition same_session :: "session_row \<Rightarrow> session_row \<Rightarrow> bool" where
  "same_session s q \<longleftrightarrow> ss_id q = ss_id s \<and> ss_run q = ss_run s \<and> ss_identity q = ss_identity s
     \<and> ss_variant q = ss_variant s \<and> ss_nodes q = ss_nodes s \<and> ss_tasks q = ss_tasks s"

definition same_attempt :: "attempt_row \<Rightarrow> attempt_row \<Rightarrow> bool" where
  "same_attempt a b \<longleftrightarrow> at_id b = at_id a \<and> at_session b = at_session a \<and> at_index b = at_index a
     \<and> at_task b = at_task a"

definition same_run :: "run_row \<Rightarrow> run_row \<Rightarrow> bool" where
  "same_run r q \<longleftrightarrow> rn_id q = rn_id r \<and> rn_slug q = rn_slug r \<and> rn_version q = rn_version r
     \<and> rn_cap q = rn_cap r"

lemma session_study_runs:
  assumes "db_runs db' = tbl_update p g (db_runs db)" "\<And>r. same_run r (g r)"
    "db_versions db' = db_versions db" "ss_run q = ss_run s"
  shows "session_study sha db' q f = session_study sha db s f"
proof -
  have "load_snapshot sha db' v = load_snapshot sha db v" for v
    using assms(3) by (simp add: load_snapshot_def)
  moreover obtain h where h: "tbl_update p g (db_runs db) = map h (db_runs db)"
    "\<And>r. rn_id (h r) = rn_id r \<and> rn_version (h r) = rn_version r"
  proof (rule that [of "\<lambda>r. if p r then g r else r"])
    show "tbl_update p g (db_runs db) = map (\<lambda>r. if p r then g r else r) (db_runs db)"
      by (simp only: tbl_update_def)
    show "rn_id (if p r then g r else r) = rn_id r \<and> rn_version (if p r then g r else r) = rn_version r" for r
      using assms(2) [of r] by (simp add: same_run_def)
  qed
  ultimately show ?thesis
    using assms(4) by (simp add: session_study_def assms(1))
qed

lemma tbl_keys_map:
  "tbl_keys key t \<Longrightarrow> (\<And>r. key (g r) = key r) \<Longrightarrow> tbl_keys key (tbl_update p g t)"
  by (rule tbl_update_keys)

lemma image_tbl_update: "(\<And>r. key (g r) = key r) \<Longrightarrow> key ` set (tbl_update p g t) = key ` set t"
  unfolding tbl_update_set image_image by (rule image_cong) auto

lemma attempt_log_transfer:
  assumes "attempt_log_ok sha db a" "load_events db' (at_id a) = load_events db (at_id a)"
    "db_sessions db' = tbl_update p g (db_sessions db)" "\<And>s. same_session s (g s)"
    "\<And>q s f. ss_run q = ss_run s \<Longrightarrow> session_study sha db' q f = session_study sha db s f"
    "at_id b = at_id a" "at_session b = at_session a" "at_next_seq b = at_next_seq a"
    "at_event_bytes b = at_event_bytes a"
  shows "attempt_log_ok sha db' b"
proof -
  have "log_ok (session_index f q) (load_events db (at_id a))
      \<and> ok (replay (session_index f q) (load_events db (at_id a)))"
    if q: "q \<in> set (db_sessions db')" "ss_id q = at_session a" "session_study sha db' q f" for q f
  proof -
    obtain s where s: "s \<in> set (db_sessions db)" "q = s \<or> q = g s"
      using q(1) assms(3) by (auto simp: tbl_update_set split: if_splits)
    then have "ss_id q = ss_id s" "ss_run q = ss_run s" "session_index f q = session_index f s"
      using assms(4) [of s] by (auto simp: same_session_def session_index_def)
    with s(1) q assms(1,5) show ?thesis by (auto simp: attempt_log_ok_def)
  qed
  with assms show ?thesis by (auto simp: attempt_log_ok_def)
qed

section \<open>Enrolling\<close>

lemma insert_session_Inr: "insert_session r db = Inr db' \<longleftrightarrow> ss_run r \<in> rn_id ` set (db_runs db)
    \<and> (ss_run r, ss_identity r) \<notin> (\<lambda>s. (ss_run s, ss_identity s)) ` set (db_sessions db)
    \<and> ss_id r \<notin> ss_id ` set (db_sessions db) \<and> db' = db\<lparr>db_sessions := db_sessions db @ [r]\<rparr>"
  by (auto simp: insert_session_def tbl_insert_def tbl_lookup_None split: option.splits if_splits)

lemma new_session_Inr:
  assumes "new_session env engine f run identity req = Inr (s, rest)"
  shows "ss_run s = rn_id run \<and> ss_identity s = identity \<and> ss_index s = 0 \<and> ss_completed s = None
    \<and> ss_event_bytes s = 0 \<and> ss_id s = en_random env 0"
  using assms by (auto simp: new_session_def Let_def split: option.splits prod.splits if_splits)

definition enrolled_db :: "run_row \<Rightarrow> session_row \<Rightarrow> allocation list \<Rightarrow> invitation_row list \<Rightarrow> database \<Rightarrow> database" where
  "enrolled_db run s rest invs db = db\<lparr>db_sessions := db_sessions db @ [s], db_invitations := invs,
     db_runs := tbl_update (\<lambda>r. rn_id r = rn_id run)
       (\<lambda>r. r\<lparr>rn_allocation := rest, rn_data_bytes := rn_data_bytes r + ss_storage_bytes s\<rparr>) (db_runs db)\<rparr>"

definition invitation_spent ::
    "environment \<Rightarrow> run_row \<Rightarrow> string \<Rightarrow> session_row \<Rightarrow> invitation_row list \<Rightarrow> invitation_row list \<Rightarrow> bool" where
  "invitation_spent env run invite s invs invs' \<longleftrightarrow>
     (let p = usable_invitation (rn_id run) (en_sha env invite) (en_clock env 2)
      in valid_invitation_token invite \<and> tbl_count p invs = 1
         \<and> invs' = tbl_update p (\<lambda>i. i\<lparr>iv_used := Some (en_clock env 1), iv_session := Some (ss_id s)\<rparr>) invs)"

lemma enrol_Inr:
  assumes "enrol env engine f run identity req db = Inr (s, db')"
  shows "\<exists>rest invs. new_session env engine f run identity req = Inr (s, rest)
    \<and> rn_status run = ''open'' \<and> tbl_count (\<lambda>s. ss_run s = rn_id run) (db_sessions db) < rn_cap run
    \<and> ss_storage_bytes s \<le> max_session_event_data
    \<and> rn_data_bytes run + ss_storage_bytes s \<le> max_run_event_data
    \<and> (rn_id run, identity) \<notin> (\<lambda>s. (ss_run s, ss_identity s)) ` set (db_sessions db)
    \<and> ss_id s \<notin> ss_id ` set (db_sessions db) \<and> db' = enrolled_db run s rest invs db
    \<and> (if rn_recruitment run = ''invitation''
       then invitation_spent env run (jr_invite req) s (db_invitations db) invs
       else invs = db_invitations db)"
proof -
  from assms obtain rest db1 db2 where n: "new_session env engine f run identity req = Inr (s, rest)"
    and c: "rn_status run = ''open''" "tbl_count (\<lambda>s. ss_run s = rn_id run) (db_sessions db) < rn_cap run"
      "ss_storage_bytes s \<le> max_session_event_data"
      "rn_data_bytes run + ss_storage_bytes s \<le> max_run_event_data"
      "\<not> (rn_recruitment run = ''invitation'' \<and> \<not> valid_invitation_token (jr_invite req))"
    and db1: "insert_session s db = Inr db1" and db2: "spend_invitation env run (ss_id s) (jr_invite req) db1 = Inr db2"
    and db': "db' = db2\<lparr>db_runs := tbl_update (\<lambda>r. rn_id r = rn_id run)
       (\<lambda>r. r\<lparr>rn_allocation := rest, rn_data_bytes := rn_data_bytes r + ss_storage_bytes s\<rparr>) (db_runs db2)\<rparr>"
    by (auto simp: enrol_def not_le not_less split: if_splits)
  note s = new_session_Inr [OF n]
  have e: "db1 = db\<lparr>db_sessions := db_sessions db @ [s]\<rparr>" "ss_id s \<notin> ss_id ` set (db_sessions db)"
    "(rn_id run, identity) \<notin> (\<lambda>s. (ss_run s, ss_identity s)) ` set (db_sessions db)"
    using db1 s by (auto simp: insert_session_Inr)
  show ?thesis
  proof (cases "rn_recruitment run = ''invitation''")
    case True
    with db2 c(5) e(1) obtain invs where "db2 = db1\<lparr>db_invitations := invs\<rparr>"
      "invitation_spent env run (jr_invite req) s (db_invitations db) invs"
      by (auto simp: spend_invitation_def use_invitation_def Let_def invitation_spent_def split: if_splits)
    with n c e db' True show ?thesis
      by (intro exI [of _ rest] exI [of _ invs]) (simp add: enrolled_db_def)
  next
    case False
    with db2 have "db2 = db1" by (simp add: spend_invitation_def)
    then have "db' = enrolled_db run s rest (db_invitations db) db"
      unfolding db' e(1) enrolled_db_def by simp
    with n c e False show ?thesis
      by (intro exI [of _ rest] exI [of _ "db_invitations db"]) simp
  qed
qed

lemma enrolled_ok:
  assumes "db_ok sha db" "r \<in> set (db_runs db)" "rn_id r = rn_id run" "rn_data_bytes r = rn_data_bytes run"
    "rn_cap r = rn_cap run" "ss_run s = rn_id run" "ss_index s = 0" "ss_completed s = None" "ss_event_bytes s = 0"
    "tbl_count (\<lambda>s. ss_run s = rn_id run) (db_sessions db) < rn_cap run"
    "ss_storage_bytes s \<le> max_session_event_data"
    "rn_data_bytes run + ss_storage_bytes s \<le> max_run_event_data"
    "(ss_run s, ss_identity s) \<notin> (\<lambda>s. (ss_run s, ss_identity s)) ` set (db_sessions db)"
    "ss_id s \<notin> ss_id ` set (db_sessions db)"
  shows "db_ok sha (enrolled_db run s rest invs db)"
proof -
  define g :: "run_row \<Rightarrow> run_row"
    where "g = (\<lambda>r. r\<lparr>rn_allocation := rest, rn_data_bytes := rn_data_bytes r + ss_storage_bytes s\<rparr>)"
  define db' where "db' = enrolled_db run s rest invs db"
  note parts = assms(1) [unfolded db_ok_def]
  have fr: "db_versions db' = db_versions db" "db_attempts db' = db_attempts db" "db_events db' = db_events db"
    "db_commands db' = db_commands db" "db_sessions db' = db_sessions db @ [s]"
    "db_runs db' = tbl_update (\<lambda>r. rn_id r = rn_id run) g (db_runs db)"
    by (simp_all add: db'_def enrolled_db_def g_def)
  have g: "same_run r (g r)" for r by (simp add: g_def same_run_def)
  have no: "\<forall>a \<in> set (db_attempts db). at_session a \<noteq> ss_id s"
  proof
    fix a assume "a \<in> set (db_attempts db)"
    then have "at_session a \<in> ss_id ` set (db_sessions db)" using parts by (auto simp: refs_ok_def)
    with assms(14) show "at_session a \<noteq> ss_id s" by metis
  qed
  have "keys_ok db'"
    using parts assms(13,14) by (auto simp: keys_ok_def fr tbl_keys_snoc g_def intro!: tbl_keys_map)
  moreover have "refs_ok db'"
  proof -
    have "rn_id ` set (db_runs db') = rn_id ` set (db_runs db)"
      unfolding fr by (rule image_tbl_update) (simp add: g_def)
    moreover have "ss_run s \<in> rn_id ` set (db_runs db)" using assms(2,3,6) by (metis imageI)
    ultimately show ?thesis using parts by (auto simp: refs_ok_def fr(2-5))
  qed
  moreover have "event_rows_ok db'" using parts event_rows_frame [OF fr(3)] by simp
  moreover have "logs_ok sha db'"
    unfolding logs_ok_def fr(2)
  proof
    fix a assume a: "a \<in> set (db_attempts db)"
    then have l: "attempt_log_ok sha db a" using parts by (simp add: logs_ok_def)
    have study: "session_study sha db' q f = session_study sha db q f" for q f
      using session_study_runs [OF fr(6) g fr(1) refl] .
    show "attempt_log_ok sha db' a"
      using l no a unfolding attempt_log_ok_def load_events_frame [OF fr(3)] fr(5) study by auto
  qed
  moreover have "accounts_ok db'"
  proof -
    have "session_account_ok db' q" if "q \<in> set (db_sessions db')" for q
    proof (cases "q = s")
      case True
      with no assms(9,11) show ?thesis by (simp add: session_account_ok_def fr(2) tbl_sum_none)
    next
      case False
      with that parts account_frames(1) [OF fr(2)] show ?thesis by (simp add: fr(5) accounts_ok_def)
    qed
    moreover have "run_account_ok db' q" if q: "q \<in> set (db_runs db')" for q
    proof -
      obtain p where p: "p \<in> set (db_runs db)" "q = (if rn_id p = rn_id run then g p else p)"
        using q by (auto simp: fr(6) tbl_update_set)
      then have "run_account_ok db p" using parts by (simp add: accounts_ok_def)
      moreover have "p = r" if "rn_id p = rn_id run"
        using keys_ok_eq(1) [of db p r] that p(1) assms(2,3) parts by simp
      ultimately show ?thesis
        using p(2) assms(4,6,9,12) by (auto simp: run_account_ok_def fr(5) g_def)
    qed
    ultimately show ?thesis by (simp add: accounts_ok_def)
  qed
  moreover have "caps_ok db'"
    unfolding caps_ok_def
  proof
    fix q assume "q \<in> set (db_runs db')"
    then obtain p where p: "p \<in> set (db_runs db)" "q = (if rn_id p = rn_id run then g p else p)"
      by (auto simp: fr(6) tbl_update_set)
    have "p = r" if "rn_id p = rn_id run"
      using keys_ok_eq(1) [of db p r] that p(1) assms(2,3) parts by simp
    with p parts assms(5,6,10) show "tbl_count (\<lambda>s. ss_run s = rn_id q) (db_sessions db') \<le> rn_cap q"
      by (auto simp: fr(5) caps_ok_def g_def tbl_count_def)
  qed
  moreover have "progress_ok db'"
    unfolding progress_ok_def
  proof
    fix q assume "q \<in> set (db_sessions db')"
    then consider "q \<in> set (db_sessions db)" | "q = s" by (auto simp: fr(5))
    then show "session_progress db' q"
    proof cases
      case 1
      with parts session_progress_frame [OF fr(2)] show ?thesis by (simp add: progress_ok_def)
    next
      case 2
      with no assms(7,8) show ?thesis by (simp add: session_progress_def fr(2))
    qed
  qed
  ultimately show ?thesis by (simp add: db_ok_def db'_def)
qed

end
