(* ===== verification/ParticipantLog.thy ===== *)
theory ParticipantLog
  imports ParticipantSteps
begin

text \<open>
  Appending to the log of an attempt and finishing it: the transitions of the \<open>events\<close> and
  \<open>finish\<close> handlers keep the invariants of \<open>ParticipantInv\<close>.
\<close>

section \<open>Inserting the new events\<close>

lemma insert_event_Inr: "insert_event r db = Inr db' \<longleftrightarrow> ev_attempt r \<in> at_id ` set (db_attempts db)
    \<and> (ev_attempt r, ev_id r) \<notin> (\<lambda>e. (ev_attempt e, ev_id e)) ` set (db_events db)
    \<and> (ev_attempt r, ev_seq r) \<notin> (\<lambda>e. (ev_attempt e, ev_seq e)) ` set (db_events db)
    \<and> db' = db\<lparr>db_events := db_events db @ [r]\<rparr>"
  by (auto simp: insert_event_def tbl_insert_def tbl_lookup_None split: option.splits if_splits)

definition event_row_of :: "string \<Rightarrow> event_row \<Rightarrow> bool" where
  "event_row_of i r \<longleftrightarrow> ev_attempt r = i \<and> ev_seq r = e_seq (ev_event r) \<and> ev_id r = e_id (ev_event r)"

lemma insert_events_Inr:
  assumes "insert_events i clock es db = Inr db'"
    "tbl_keys (\<lambda>e. (ev_attempt e, ev_seq e)) (db_events db)"
  shows "\<exists>rows. db' = db\<lparr>db_events := db_events db @ rows\<rparr> \<and> map ev_event rows = es
    \<and> (\<forall>r \<in> set rows. event_row_of i r)
    \<and> tbl_keys (\<lambda>e. (ev_attempt e, ev_seq e)) (db_events db @ rows)
    \<and> (rows \<noteq> [] \<longrightarrow> i \<in> at_id ` set (db_attempts db))"
  using assms
proof (induction es arbitrary: db clock)
  case Nil
  then show ?case by (intro exI [of _ "[]"]) simp
next
  case (Cons e es)
  define r where "r = \<lparr>ev_attempt = i, ev_seq = e_seq e, ev_id = e_id e, ev_event = e, ev_received = clock 0\<rparr>"
  from Cons.prems(1) obtain db1 where db1: "insert_event r db = Inr db1"
    "insert_events i (\<lambda>k. clock (Suc k)) es db1 = Inr db'" by (auto simp: r_def)
  have ins: "i \<in> at_id ` set (db_attempts db)" "db1 = db\<lparr>db_events := db_events db @ [r]\<rparr>"
    "tbl_keys (\<lambda>e. (ev_attempt e, ev_seq e)) (db_events db1)"
    using db1(1) Cons.prems(2) by (auto simp: insert_event_Inr tbl_keys_snoc) (simp add: r_def)
  from Cons.IH [OF db1(2) ins(3)] obtain rows where "db' = db1\<lparr>db_events := db_events db1 @ rows\<rparr>"
    "map ev_event rows = es" "\<forall>r \<in> set rows. event_row_of i r"
    "tbl_keys (\<lambda>e. (ev_attempt e, ev_seq e)) (db_events db1 @ rows)" by blast
  with ins show ?case
    by (intro exI [of _ "r # rows"]) (simp add: r_def event_row_of_def)
qed

lemma events_of_append: "db_events db' = db_events db @ rows \<Longrightarrow> \<forall>r \<in> set rows. event_row_of i r \<Longrightarrow>
    events_of db' j = events_of db j @ (if j = i then rows else [])"
  by (auto simp: events_of_def event_row_of_def filter_id_conv filter_empty_conv)

lemma load_events_sorted: "sorted (map ev_seq (events_of db i)) \<Longrightarrow> load_events db i = map ev_event (events_of db i)"
  by (simp add: load_events_def events_of_def sorted_sort_id sort_key_id_if_sorted)

lemma append_rows:
  assumes "db_events db' = db_events db @ rows" "\<forall>r \<in> set rows. event_row_of i r" "event_rows_ok db"
    "map ev_event rows = drop (length (load_events db i)) log" "take (length (load_events db i)) log = load_events db i"
    "log_ok idx log"
  shows "event_rows_ok db' \<and> load_events db' i = log \<and> (\<forall>j. j \<noteq> i \<longrightarrow> load_events db' j = load_events db j)"
proof -
  note ev = events_of_append [OF assms(1,2)]
  have s: "sorted (map ev_seq (events_of db j))" for j using assms(3) by (simp add: event_rows_ok_def)
  have log: "map ev_event (events_of db i @ rows) = log"
    using assms(4,5) load_events_sorted [OF s, of i] by (metis append_take_drop_id map_append)
  have "map ev_seq (events_of db i @ rows) = map e_seq (map ev_event (events_of db i @ rows))"
    using assms(2,3) by (auto simp: event_rows_ok_def events_of_def event_row_of_def)
  also have "\<dots> = map (\<lambda>i. int i + 1) [0..<length log]" using assms(6) log by (simp add: log_ok_def)
  finally have sorted_i: "sorted (map ev_seq (events_of db i @ rows))"
    by (simp add: sorted_iff_nth_mono)
  have sorted': "sorted (map ev_seq (events_of db' j))" for j
    using sorted_i s ev by (cases "j = i") simp_all
  have "\<forall>e \<in> set (db_events db'). ev_seq e = e_seq (ev_event e) \<and> ev_id e = e_id (ev_event e)"
    using assms(1-3) by (auto simp: event_rows_ok_def event_row_of_def)
  then show ?thesis
    using sorted' ev log load_events_sorted [OF s] load_events_sorted [OF sorted']
    by (simp add: event_rows_ok_def)
qed

section \<open>The transition of \<open>appendEvents\<close>\<close>

definition count_attempt :: "nat \<Rightarrow> nat \<Rightarrow> attempt_row \<Rightarrow> attempt_row" where
  "count_attempt n added r = r\<lparr>at_next_seq := n, at_event_bytes := at_event_bytes r + added\<rparr>"

definition count_session :: "nat \<Rightarrow> session_row \<Rightarrow> session_row" where
  "count_session added r = r\<lparr>ss_event_bytes := ss_event_bytes r + added\<rparr>"

definition count_run :: "nat \<Rightarrow> run_row \<Rightarrow> run_row" where
  "count_run added r = r\<lparr>rn_event_bytes := rn_event_bytes r + added, rn_data_bytes := rn_data_bytes r + added\<rparr>"

lemmas count_defs = count_attempt_def count_session_def count_run_def

lemma session_progress_update:
  assumes "session_progress db p" "db_attempts db' = tbl_update P h (db_attempts db)"
    "\<And>b. same_attempt b (h b) \<and> at_finished (h b) = at_finished b"
    "ss_id q = ss_id p" "ss_index q = ss_index p" "ss_tasks q = ss_tasks p" "ss_completed q = ss_completed p"
  shows "session_progress db' q"
proof -
  define k where "k = (\<lambda>b. if P b then h b else b)"
  have set: "set (db_attempts db') = k ` set (db_attempts db)"
    unfolding assms(2) tbl_update_set k_def ..
  have k: "at_session (k b) = at_session b" "at_index (k b) = at_index b"
    "attempt_progress q (k b) = attempt_progress p b" for b
    using assms(3) [of b] assms(4-7) by (simp_all add: k_def same_attempt_def attempt_progress_def)
  show ?thesis
    using assms(1) unfolding session_progress_def assms(4-7) set ball_simps bex_simps k .
qed

lemma append_events_Inr:
  assumes "append_events clock s f a incoming terminal db = Inr (log, a1, s1, db1)"
  shows "\<exists>run added db0. tbl_lookup rn_id (ss_run s) (db_runs db) = Some run
    \<and> extend_log (session_index f s) (at_finished a \<noteq> None \<or> at_index a \<noteq> ss_index s) (at_event_bytes a)
        (ss_storage_bytes s) (ss_event_bytes s) (rn_data_bytes run) (load_events db (at_id a)) incoming terminal
        = Inr (log, added)
    \<and> insert_events (at_id a) clock (drop (length (load_events db (at_id a))) log) db = Inr db0
    \<and> a1 = count_attempt (length log + 1) added a \<and> s1 = count_session added s
    \<and> db1 = db0\<lparr>db_attempts := tbl_update (\<lambda>r. at_id r = at_id a) (count_attempt (length log + 1) added) (db_attempts db0),
          db_sessions := tbl_update (\<lambda>r. ss_id r = ss_id s) (count_session added) (db_sessions db0),
          db_runs := tbl_update (\<lambda>r. rn_id r = ss_run s) (count_run added) (db_runs db0)\<rparr>"
  using assms
  by (auto simp: append_events_def Let_def session_index_def count_defs [abs_def] split: option.splits)

lemma append_ok:
  assumes ok: "db_ok sha db"
    and app: "append_events clock s f a incoming terminal db = Inr (log, a1, s1, db1)"
    and s: "s \<in> set (db_sessions db)" and a: "a \<in> set (db_attempts db)" "at_session a = ss_id s"
    and study: "session_study sha db s f"
  shows "db_ok sha db1 \<and> a1 \<in> set (db_attempts db1) \<and> s1 \<in> set (db_sessions db1)
    \<and> load_events db1 (at_id a) = log \<and> same_attempt a a1 \<and> at_finished a1 = at_finished a
    \<and> at_policy a1 = at_policy a \<and> same_session s s1 \<and> ss_index s1 = ss_index s
    \<and> session_study sha db1 s1 f \<and> log_ok (session_index f s) log \<and> ok (replay (session_index f s) log)
    \<and> db_commands db1 = db_commands db \<and> db_versions db1 = db_versions db"
proof -
  note parts = ok [unfolded db_ok_def]
  obtain run added db0 where run: "tbl_lookup rn_id (ss_run s) (db_runs db) = Some run"
    and ext: "extend_log (session_index f s) (at_finished a \<noteq> None \<or> at_index a \<noteq> ss_index s) (at_event_bytes a)
        (ss_storage_bytes s) (ss_event_bytes s) (rn_data_bytes run) (load_events db (at_id a)) incoming terminal
        = Inr (log, added)"
    and ins: "insert_events (at_id a) clock (drop (length (load_events db (at_id a))) log) db = Inr db0"
    and a1: "a1 = count_attempt (length log + 1) added a" and s1: "s1 = count_session added s"
    and db1: "db1 = db0\<lparr>db_attempts := tbl_update (\<lambda>r. at_id r = at_id a) (count_attempt (length log + 1) added) (db_attempts db0),
          db_sessions := tbl_update (\<lambda>r. ss_id r = ss_id s) (count_session added) (db_sessions db0),
          db_runs := tbl_update (\<lambda>r. rn_id r = ss_run s) (count_run added) (db_runs db0)\<rparr>"
    using append_events_Inr [OF app] by blast
  have run': "run \<in> set (db_runs db)" "rn_id run = ss_run s" using run by (auto dest: tbl_lookup_Some)
  have "attempt_log_ok sha db a" using parts a by (simp add: logs_ok_def)
  then have saved: "log_ok (session_index f s) (load_events db (at_id a))"
    "at_event_bytes a = bytes_of (load_events db (at_id a))"
    using s a study by (auto simp: attempt_log_ok_def)
  obtain new where new: "log = load_events db (at_id a) @ new" "log_ok (session_index f s) log"
    "added = bytes_of new" "at_event_bytes a + added \<le> max_attempt_event_data"
    "ss_storage_bytes s + ss_event_bytes s + added \<le> max_session_event_data"
    "rn_data_bytes run + added \<le> max_run_event_data" "ok (replay (session_index f s) log)"
    using extend_log_keeps [OF saved(1) ext] by blast
  have "tbl_keys (\<lambda>e. (ev_attempt e, ev_seq e)) (db_events db)" using parts by (simp add: keys_ok_def)
  from insert_events_Inr [OF ins this] obtain rows where rows: "db0 = db\<lparr>db_events := db_events db @ rows\<rparr>"
    "map ev_event rows = new" "\<forall>r \<in> set rows. event_row_of (at_id a) r"
    "tbl_keys (\<lambda>e. (ev_attempt e, ev_seq e)) (db_events db @ rows)" using new(1) by auto
  have fr: "db_versions db1 = db_versions db" "db_events db1 = db_events db @ rows"
    "db_commands db1 = db_commands db" "db_invitations db1 = db_invitations db"
    "db_attempts db1 = tbl_update (\<lambda>r. at_id r = at_id a) (count_attempt (length log + 1) added) (db_attempts db)"
    "db_sessions db1 = tbl_update (\<lambda>r. ss_id r = ss_id s) (count_session added) (db_sessions db)"
    "db_runs db1 = tbl_update (\<lambda>r. rn_id r = ss_run s) (count_run added) (db_runs db)"
    by (simp_all add: db1 rows(1))
  have same: "same_session q (count_session added q)" "same_attempt b (count_attempt n added b)"
    "same_run r (count_run added r)" for q b r n
    by (simp_all add: same_session_def same_attempt_def same_run_def count_defs)
  have logs: "event_rows_ok db1" "load_events db1 (at_id a) = log"
    "\<And>j. j \<noteq> at_id a \<Longrightarrow> load_events db1 j = load_events db j"
    using append_rows [OF fr(2) rows(3) _ _ _ new(2)] parts rows(2) new(1) by auto
  have st: "session_study sha db1 q g = session_study sha db q' g" if "ss_run q = ss_run q'" for q q' g
    by (rule session_study_runs [OF fr(7) same(3) fr(1) that])
  have keys: "keys_ok db1"
    using parts rows(4) by (auto simp: keys_ok_def fr count_defs intro!: tbl_keys_map)
  have refs: "refs_ok db1"
  proof -
    have "at_id ` set (db_attempts db1) = at_id ` set (db_attempts db)"
      "at_session ` set (db_attempts db1) = at_session ` set (db_attempts db)"
      "ss_id ` set (db_sessions db1) = ss_id ` set (db_sessions db)"
      "ss_run ` set (db_sessions db1) = ss_run ` set (db_sessions db)"
      "rn_id ` set (db_runs db1) = rn_id ` set (db_runs db)"
      unfolding fr by (rule image_tbl_update; simp add: count_defs)+
    moreover have "ev_attempt ` set (db_events db1) \<subseteq> at_id ` set (db_attempts db)"
      using parts rows(3) a(1) by (auto simp: refs_ok_def fr(2) event_row_of_def)
    ultimately show ?thesis using parts by (simp add: refs_ok_def fr(3))
  qed
  have a1_in: "a1 \<in> set (db_attempts db1)" using a(1) by (auto simp: fr(5) a1 tbl_update_set)
  have s1_in: "s1 \<in> set (db_sessions db1)" using s by (auto simp: fr(6) s1 tbl_update_set)
  have log_all: "logs_ok sha db1"
    unfolding logs_ok_def
  proof
    fix b assume "b \<in> set (db_attempts db1)"
    then obtain c where c: "c \<in> set (db_attempts db)"
      "b = (if at_id c = at_id a then count_attempt (length log + 1) added c else c)"
      by (auto simp: fr(5) tbl_update_set)
    show "attempt_log_ok sha db1 b"
    proof (cases "at_id c = at_id a")
      case False
      have "attempt_log_ok sha db c" using c(1) parts by (simp add: logs_ok_def)
      then show ?thesis
        by (rule attempt_log_transfer [OF _ _ fr(6) same(1) st]) (use False c(2) logs(3) in simp_all)
    next
      case True
      then have "c = a" using keys_ok_eq(3) c(1) a(1) parts by blast
      then have b: "at_id b = at_id a" "at_session b = ss_id s" "at_next_seq b = length log + 1"
        "at_event_bytes b = bytes_of log"
        using c(2) a(2) saved(2) new(1,3) by (simp_all add: count_defs)
      have "log_ok (session_index g q) log \<and> ok (replay (session_index g q) log)"
        if q: "q \<in> set (db_sessions db1)" "ss_id q = ss_id s" "session_study sha db1 q g" for q g
      proof -
        have "q = s1" using keys_ok_eq(2) [OF keys q(1) s1_in] q(2) by (simp add: s1 count_defs)
        then have "session_study sha db s g" "session_index g q = session_index g s"
          using q(3) st [of q s g] by (simp_all add: s1 count_defs session_index_def)
        with session_study_unique [OF _ study, of g] parts new(2,7) show ?thesis by simp
      qed
      then show ?thesis using b logs(2) new(1,3,4) saved(2) by (simp add: attempt_log_ok_def)
    qed
  qed
  have accounts: "accounts_ok db1"
  proof -
    have sa: "tbl_sum (\<lambda>b. at_session b = ss_id q) at_event_bytes (db_attempts db1) =
        tbl_sum (\<lambda>b. at_session b = ss_id q) at_event_bytes (db_attempts db) + (if ss_id s = ss_id q then added else 0)" for q
      unfolding fr(5) using parts a
      by (subst tbl_sum_update_one [where r = a and d = added]) (auto simp: keys_ok_def count_defs)
    have sb: "tbl_sum (\<lambda>q. ss_run q = rn_id r) ss_event_bytes (db_sessions db1) =
        tbl_sum (\<lambda>q. ss_run q = rn_id r) ss_event_bytes (db_sessions db) + (if ss_run s = rn_id r then added else 0)" for r
      unfolding fr(6) using parts s
      by (subst tbl_sum_update_one [where r = s and d = added]) (auto simp: keys_ok_def count_defs)
    have sc: "tbl_sum (\<lambda>q. ss_run q = rn_id r) (\<lambda>q. ss_storage_bytes q + ss_event_bytes q) (db_sessions db1) =
        tbl_sum (\<lambda>q. ss_run q = rn_id r) (\<lambda>q. ss_storage_bytes q + ss_event_bytes q) (db_sessions db)
          + (if ss_run s = rn_id r then added else 0)" for r
      unfolding fr(6) using parts s
      by (subst tbl_sum_update_one [where r = s and d = added]) (auto simp: keys_ok_def count_defs)
    have "session_account_ok db1 q" if q: "q \<in> set (db_sessions db1)" for q
    proof -
      obtain p where p: "p \<in> set (db_sessions db)" "q = (if ss_id p = ss_id s then count_session added p else p)"
        using q by (auto simp: fr(6) tbl_update_set)
      have "p = s" if "ss_id p = ss_id s" using keys_ok_eq(2) that p(1) s parts by blast
      moreover have "session_account_ok db p" using parts p(1) by (simp add: accounts_ok_def)
      ultimately show ?thesis
        using p(2) new(5) by (auto simp: session_account_ok_def sa count_defs)
    qed
    moreover have "run_account_ok db1 q" if q: "q \<in> set (db_runs db1)" for q
    proof -
      obtain p where p: "p \<in> set (db_runs db)" "q = (if rn_id p = ss_run s then count_run added p else p)"
        using q by (auto simp: fr(7) tbl_update_set)
      have "p = run" if "rn_id p = ss_run s" using keys_ok_eq(1) that p(1) run' parts by metis
      moreover have "run_account_ok db p" using parts p(1) by (simp add: accounts_ok_def)
      ultimately show ?thesis
        using p(2) new(6) by (auto simp: run_account_ok_def sb sc count_defs)
    qed
    ultimately show ?thesis by (simp add: accounts_ok_def)
  qed
  have caps: "caps_ok db1"
    unfolding caps_ok_def
  proof
    fix q assume "q \<in> set (db_runs db1)"
    then obtain p where p: "p \<in> set (db_runs db)" "q = (if rn_id p = ss_run s then count_run added p else p)"
      by (auto simp: fr(7) tbl_update_set)
    have "tbl_count (\<lambda>s. ss_run s = rn_id q) (db_sessions db1) = tbl_count (\<lambda>s. ss_run s = rn_id q) (db_sessions db)"
      unfolding fr(6) tbl_count_sum by (rule tbl_sum_update_same) (simp add: count_defs)
    with p parts show "tbl_count (\<lambda>s. ss_run s = rn_id q) (db_sessions db1) \<le> rn_cap q"
      by (auto simp: caps_ok_def count_defs)
  qed
  have progress: "progress_ok db1"
    unfolding progress_ok_def
  proof
    fix q assume "q \<in> set (db_sessions db1)"
    then obtain p where p: "p \<in> set (db_sessions db)" "q = (if ss_id p = ss_id s then count_session added p else p)"
      by (auto simp: fr(6) tbl_update_set)
    have q: "ss_id q = ss_id p" "ss_index q = ss_index p" "ss_tasks q = ss_tasks p" "ss_completed q = ss_completed p"
      using p(2) by (auto simp: count_defs)
    have "session_progress db p" using parts p(1) by (simp add: progress_ok_def)
    then show "session_progress db1 q"
      by (rule session_progress_update [OF _ fr(5) _ q]) (simp add: same_attempt_def count_defs)
  qed
  have "db_ok sha db1"
    using keys refs logs(1) log_all accounts caps progress by (simp add: db_ok_def)
  then show ?thesis
    using a1_in s1_in logs(2) new(2,7) st [of s1 s f] study fr(1,3)
    by (simp add: a1 s1 count_defs same_session_def same_attempt_def)
qed

section \<open>The transition of \<open>finish\<close>\<close>

lemma finish_update_ok:
  assumes ok: "db_ok sha db" and a: "a \<in> set (db_attempts db)" and s: "s \<in> set (db_sessions db)"
    and as: "at_session a = ss_id s" "at_index a = ss_index s" "at_finished a = None"
    and g: "\<And>r. same_attempt r (g r) \<and> at_finished (g r) = Some now \<and> at_next_seq (g r) = at_next_seq r
      \<and> at_event_bytes (g r) = at_event_bytes r"
    and completed: "completed = (if ss_index s + 1 = length (ss_tasks s) then Some now else None)"
  shows "db_ok sha (finish_update (at_id a) g (ss_id s) (ss_index s + 1) completed db)"
proof -
  define h :: "session_row \<Rightarrow> session_row" where "h = (\<lambda>r. r\<lparr>ss_index := ss_index s + 1, ss_completed := completed\<rparr>)"
  define db' where "db' = finish_update (at_id a) g (ss_id s) (ss_index s + 1) completed db"
  note parts = ok [unfolded db_ok_def]
  have fr: "db_versions db' = db_versions db" "db_runs db' = db_runs db" "db_events db' = db_events db"
    "db_commands db' = db_commands db"
    "db_attempts db' = tbl_update (\<lambda>r. at_id r = at_id a) g (db_attempts db)"
    "db_sessions db' = tbl_update (\<lambda>r. ss_id r = ss_id s) h (db_sessions db)"
    by (simp_all add: db'_def finish_update_def h_def)
  have h: "same_session q (h q)" for q by (simp add: h_def same_session_def)
  have gs: "at_id (g r) = at_id r" "at_session (g r) = at_session r" "at_index (g r) = at_index r"
    "at_task (g r) = at_task r" "at_event_bytes (g r) = at_event_bytes r" for r
    using g [of r] by (simp_all add: same_attempt_def)
  have prog: "session_progress db s" using parts s by (simp add: progress_ok_def)
  then have len: "ss_index s < length (ss_tasks s)"
    using a as by (auto simp: session_progress_def attempt_progress_def)
  have "keys_ok db'"
    using parts by (auto simp: keys_ok_def fr h_def gs intro!: tbl_keys_map)
  moreover have "refs_ok db'"
  proof -
    have "at_id ` set (db_attempts db') = at_id ` set (db_attempts db)"
      "at_session ` set (db_attempts db') = at_session ` set (db_attempts db)"
      "ss_id ` set (db_sessions db') = ss_id ` set (db_sessions db)"
      "ss_run ` set (db_sessions db') = ss_run ` set (db_sessions db)"
      unfolding fr by (rule image_tbl_update; simp add: gs h_def)+
    with parts show ?thesis by (simp add: refs_ok_def fr)
  qed
  moreover have "event_rows_ok db'" using parts event_rows_frame [OF fr(3)] by simp
  moreover have "logs_ok sha db'"
    unfolding logs_ok_def
  proof
    fix b assume "b \<in> set (db_attempts db')"
    then obtain c where c: "c \<in> set (db_attempts db)" "b = (if at_id c = at_id a then g c else c)"
      by (auto simp: fr(5) tbl_update_set)
    have st: "session_study sha db' q f = session_study sha db q' f" if "ss_run q = ss_run q'" for q q' f
      using that by (simp add: session_study_def fr(1,2) load_snapshot_def)
    have "attempt_log_ok sha db c" using c(1) parts by (simp add: logs_ok_def)
    then show "attempt_log_ok sha db' b"
      by (rule attempt_log_transfer [OF _ load_events_frame [OF fr(3)] fr(6) h st])
        (use g [of c] c(2) in \<open>auto simp: same_attempt_def\<close>)
  qed
  moreover have "accounts_ok db'"
  proof -
    have sums: "tbl_sum (\<lambda>b. at_session b = x) at_event_bytes (db_attempts db') =
        tbl_sum (\<lambda>b. at_session b = x) at_event_bytes (db_attempts db)"
      "tbl_sum (\<lambda>q. ss_run q = y) ss_event_bytes (db_sessions db') =
        tbl_sum (\<lambda>q. ss_run q = y) ss_event_bytes (db_sessions db)"
      "tbl_sum (\<lambda>q. ss_run q = y) (\<lambda>q. ss_storage_bytes q + ss_event_bytes q) (db_sessions db') =
        tbl_sum (\<lambda>q. ss_run q = y) (\<lambda>q. ss_storage_bytes q + ss_event_bytes q) (db_sessions db)" for x y
      unfolding fr by (rule tbl_sum_update_same; simp add: gs h_def)+
    have "session_account_ok db' q" if q: "q \<in> set (db_sessions db')" for q
    proof -
      obtain p where p: "p \<in> set (db_sessions db)" "q = (if ss_id p = ss_id s then h p else p)"
        using q by (auto simp: fr(6) tbl_update_set)
      have "session_account_ok db p" using p(1) parts by (simp add: accounts_ok_def)
      with p(2) show ?thesis by (auto simp: session_account_ok_def sums h_def)
    qed
    moreover have "run_account_ok db' r = run_account_ok db r" for r
      by (simp add: run_account_ok_def sums)
    ultimately show ?thesis using parts by (simp add: accounts_ok_def fr(2))
  qed
  moreover have "caps_ok db'"
  proof -
    have "tbl_count (\<lambda>s. ss_run s = x) (db_sessions db') = tbl_count (\<lambda>s. ss_run s = x) (db_sessions db)" for x
      unfolding fr(6) tbl_count_sum by (rule tbl_sum_update_same) (simp add: h_def)
    with parts show ?thesis by (simp add: caps_ok_def fr(2))
  qed
  moreover have "progress_ok db'"
    unfolding progress_ok_def
  proof
    fix q assume "q \<in> set (db_sessions db')"
    then obtain p where p: "p \<in> set (db_sessions db)" "q = (if ss_id p = ss_id s then h p else p)"
      by (auto simp: fr(6) tbl_update_set)
    define k where "k = (\<lambda>b. if at_id b = at_id a then g b else b)"
    have set: "set (db_attempts db') = k ` set (db_attempts db)" by (simp only: fr(5) tbl_update_set k_def)
    have k: "at_session (k b) = at_session b" "at_index (k b) = at_index b" "at_task (k b) = at_task b" for b
      by (simp_all add: k_def gs)
    have pp: "session_progress db p" using parts p(1) by (simp add: progress_ok_def)
    show "session_progress db' q"
    proof (cases "ss_id p = ss_id s")
      case False
      then have "at_id b \<noteq> at_id a" if "b \<in> set (db_attempts db)" "at_session b = ss_id p" for b
        using keys_ok_eq(3) [of db b a] that a as(1) parts by auto
      then have all: "attempt_progress p (k b)" if "b \<in> set (db_attempts db)" "at_session b = ss_id p" for b
        using pp that by (simp add: session_progress_def k_def)
      have q: "q = p" using False p(2) by simp
      show ?thesis
        using pp all unfolding session_progress_def set ball_simps bex_simps k q by (elim conjE; intro conjI; blast)
    next
      case True
      then have "p = s" using keys_ok_eq(2) p(1) s parts by blast
      then have q: "q = h s" using True p(2) by simp
      have ex: "\<exists>b \<in> set (db_attempts db). at_session b = ss_id s \<and> at_index b = i" if "i < ss_index s + 1" for i
        using that prog a as by (cases "i = ss_index s") (auto simp: session_progress_def)
      have all: "attempt_progress (h s) (k b)" if b: "b \<in> set (db_attempts db)" "at_session b = ss_id s" for b
      proof -
        have pb: "attempt_progress s b" using prog b by (simp add: session_progress_def)
        show ?thesis
        proof (cases "at_id b = at_id a")
          case True
          then have "b = a" using keys_ok_eq(3) b(1) a parts by blast
          with pb as g [of a] show ?thesis
            by (auto simp: attempt_progress_def k_def h_def same_attempt_def)
        next
          case False
          then have "at_index b \<noteq> ss_index s"
            using keys_ok_eq(4) [of db b a] b a as parts by auto
          with pb False show ?thesis by (auto simp: attempt_progress_def k_def h_def)
        qed
      qed
      have hs: "ss_id (h s) = ss_id s" "ss_index (h s) = ss_index s + 1" "ss_tasks (h s) = ss_tasks s"
        "ss_completed (h s) = completed" by (simp_all add: h_def)
      show ?thesis
        unfolding session_progress_def set ball_simps bex_simps k q hs
      proof (intro conjI)
        show "ss_index s + 1 \<le> length (ss_tasks s)" using len by simp
        show "completed \<noteq> None \<longrightarrow> ss_index s + 1 = length (ss_tasks s)"
          "0 < ss_index s + 1 \<longrightarrow> ss_index s + 1 = length (ss_tasks s) \<longrightarrow> completed \<noteq> None"
          by (simp_all add: completed)
        show "\<forall>i<ss_index s + 1. \<exists>x\<in>set (db_attempts db). at_session x = ss_id s \<and> at_index x = i"
          using ex by blast
        show "\<forall>x\<in>set (db_attempts db). at_session x = ss_id s \<longrightarrow> attempt_progress (h s) (k x)"
          using all by blast
      qed
    qed
  qed
  ultimately show ?thesis by (simp add: db_ok_def db'_def)
qed

end
