(* ===== verification/ParticipantSafety.thy ===== *)
theory ParticipantSafety
  imports ParticipantLog
begin

text \<open>
  The participant handlers as transactions. The locale states what every handler promises (an error
  leaves the database alone, the invariant of the server is kept) and what follows for a sequence of
  requests; every handler interprets it. A step relation over all handlers gives the reachable
  states, and the invariants of \<open>ParticipantInv\<close> hold in each of them.
\<close>

definition server_ok :: "(string \<Rightarrow> string) \<Rightarrow> server \<Rightarrow> bool" where
  "server_ok sha sv \<longleftrightarrow> db_ok sha (sv_db sv) \<and> limiter_ok (sv_windows sv)"

section \<open>The contract of a handler\<close>

locale transactional =
  fixes handle :: "environment \<Rightarrow> 'q \<Rightarrow> server \<Rightarrow> 'a result \<times> server"
  assumes rollback: "handle env req sv = (Inl e, sv') \<Longrightarrow> sv_db sv' = sv_db sv"
    and keeps: "server_ok (en_sha env) sv \<Longrightarrow> handle env req sv = (r, sv') \<Longrightarrow> server_ok (en_sha env) sv'"
begin

lemma serve_ok:
  "server_ok sha sv \<Longrightarrow> \<forall>(env, req) \<in> set reqs. en_sha env = sha \<Longrightarrow>
    server_ok sha (foldl (\<lambda>sv (env, req). snd (handle env req sv)) sv reqs)"
proof (induction reqs arbitrary: sv)
  case (Cons q reqs)
  obtain env req where q: "q = (env, req)" by force
  have "server_ok sha (snd (handle env req sv))"
    using keeps [of env sv req "fst (handle env req sv)" "snd (handle env req sv)"] Cons.prems q by auto
  with Cons q show ?case by auto
qed simp

lemma changed_means_success:
  "handle env req sv = (r, sv') \<Longrightarrow> sv_db sv' \<noteq> sv_db sv \<Longrightarrow> \<exists>a. r = Inr a"
  using rollback by (cases r) auto

end

section \<open>The charge of a request\<close>

lemma charged_ok:
  assumes "server_ok sha sv" "limit_participant t run identity op rep (sv_windows sv) = (w, e)"
  shows "server_ok sha (sv\<lparr>sv_windows := w\<rparr>)"
  using assms(1) limit_participant_ok [OF _ assms(2)] by (simp add: server_ok_def)

section \<open>Joining\<close>

text \<open>The result of \<open>join\<close> once its guards are passed.\<close>

lemma join_cases:
  assumes "join env req sv = (r, sv')"
  obtains (unchanged) "sv' = sv" "\<exists>e. r = Inl e"
  | (charged) w run identity e where "limit_participant (en_clock env 3) run identity ''join'' False (sv_windows sv) = (w, e)"
      "sv' = sv\<lparr>sv_windows := w\<rparr>" "\<exists>e. r = Inl e"
  | (joined) w tok run f engine s db1 view where
      "limit_participant (en_clock env 3) (rn_id run) (en_identity env (rn_id run) tok) ''join'' False (sv_windows sv) = (w, None)"
      "anonymous (jr_cookie req) = Inr tok" "load_run rn_slug (jr_slug req) (sv_db sv) = Inr run"
      "load_snapshot (en_sha env) (sv_db sv) (rn_version run) = Inr f" "resolve_policy (f_policy f) = Inr engine"
      "rn_status run \<noteq> ''suspended''"
      "(load_session (sv_db sv) (rn_id run) (en_identity env (rn_id run) tok) = Inr s \<and> db1 = sv_db sv)
       \<or> ((\<exists>e. load_session (sv_db sv) (rn_id run) (en_identity env (rn_id run) tok) = Inl e)
          \<and> enrol env engine f run (en_identity env (rn_id run) tok) req (sv_db sv) = Inr (s, db1))"
      "make_session db1 s f = Inr view" "r = Inr view" "sv' = sv\<lparr>sv_windows := w, sv_db := db1\<rparr>"
proof (cases "\<not> valid_demographics (jr_experience req) (jr_familiarity req)")
  case True
  with assms unchanged show thesis by (auto simp: join_def)
next
  case dem: False
  show thesis
  proof (cases "anonymous (jr_cookie req)")
    case (Inl e)
    with assms unchanged dem show thesis by (auto simp: join_def)
  next
    case tok: (Inr tok)
    show thesis
    proof (cases "load_run rn_slug (jr_slug req) (sv_db sv)")
      case (Inl e)
      with assms unchanged dem tok show thesis by (auto simp: join_def)
    next
      case run: (Inr run)
      show thesis
      proof (cases "load_snapshot (en_sha env) (sv_db sv) (rn_version run)")
        case (Inl e)
        with assms unchanged dem tok run show thesis by (auto simp: join_def)
      next
        case f: (Inr f)
        show thesis
        proof (cases "resolve_policy (f_policy f)")
          case (Inl e)
          with assms unchanged dem tok run f show thesis by (auto simp: join_def)
        next
          case engine: (Inr engine)
          show thesis
          proof (cases "rn_status run = ''suspended''")
            case True
            with assms unchanged dem tok run f engine show thesis by (auto simp: join_def)
          next
            case open_run: False
            define identity where "identity = en_identity env (rn_id run) tok"
            obtain w lim where lim: "limit_participant (en_clock env 3) (rn_id run) identity ''join'' False
                (sv_windows sv) = (w, lim)" by force
            define found where "found = (case load_session (sv_db sv) (rn_id run) identity of
                Inr s \<Rightarrow> Inr (s, sv_db sv)
              | Inl e \<Rightarrow> if has_status 404 e then enrol env engine f run identity req (sv_db sv) else Inl e)"
            have j: "(r, sv') = (case lim of Some e \<Rightarrow> (Inl e, sv\<lparr>sv_windows := w\<rparr>)
              | None \<Rightarrow> (case found of Inl e \<Rightarrow> (Inl e, sv\<lparr>sv_windows := w\<rparr>)
                | Inr (s, db1) \<Rightarrow> (case make_session db1 s f of Inl e \<Rightarrow> (Inl e, sv\<lparr>sv_windows := w\<rparr>)
                  | Inr view \<Rightarrow> (Inr view, sv\<lparr>sv_windows := w, sv_db := db1\<rparr>))))"
              unfolding assms [symmetric] found_def using dem tok run f engine open_run lim
              by (simp add: join_def identity_def [symmetric] Let_def)
            show thesis
            proof (cases "lim = None \<and> (\<exists>s db1 view. found = Inr (s, db1) \<and> make_session db1 s f = Inr view)")
              case True
              then obtain s db1 view where p: "lim = None" "found = Inr (s, db1)" "make_session db1 s f = Inr view"
                by blast
              have "(load_session (sv_db sv) (rn_id run) identity = Inr s \<and> db1 = sv_db sv)
                \<or> ((\<exists>e. load_session (sv_db sv) (rn_id run) identity = Inl e)
                   \<and> enrol env engine f run identity req (sv_db sv) = Inr (s, db1))"
                using p(2) by (auto simp: found_def split: sum.splits if_splits)
              moreover have "r = Inr view" "sv' = sv\<lparr>sv_windows := w, sv_db := db1\<rparr>" using j p by auto
              ultimately show thesis
                using joined lim p(1,3) tok run f engine open_run by (simp add: identity_def)
            next
              case False
              then have "sv' = sv\<lparr>sv_windows := w\<rparr> \<and> (\<exists>e. r = Inl e)"
                using j by (auto split: option.splits sum.splits)
              with charged lim show thesis by blast
            qed
          qed
        qed
      qed
    qed
  qed
qed

lemma enrol_ok:
  assumes "db_ok sha db" "load_run rn_slug slug db = Inr run"
    "enrol env engine f run identity req db = Inr (s, db1)"
  shows "db_ok sha db1"
proof -
  obtain r where r: "r \<in> set (db_runs db)" "run = (if rn_suspended r then r\<lparr>rn_status := ''suspended''\<rparr> else r)"
    using load_run_Inr [OF assms(2)] by blast
  then have run: "rn_id r = rn_id run" "rn_data_bytes r = rn_data_bytes run" "rn_cap r = rn_cap run" by simp_all
  from enrol_Inr [OF assms(3)] obtain rest invs where e:
    "new_session env engine f run identity req = Inr (s, rest)"
    "tbl_count (\<lambda>s. ss_run s = rn_id run) (db_sessions db) < rn_cap run"
    "ss_storage_bytes s \<le> max_session_event_data" "rn_data_bytes run + ss_storage_bytes s \<le> max_run_event_data"
    "(rn_id run, identity) \<notin> (\<lambda>s. (ss_run s, ss_identity s)) ` set (db_sessions db)"
    "ss_id s \<notin> ss_id ` set (db_sessions db)" "db1 = enrolled_db run s rest invs db" by blast
  note n = new_session_Inr [OF e(1)]
  show ?thesis
    unfolding e(7)
    by (rule enrolled_ok [OF assms(1) r(1) run _ _ _ _ e(2-4) _ e(6)]) (use n e(5) in simp_all)
qed

interpretation join_handler: transactional join
proof
  fix env req sv e sv'
  assume "join env req sv = (Inl e, sv')"
  then show "sv_db sv' = sv_db sv" by (cases rule: join_cases) auto
next
  fix env :: environment and req sv r sv'
  assume ok: "server_ok (en_sha env) sv" and j: "join env req sv = (r, sv')"
  from j show "server_ok (en_sha env) sv'"
  proof (cases rule: join_cases)
    case unchanged
    with ok show ?thesis by simp
  next
    case charged
    with ok charged_ok show ?thesis by metis
  next
    case (joined w tok run f engine s db1 view)
    have "server_ok (en_sha env) (sv\<lparr>sv_windows := w\<rparr>)" by (rule charged_ok [OF ok joined(1)])
    moreover have "db_ok (en_sha env) db1"
      using joined(7) enrol_ok [OF _ joined(3)] ok by (auto simp: server_ok_def)
    ultimately show ?thesis using joined(10) by (simp add: server_ok_def)
  qed
qed

section \<open>Reading a session\<close>

lemma session_unchanged: "session env slug cookie sv = (r, sv') \<Longrightarrow> sv' = sv"
  by (auto simp: session_def split: sum.splits prod.splits)

interpretation session_handler: transactional "\<lambda>env (slug, cookie). session env slug cookie"
  by unfold_locales (auto dest: session_unchanged)

section \<open>Commands with receipts\<close>

text \<open>
  \<open>start\<close> and \<open>finish\<close> share their frame: the owned session, the suspension check, the receipt, the
  charge, and then either the replay of the receipt or the body of the command.
\<close>

definition command_frame ::
    "environment \<Rightarrow> string \<Rightarrow> string option \<Rightarrow> string \<Rightarrow> string \<Rightarrow> string
      \<Rightarrow> (session_row \<Rightarrow> frozen_snapshot \<Rightarrow> database \<Rightarrow> (session_view \<times> database) result)
      \<Rightarrow> server \<Rightarrow> session_view result \<times> server" where
  "command_frame env slug cookie command operation hash body sv =
     (case anonymous cookie of Inl e \<Rightarrow> (Inl e, sv)
      | Inr tok \<Rightarrow>
      (case owned env (sv_db sv) slug tok of Inl e \<Rightarrow> (Inl e, sv)
      | Inr (s, f, run, identity) \<Rightarrow>
      if rn_status run = ''suspended'' then (Inl suspended_error, sv)
      else
        (let saved = receipt (en_clock env 0) (ss_id s) command operation hash (sv_db sv);
             replayed = (case saved of Inr (Some c, _) \<Rightarrow> True | _ \<Rightarrow> False);
             (windows, limited) = limit_participant (en_clock env 6) (rn_id run) identity operation replayed
               (sv_windows sv);
             sv1 = sv\<lparr>sv_windows := windows\<rparr>
         in case limited of Some e \<Rightarrow> (Inl e, sv1)
         | None \<Rightarrow>
           (case saved of
              Inl e \<Rightarrow> (Inl e, sv1)
            | Inr (Some c, db1) \<Rightarrow> (replay_receipt db1 s f c, sv1)
            | Inr (None, db1) \<Rightarrow>
                (case body s f db1 of
                   Inl e \<Rightarrow> (Inl e, sv1)
                 | Inr (view, db2) \<Rightarrow> (Inr view, sv1\<lparr>sv_db := db2\<rparr>))))))"

lemma start_frame: "start env req sv =
    (case command_id (sr_command req) of Some e \<Rightarrow> (Inl e, sv)
     | None \<Rightarrow> if sr_task req = [] then (Inl (Problem 422 ''task_id is required''), sv)
       else command_frame env (sr_slug req) (sr_cookie req) (sr_command req) ''start'' (en_sha env (sr_task req))
         (start_task env req) sv)"
  by (simp only: start_def command_frame_def Let_def)

lemma finish_frame: "finish env req sv =
    (case command_id (fr_command req) of Some e \<Rightarrow> (Inl e, sv)
     | None \<Rightarrow>
       if fr_outcome req \<noteq> ''selected'' \<and> fr_outcome req \<noteq> ''gave_up'' \<and> fr_outcome req \<noteq> ''skipped''
         then (Inl (Problem 422 ''invalid outcome''), sv)
       else if fr_outcome req \<noteq> ''selected'' \<and> fr_node req \<noteq> []
         then (Inl (Problem 422 ''node_id is only valid for selected outcomes''), sv)
       else command_frame env (fr_slug req) (fr_cookie req) (fr_command req) ''finish''
         (en_sha env (finish_json req)) (finish_attempt env req) sv)"
  by (simp only: finish_def command_frame_def Let_def)

lemma command_frame_cases:
  assumes "command_frame env slug cookie command operation hash body sv = (r, sv')"
  obtains (unchanged) "sv' = sv" "\<exists>e. r = Inl e"
  | (charged) run identity rep w e where
      "limit_participant (en_clock env 6) run identity operation rep (sv_windows sv) = (w, e)"
      "sv' = sv\<lparr>sv_windows := w\<rparr>" "\<exists>e. r = Inl e"
  | (replayed) tok s f run identity c w where "anonymous cookie = Inr tok"
      "owned env (sv_db sv) slug tok = Inr (s, f, run, identity)" "rn_status run \<noteq> ''suspended''"
      "receipt (en_clock env 0) (ss_id s) command operation hash (sv_db sv) = Inr (Some c, sv_db sv)"
      "limit_participant (en_clock env 6) (rn_id run) identity operation True (sv_windows sv) = (w, None)"
      "r = replay_receipt (sv_db sv) s f c" "sv' = sv\<lparr>sv_windows := w\<rparr>"
  | (executed) tok s f run identity w db1 view db2 where "anonymous cookie = Inr tok"
      "owned env (sv_db sv) slug tok = Inr (s, f, run, identity)" "rn_status run \<noteq> ''suspended''"
      "receipt (en_clock env 0) (ss_id s) command operation hash (sv_db sv) = Inr (None, db1)"
      "limit_participant (en_clock env 6) (rn_id run) identity operation False (sv_windows sv) = (w, None)"
      "body s f db1 = Inr (view, db2)" "r = Inr view" "sv' = sv\<lparr>sv_windows := w, sv_db := db2\<rparr>"
proof (cases "anonymous cookie")
  case (Inl e)
  with assms unchanged show thesis by (auto simp: command_frame_def)
next
  case tok: (Inr tok)
  show thesis
  proof (cases "owned env (sv_db sv) slug tok")
    case (Inl e)
    with assms unchanged tok show thesis by (auto simp: command_frame_def)
  next
    case (Inr q)
    then obtain s f run identity where own: "owned env (sv_db sv) slug tok = Inr (s, f, run, identity)"
      by (metis prod_cases4)
    show thesis
    proof (cases "rn_status run = ''suspended''")
      case True
      with assms unchanged tok own show thesis by (auto simp: command_frame_def)
    next
      case live: False
      define saved where "saved = receipt (en_clock env 0) (ss_id s) command operation hash (sv_db sv)"
      define rep where "rep = (case saved of Inr (Some c, _) \<Rightarrow> True | _ \<Rightarrow> False)"
      obtain w lim where lim: "limit_participant (en_clock env 6) (rn_id run) identity operation rep
          (sv_windows sv) = (w, lim)" by force
      have j: "(r, sv') = (case lim of Some e \<Rightarrow> (Inl e, sv\<lparr>sv_windows := w\<rparr>)
         | None \<Rightarrow> (case saved of Inl e \<Rightarrow> (Inl e, sv\<lparr>sv_windows := w\<rparr>)
            | Inr (Some c, db1) \<Rightarrow> (replay_receipt db1 s f c, sv\<lparr>sv_windows := w\<rparr>)
            | Inr (None, db1) \<Rightarrow> (case body s f db1 of Inl e \<Rightarrow> (Inl e, sv\<lparr>sv_windows := w\<rparr>)
                 | Inr (view, db2) \<Rightarrow> (Inr view, sv\<lparr>sv_windows := w, sv_db := db2\<rparr>))))"
        unfolding assms [symmetric] using tok own live lim
        by (simp add: command_frame_def rep_def [symmetric] saved_def [symmetric] Let_def)
      show thesis
      proof (cases lim)
        case (Some e)
        then show thesis using charged [OF lim] j by simp
      next
        case pass: None
        show thesis
        proof (cases saved)
          case (Inl e)
          then show thesis using charged [OF lim] j pass by simp
        next
          case (Inr p)
          show thesis
          proof (cases p)
            case (Pair c db1)
            show thesis
            proof (cases c)
              case (Some c')
              then have "db1 = sv_db sv"
                using Inr Pair by (auto simp: saved_def receipt_def split: option.splits if_splits)
              with Some Inr Pair pass j lim tok own live show thesis
                by (intro replayed) (simp_all add: saved_def rep_def)
            next
              case None
              show thesis
              proof (cases "body s f db1")
                case (Inl e)
                with None Inr Pair pass j charged [OF lim] show thesis by simp
              next
                case (Inr vd)
                then obtain view db2 where "body s f db1 = Inr (view, db2)" by (cases vd) auto
                with None \<open>saved = Inr p\<close> Pair pass j lim tok own live show thesis
                  by (intro executed) (simp_all add: saved_def rep_def)
              qed
            qed
          qed
        qed
      qed
    qed
  qed
qed

text \<open>A frame is a transaction when its body keeps the invariant of the database.\<close>

lemma command_frame_rollback:
  "command_frame env slug cookie command operation hash body sv = (Inl e, sv') \<Longrightarrow> sv_db sv' = sv_db sv"
  by (cases rule: command_frame_cases [where r = "Inl e"]) auto

lemma command_frame_ok:
  assumes "server_ok (en_sha env) sv"
    "command_frame env slug cookie command operation hash body sv = (r, sv')"
    "\<And>s f db view db2. db_ok (en_sha env) db \<Longrightarrow> s \<in> set (db_sessions db) \<Longrightarrow>
       session_study (en_sha env) db s f \<Longrightarrow> body s f db = Inr (view, db2) \<Longrightarrow> db_ok (en_sha env) db2"
  shows "server_ok (en_sha env) sv'"
  using assms(2)
proof (cases rule: command_frame_cases)
  case unchanged
  with assms(1) show ?thesis by simp
next
  case charged
  with assms(1) charged_ok show ?thesis by metis
next
  case replayed
  with assms(1) charged_ok show ?thesis by metis
next
  case (executed tok s f run identity w db1 view db2)
  have ok: "db_ok (en_sha env) (sv_db sv)" using assms(1) by (simp add: server_ok_def)
  have c: "commands_only (sv_db sv) db1" by (rule receipt_commands [OF executed(4) ok])
  then have db1: "db_sessions db1 = db_sessions (sv_db sv)" "db_runs db1 = db_runs (sv_db sv)"
    "db_versions db1 = db_versions (sv_db sv)" by (auto simp: commands_only_def)
  have "db_ok (en_sha env) db2"
  proof (rule assms(3) [OF commands_only_ok [OF ok c] _ _ executed(6)])
    show "s \<in> set (db_sessions db1)" using owned_Inr [OF executed(2)] db1 by simp
    show "session_study (en_sha env) db1 s f"
      using owned_study [OF executed(2)] session_study_frame [OF db1(2,3)] by simp
  qed
  moreover have "server_ok (en_sha env) (sv\<lparr>sv_windows := w\<rparr>)" by (rule charged_ok [OF assms(1) executed(5)])
  ultimately show ?thesis using executed(8) by (simp add: server_ok_def)
qed

section \<open>Starting a task\<close>

lemma start_task_Inr:
  assumes "start_task env req s f db = Inr (view, db2)"
  shows "\<exists>db1. ss_index s < length (ss_tasks s)
    \<and> sr_task req = str_get (ss_public_tasks s) (ss_tasks s ! ss_index s)
    \<and> insert_attempt (new_attempt (en_random env 0) s (ss_tasks s ! ss_index s) (en_clock env 1) (f_policy f)) db = Inr db1
    \<and> make_session db1 s f = Inr view
    \<and> save_receipt (en_clock env 2) (en_clock env 3) (en_clock env 4) (en_clock env 5) (ss_id s)
        (sr_command req) ''start'' (en_sha env (sr_task req)) (ss_index s) (en_random env 0) db1 = Inr db2"
  using assms by (auto simp: start_task_def not_le split: if_splits)

lemma start_task_ok:
  assumes "db_ok sha db" "s \<in> set (db_sessions db)" "start_task env req s f db = Inr (view, db2)"
  shows "db_ok sha db2"
proof -
  from start_task_Inr [OF assms(3)] obtain db1 where
    "ss_index s < length (ss_tasks s)"
    and ins: "insert_attempt (new_attempt (en_random env 0) s (ss_tasks s ! ss_index s) (en_clock env 1) (f_policy f)) db = Inr db1"
    and save: "save_receipt (en_clock env 2) (en_clock env 3) (en_clock env 4) (en_clock env 5) (ss_id s)
        (sr_command req) ''start'' (en_sha env (sr_task req)) (ss_index s) (en_random env 0) db1 = Inr db2"
    by blast
  have "db_ok sha db1" by (rule start_ok [OF assms(1) ins assms(2)]) fact
  then show ?thesis using save_receipt_commands [OF save] commands_only_ok by blast
qed

interpretation start_handler: transactional start
proof
  fix env req sv e sv'
  assume "start env req sv = (Inl e, sv')"
  then show "sv_db sv' = sv_db sv"
    using command_frame_rollback by (auto simp: start_frame split: option.splits if_splits)
next
  fix env :: environment and req sv r sv'
  assume ok: "server_ok (en_sha env) sv" and st: "start env req sv = (r, sv')"
  have "server_ok (en_sha env) sv'" if "command_frame env (sr_slug req) (sr_cookie req) (sr_command req) ''start''
      (en_sha env (sr_task req)) (start_task env req) sv = (r, sv')"
    by (rule command_frame_ok [OF ok that]) (rule start_task_ok)
  with ok st show "server_ok (en_sha env) sv'"
    by (auto simp: start_frame split: option.splits if_splits)
qed

section \<open>Appending events\<close>

lemma events_cases:
  assumes "events env req sv = (r, sv')"
  obtains (unchanged) "sv' = sv" "\<exists>e. r = Inl e"
  | (charged) run identity w e where
      "limit_participant (en_clock env 0) run identity ''events'' False (sv_windows sv) = (w, e)"
      "sv' = sv\<lparr>sv_windows := w\<rparr>" "\<exists>e. r = Inl e"
  | (appended) tok s f run identity w a log a1 s1 db1 where "anonymous (er_cookie req) = Inr tok"
      "owned env (sv_db sv) (er_slug req) tok = Inr (s, f, run, identity)" "rn_status run \<noteq> ''suspended''"
      "limit_participant (en_clock env 0) (rn_id run) identity ''events'' False (sv_windows sv) = (w, None)"
      "load_attempt (sv_db sv) (ss_id s) (er_attempt req) = Inr a" "at_policy a = Some (f_policy f)"
      "append_events (\<lambda>k. en_clock env (k + 1)) s f a (er_events req) None (sv_db sv) = Inr (log, a1, s1, db1)"
      "r = Inr (at_next_seq a1)" "sv' = sv\<lparr>sv_windows := w, sv_db := db1\<rparr>"
proof (cases "anonymous (er_cookie req)")
  case (Inl e)
  with assms unchanged show thesis by (auto simp: events_def)
next
  case tok: (Inr tok)
  show thesis
  proof (cases "owned env (sv_db sv) (er_slug req) tok")
    case (Inl e)
    with assms unchanged tok show thesis by (auto simp: events_def)
  next
    case (Inr q)
    then obtain s f run identity where own: "owned env (sv_db sv) (er_slug req) tok = Inr (s, f, run, identity)"
      by (metis prod_cases4)
    show thesis
    proof (cases "rn_status run = ''suspended''")
      case True
      with assms unchanged tok own show thesis by (auto simp: events_def)
    next
      case live: False
      obtain w lim where lim: "limit_participant (en_clock env 0) (rn_id run) identity ''events'' False
          (sv_windows sv) = (w, lim)" by force
      define res where "res = (case load_attempt (sv_db sv) (ss_id s) (er_attempt req) of Inl e \<Rightarrow> Inl e
        | Inr a \<Rightarrow> if at_policy a \<noteq> Some (f_policy f) then Inl policy_mismatch
            else append_events (\<lambda>k. en_clock env (k + 1)) s f a (er_events req) None (sv_db sv))"
      have j: "(r, sv') = (case lim of Some e \<Rightarrow> (Inl e, sv\<lparr>sv_windows := w\<rparr>)
          | None \<Rightarrow> (case res of Inl e \<Rightarrow> (Inl e, sv\<lparr>sv_windows := w\<rparr>)
             | Inr (log, a1, s1, db1) \<Rightarrow> (Inr (at_next_seq a1), sv\<lparr>sv_windows := w, sv_db := db1\<rparr>)))"
      proof -
        have "(r, sv') = (case lim of Some e \<Rightarrow> (Inl e, sv\<lparr>sv_windows := w\<rparr>)
          | None \<Rightarrow> (case load_attempt (sv_db sv) (ss_id s) (er_attempt req) of
              Inl e \<Rightarrow> (Inl e, sv\<lparr>sv_windows := w\<rparr>)
            | Inr a \<Rightarrow> if at_policy a \<noteq> Some (f_policy f) then (Inl policy_mismatch, sv\<lparr>sv_windows := w\<rparr>)
              else case append_events (\<lambda>k. en_clock env (k + 1)) s f a (er_events req) None (sv_db sv) of
                  Inl e \<Rightarrow> (Inl e, sv\<lparr>sv_windows := w\<rparr>)
                | Inr (log, a1, s1, db1) \<Rightarrow> (Inr (at_next_seq a1), sv\<lparr>sv_windows := w, sv_db := db1\<rparr>)))"
          unfolding assms [symmetric] using tok own live lim by (simp add: events_def Let_def)
        then show ?thesis
          by (cases lim; cases "load_attempt (sv_db sv) (ss_id s) (er_attempt req)";
              simp add: res_def split: if_split)
      qed
      show thesis
      proof (cases "lim = None \<and> (\<exists>p. res = Inr p)")
        case True
        then obtain log a1 s1 db1 where d: "lim = None" "res = Inr (log, a1, s1, db1)"
          by (metis prod_cases4)
        then obtain a where "load_attempt (sv_db sv) (ss_id s) (er_attempt req) = Inr a" "at_policy a = Some (f_policy f)"
          "append_events (\<lambda>k. en_clock env (k + 1)) s f a (er_events req) None (sv_db sv) = Inr (log, a1, s1, db1)"
          by (auto simp: res_def split: if_splits)
        with d j lim tok own live show thesis by (intro appended) simp_all
      next
        case False
        then have "sv' = sv\<lparr>sv_windows := w\<rparr> \<and> (\<exists>e. r = Inl e)"
          using j by (cases lim; cases res) auto
        with charged lim show thesis by blast
      qed
    qed
  qed
qed

interpretation events_handler: transactional events
proof
  fix env req sv e sv'
  assume "events env req sv = (Inl e, sv')"
  then show "sv_db sv' = sv_db sv" by (cases rule: events_cases) auto
next
  fix env :: environment and req sv r sv'
  assume ok: "server_ok (en_sha env) sv" and "events env req sv = (r, sv')"
  from this(2) show "server_ok (en_sha env) sv'"
  proof (cases rule: events_cases)
    case unchanged
    with ok show ?thesis by simp
  next
    case charged
    with ok charged_ok show ?thesis by metis
  next
    case (appended tok s f run identity w a log a1 s1 db1)
    have "db_ok (en_sha env) (sv_db sv)" using ok by (simp add: server_ok_def)
    from append_ok [OF this appended(7)] have "db_ok (en_sha env) db1"
      using owned_Inr [OF appended(2)] owned_study [OF appended(2)] load_attempt_Inr [OF appended(5)] by simp
    moreover have "server_ok (en_sha env) (sv\<lparr>sv_windows := w\<rparr>)" by (rule charged_ok [OF ok appended(4)])
    ultimately show ?thesis using appended(9) by (simp add: server_ok_def)
  qed
qed

end
