(* ===== verification/ParticipantTheorems.thy ===== *)
theory ParticipantTheorems
  imports ParticipantSafety
begin

text \<open>
  What the participant API guarantees: the invariants in every reachable state, the replay of
  commands, single use of invitations, the meaning of a finished attempt, and that a suspended run is
  not written to.
\<close>

section \<open>Finishing\<close>

lemma resolve_policy_Inr: "resolve_policy p = Inr engine \<longleftrightarrow> p = policy_v1
    \<and> engine = \<lparr>pe_allocate = allocate_v1, pe_order = shuffle, pe_correct = correct_v1, pe_metrics = event_metrics_v1\<rparr>"
  by (auto simp: resolve_policy_def)

lemma finish_attempt_Inr:
  assumes "finish_attempt env req s f db = Inr (view, db3)"
  shows "\<exists>a engine log a1 s1 db1 correct m db2. load_attempt db (ss_id s) (fr_attempt req) = Inr a
    \<and> at_finished a = None \<and> at_index a = ss_index s \<and> at_policy a = Some (f_policy f)
    \<and> resolve_policy (f_policy f) = Inr engine
    \<and> append_events (\<lambda>k. en_clock env (k + 8)) s f a (fr_batch req) (Some (fr_outcome req, fr_node req)) db
        = Inr (log, a1, s1, db1)
    \<and> judge engine f s a1 (session_index f s) req log = Inr correct
    \<and> event_metrics_v1 log (session_index f s) (fr_node req) (fr_outcome req) True = Inr m
    \<and> db2 = finish_update (at_id a1) (finished_row req correct m (en_clock env 1)
          (server_elapsed (at_started a1) (en_clock env 1)) (at_policy a1)) (ss_id s1) (ss_index s1 + 1)
          (completion (s1\<lparr>ss_index := ss_index s1 + 1\<rparr>) (en_clock env 1)) db1
    \<and> make_session db2 (s1\<lparr>ss_index := ss_index s1 + 1\<rparr>) f = Inr view
    \<and> save_receipt (en_clock env 2) (en_clock env 3) (en_clock env 4) (en_clock env 5) (ss_id s1)
        (fr_command req) ''finish'' (en_sha env (finish_json req)) (ss_index s1 + 1) [] db2 = Inr db3"
  using assms
  unfolding finish_attempt_def session_index_def [symmetric]
  by (auto simp: Let_def resolve_policy_Inr split: if_splits)

lemma finish_attempt_ok:
  assumes ok: "db_ok sha db" and s: "s \<in> set (db_sessions db)" and st: "session_study sha db s f"
    and fin: "finish_attempt env req s f db = Inr (view, db3)"
  shows "db_ok sha db3"
proof -
  obtain a engine log a1 s1 db1 correct m db2 where
    a: "load_attempt db (ss_id s) (fr_attempt req) = Inr a" "at_finished a = None" "at_index a = ss_index s"
    and app: "append_events (\<lambda>k. en_clock env (k + 8)) s f a (fr_batch req) (Some (fr_outcome req, fr_node req)) db
        = Inr (log, a1, s1, db1)"
    and db2: "db2 = finish_update (at_id a1) (finished_row req correct m (en_clock env 1)
          (server_elapsed (at_started a1) (en_clock env 1)) (at_policy a1)) (ss_id s1) (ss_index s1 + 1)
          (completion (s1\<lparr>ss_index := ss_index s1 + 1\<rparr>) (en_clock env 1)) db1"
    and save: "save_receipt (en_clock env 2) (en_clock env 3) (en_clock env 4) (en_clock env 5) (ss_id s1)
        (fr_command req) ''finish'' (en_sha env (finish_json req)) (ss_index s1 + 1) [] db2 = Inr db3"
    using finish_attempt_Inr [OF fin] by blast
  have a': "a \<in> set (db_attempts db)" "at_session a = ss_id s" using load_attempt_Inr [OF a(1)] by simp_all
  note app_ok = append_ok [OF ok app s a' st]
  have "db_ok sha db2"
    unfolding db2
  proof (rule finish_update_ok)
    show "db_ok sha db1" "a1 \<in> set (db_attempts db1)" "s1 \<in> set (db_sessions db1)"
      "at_session a1 = ss_id s1" "at_index a1 = ss_index s1" "at_finished a1 = None"
      using app_ok a a' by (simp_all add: same_attempt_def same_session_def)
  qed (simp_all add: finished_row_def same_attempt_def completion_def)
  then show ?thesis using save_receipt_commands [OF save] commands_only_ok by blast
qed

interpretation finish_handler: transactional finish
proof
  fix env req sv e sv'
  assume "finish env req sv = (Inl e, sv')"
  then show "sv_db sv' = sv_db sv"
    using command_frame_rollback by (auto simp: finish_frame split: option.splits if_splits)
next
  fix env :: environment and req sv r sv'
  assume ok: "server_ok (en_sha env) sv" and fin: "finish env req sv = (r, sv')"
  have "server_ok (en_sha env) sv'" if "command_frame env (fr_slug req) (fr_cookie req) (fr_command req) ''finish''
      (en_sha env (finish_json req)) (finish_attempt env req) sv = (r, sv')"
    by (rule command_frame_ok [OF ok that]) (rule finish_attempt_ok)
  with ok fin show "server_ok (en_sha env) sv'"
    by (auto simp: finish_frame split: option.splits if_splits)
qed

section \<open>Reachable states\<close>

inductive participant_step :: "(string \<Rightarrow> string) \<Rightarrow> server \<Rightarrow> server \<Rightarrow> bool" for sha where
  step_join: "en_sha env = sha \<Longrightarrow> join env req sv = (r, sv') \<Longrightarrow> participant_step sha sv sv'"
| step_session: "en_sha env = sha \<Longrightarrow> session env slug cookie sv = (r, sv') \<Longrightarrow> participant_step sha sv sv'"
| step_start: "en_sha env = sha \<Longrightarrow> start env req sv = (r, sv') \<Longrightarrow> participant_step sha sv sv'"
| step_events: "en_sha env = sha \<Longrightarrow> events env req sv = (n, sv') \<Longrightarrow> participant_step sha sv sv'"
| step_finish: "en_sha env = sha \<Longrightarrow> finish env req sv = (r, sv') \<Longrightarrow> participant_step sha sv sv'"

inductive participant_reach :: "(string \<Rightarrow> string) \<Rightarrow> server \<Rightarrow> server \<Rightarrow> bool" for sha sv where
  reach_start: "participant_reach sha sv sv"
| reach_step: "participant_reach sha sv sv1 \<Longrightarrow> participant_step sha sv1 sv2 \<Longrightarrow> participant_reach sha sv sv2"

inductive_cases participant_stepE: "participant_step sha sv sv'"

lemma participant_step_ok: "participant_step sha sv sv' \<Longrightarrow> server_ok sha sv \<Longrightarrow> server_ok sha sv'"
  by (auto elim!: participant_stepE
      dest: join_handler.keeps start_handler.keeps events_handler.keeps finish_handler.keeps session_unchanged)

lemma participant_reach_ok: "participant_reach sha sv sv' \<Longrightarrow> server_ok sha sv \<Longrightarrow> server_ok sha sv'"
  by (induction rule: participant_reach.induct) (auto intro: participant_step_ok)

text \<open>A database without participants, as an administrator leaves it: it is where runs start.\<close>

definition fresh_db :: "database \<Rightarrow> bool" where
  "fresh_db db \<longleftrightarrow> tbl_keys rn_id (db_runs db) \<and> tbl_keys rn_slug (db_runs db) \<and> db_sessions db = []
     \<and> db_attempts db = [] \<and> db_events db = [] \<and> db_commands db = []
     \<and> (\<forall>r \<in> set (db_runs db). rn_event_bytes r = 0 \<and> rn_data_bytes r = 0)"

definition fresh_server :: "server \<Rightarrow> bool" where
  "fresh_server sv \<longleftrightarrow> fresh_db (sv_db sv) \<and> sv_windows sv = []"

lemma fresh_db_ok: "fresh_db db \<Longrightarrow> db_ok sha db"
  by (simp add: fresh_db_def db_ok_def keys_ok_def refs_ok_def event_rows_ok_def events_of_def logs_ok_def
      accounts_ok_def run_account_ok_def caps_ok_def progress_ok_def tbl_keys_def tbl_count_def)

lemma fresh_server_ok: "fresh_server sv \<Longrightarrow> server_ok sha sv"
  by (simp add: fresh_server_def server_ok_def fresh_db_ok limiter_ok_def)

lemma reachable_db_ok: "fresh_server sv0 \<Longrightarrow> participant_reach sha sv0 sv \<Longrightarrow> db_ok sha (sv_db sv)"
  using participant_reach_ok fresh_server_ok by (auto simp: server_ok_def)

text \<open>What the invariant says of the caps and counters, the stored logs and the progress of a session.\<close>

definition caps_and_counters :: "database \<Rightarrow> bool" where
  "caps_and_counters db \<longleftrightarrow> (\<forall>r \<in> set (db_runs db).
      tbl_count (\<lambda>s. ss_run s = rn_id r) (db_sessions db) \<le> rn_cap r
      \<and> rn_data_bytes r = tbl_sum (\<lambda>s. ss_run s = rn_id r) (\<lambda>s. ss_storage_bytes s + ss_event_bytes s) (db_sessions db)
      \<and> rn_data_bytes r \<le> max_run_event_data)
    \<and> (\<forall>s \<in> set (db_sessions db).
      ss_event_bytes s = tbl_sum (\<lambda>a. at_session a = ss_id s) at_event_bytes (db_attempts db)
      \<and> ss_storage_bytes s + ss_event_bytes s \<le> max_session_event_data)
    \<and> (\<forall>a \<in> set (db_attempts db). at_event_bytes a = bytes_of (load_events db (at_id a))
      \<and> bytes_of (load_events db (at_id a)) \<le> max_attempt_event_data)"

lemma db_ok_counters:
  assumes "db_ok sha db"
  shows "caps_and_counters db"
proof -
  have parts: "caps_ok db" "accounts_ok db" "logs_ok sha db" using assms by (simp_all add: db_ok_def)
  then show ?thesis
    unfolding caps_and_counters_def caps_ok_def accounts_ok_def run_account_ok_def session_account_ok_def
      logs_ok_def attempt_log_ok_def
    by (intro conjI ballI) blast+
qed

lemma db_ok_log:
  assumes "db_ok sha db" "a \<in> set (db_attempts db)" "s \<in> set (db_sessions db)" "at_session a = ss_id s"
    "session_study sha db s f"
  shows "log_ok (session_index f s) (load_events db (at_id a))
    \<and> ok (replay (session_index f s) (load_events db (at_id a)))
    \<and> at_next_seq a = length (load_events db (at_id a)) + 1"
  using assms by (simp add: db_ok_def logs_ok_def attempt_log_ok_def)

lemma db_ok_progress:
  assumes "db_ok sha db" "s \<in> set (db_sessions db)"
  shows "ss_index s \<le> length (ss_tasks s)
    \<and> (\<forall>i < ss_index s. \<exists>!a. a \<in> set (db_attempts db) \<and> at_session a = ss_id s \<and> at_index a = i)
    \<and> (\<forall>a \<in> set (db_attempts db). at_session a = ss_id s \<longrightarrow>
         at_index a \<le> ss_index s \<and> at_task a = ss_tasks s ! at_index a
         \<and> (at_finished a \<noteq> None \<longleftrightarrow> at_index a < ss_index s))
    \<and> (ss_completed s \<noteq> None \<longrightarrow> ss_index s = length (ss_tasks s))"
proof -
  have k: "keys_ok db" using assms(1) by (simp add: db_ok_def)
  have p: "session_progress db s" using assms by (simp add: db_ok_def progress_ok_def)
  have "\<exists>!a. a \<in> set (db_attempts db) \<and> at_session a = ss_id s \<and> at_index a = i" if i: "i < ss_index s" for i
  proof -
    obtain a where "a \<in> set (db_attempts db)" "at_session a = ss_id s" "at_index a = i"
      using p i unfolding session_progress_def by blast
    with keys_ok_eq(4) [OF k] show ?thesis by (intro ex1I [of _ a]) simp_all
  qed
  moreover have "at_index a \<le> ss_index s \<and> at_task a = ss_tasks s ! at_index a
      \<and> (at_finished a \<noteq> None \<longleftrightarrow> at_index a < ss_index s)"
    if "a \<in> set (db_attempts db)" "at_session a = ss_id s" for a
    using p that by (simp add: session_progress_def attempt_progress_def)
  ultimately show ?thesis using p unfolding session_progress_def by blast
qed

end
