(* ===== verification/ParticipantFrame.thy ===== *)
theory ParticipantFrame
  imports ParticipantTheorems
begin

text \<open>
  What a participant request leaves alone: versions, the settings and the status of runs, used
  invitations; a session appears only in an open run, and in an invitation run only against an
  invitation that it spends. The site invariants, which the administrator's operations share, rest
  on this frame.
\<close>

section \<open>The frame\<close>

definition run_core :: "run_row \<Rightarrow> run_row" where
  "run_core r = r\<lparr>rn_allocation := [], rn_event_bytes := 0, rn_data_bytes := 0\<rparr>"

text \<open>An invitation stays as it is, but for being used once, at a time and by a session.\<close>

definition invitation_kept :: "invitation_row \<Rightarrow> invitation_row \<Rightarrow> bool" where
  "invitation_kept i j \<longleftrightarrow> j = i
     \<or> (iv_used i = None \<and> (\<exists>t s. j = i\<lparr>iv_used := Some t, iv_session := Some s\<rparr>))"

definition has_invitation :: "invitation_row list \<Rightarrow> session_row \<Rightarrow> bool" where
  "has_invitation invs s \<longleftrightarrow> (\<exists>i \<in> set invs. iv_run i = ss_run s \<and> iv_used i \<noteq> None \<and> iv_session i = Some (ss_id s))"

definition admitted :: "database \<Rightarrow> invitation_row list \<Rightarrow> session_row \<Rightarrow> bool" where
  "admitted db invs s \<longleftrightarrow> (\<exists>r \<in> set (db_runs db). rn_id r = ss_run s \<and> rn_status r = ''open'' \<and> \<not> rn_suspended r
     \<and> (rn_recruitment r = ''invitation'' \<longrightarrow> has_invitation invs s))"

definition known :: "database \<Rightarrow> session_row \<Rightarrow> bool" where
  "known db s \<longleftrightarrow> (ss_id s, ss_run s) \<in> (\<lambda>s. (ss_id s, ss_run s)) ` set (db_sessions db)"

definition participant_frame :: "database \<Rightarrow> database \<Rightarrow> bool" where
  "participant_frame db db' \<longleftrightarrow> db_versions db' = db_versions db
     \<and> map run_core (db_runs db') = map run_core (db_runs db)
     \<and> list_all2 invitation_kept (db_invitations db) (db_invitations db')
     \<and> (\<forall>s \<in> set (db_sessions db'). known db s \<or> admitted db (db_invitations db') s)"

text \<open>Requests that admit nobody: they also leave the allocations alone.\<close>

definition quiet_frame :: "database \<Rightarrow> database \<Rightarrow> bool" where
  "quiet_frame db db' \<longleftrightarrow> db_versions db' = db_versions db
     \<and> map run_core (db_runs db') = map run_core (db_runs db)
     \<and> db_invitations db' = db_invitations db
     \<and> map (\<lambda>s. (ss_id s, ss_run s)) (db_sessions db') = map (\<lambda>s. (ss_id s, ss_run s)) (db_sessions db)
     \<and> map rn_allocation (db_runs db') = map rn_allocation (db_runs db)
     \<and> map (\<lambda>s. (ss_run s, ss_variant s, ss_panel s)) (db_sessions db')
       = map (\<lambda>s. (ss_run s, ss_variant s, ss_panel s)) (db_sessions db)"

lemma quiet_frame_refl [simp]: "quiet_frame db db"
  by (simp add: quiet_frame_def)

lemma quiet_frame_trans: "quiet_frame db1 db2 \<Longrightarrow> quiet_frame db2 db3 \<Longrightarrow> quiet_frame db1 db3"
  by (simp add: quiet_frame_def)

lemma invitation_kept_refl [simp]: "invitation_kept i i"
  by (simp add: invitation_kept_def)

lemma quiet_frame_participant: "quiet_frame db db' \<Longrightarrow> participant_frame db db'"
proof -
  assume q: "quiet_frame db db'"
  then have "(\<lambda>s. (ss_id s, ss_run s)) ` set (db_sessions db') = (\<lambda>s. (ss_id s, ss_run s)) ` set (db_sessions db)"
    unfolding quiet_frame_def by (metis list.set_map)
  then have "\<forall>s \<in> set (db_sessions db'). known db s" unfolding known_def by blast
  with q show ?thesis
    unfolding participant_frame_def quiet_frame_def by (simp add: list.rel_refl)
qed

lemma participant_frame_refl: "participant_frame db db"
  by (rule quiet_frame_participant) simp

text \<open>The frames of the single transitions.\<close>

lemma map_tbl_update: "(\<And>r. key (g r) = key r) \<Longrightarrow> map key (tbl_update p g t) = map key t"
  by (induction t) (auto simp: tbl_update_def)

lemma quiet_commands: "commands_only db db' \<Longrightarrow> quiet_frame db db'"
  by (auto simp: commands_only_def quiet_frame_def)

lemma quiet_insert_attempt: "insert_attempt r db = Inr db' \<Longrightarrow> quiet_frame db db'"
  by (auto simp: insert_attempt_Inr quiet_frame_def)

lemma quiet_insert_events: "insert_events i clock es db = Inr db' \<Longrightarrow> quiet_frame db db'"
proof (induction es arbitrary: clock db)
  case (Cons e es)
  then obtain db1 where d: "insert_event \<lparr>ev_attempt = i, ev_seq = e_seq e, ev_id = e_id e, ev_event = e,
      ev_received = clock 0\<rparr> db = Inr db1" "insert_events i (\<lambda>k. clock (Suc k)) es db1 = Inr db'"
    by auto
  then have "quiet_frame db db1"
    by (auto simp: insert_event_def quiet_frame_def split: if_splits option.splits)
  from this Cons.IH [OF d(2)] show ?case by (rule quiet_frame_trans)
qed simp

lemma quiet_append:
  assumes "append_events clock s f a incoming terminal db = Inr (log, a1, s1, db1)"
  shows "quiet_frame db db1"
proof -
  obtain added db0 where ins: "insert_events (at_id a) clock (drop (length (load_events db (at_id a))) log) db = Inr db0"
    and db1: "db1 = db0\<lparr>db_attempts := tbl_update (\<lambda>r. at_id r = at_id a) (count_attempt (length log + 1) added) (db_attempts db0),
          db_sessions := tbl_update (\<lambda>r. ss_id r = ss_id s) (count_session added) (db_sessions db0),
          db_runs := tbl_update (\<lambda>r. rn_id r = ss_run s) (count_run added) (db_runs db0)\<rparr>"
    using append_events_Inr [OF assms] by blast
  have "quiet_frame db0 db1"
    unfolding quiet_frame_def db1 by (simp add: map_tbl_update run_core_def count_run_def count_session_def)
  with quiet_insert_events [OF ins] show ?thesis by (rule quiet_frame_trans)
qed

lemma quiet_finish_update: "quiet_frame db (finish_update i g sid n c db)"
  by (simp add: quiet_frame_def finish_update_def map_tbl_update)

section \<open>The frame of every handler\<close>

lemma enrol_frame:
  assumes "load_run rn_slug slug db = Inr run" "enrol env engine f run identity req db = Inr (s, db1)"
  shows "participant_frame db db1"
proof -
  obtain r where r: "r \<in> set (db_runs db)" "run = (if rn_suspended r then r\<lparr>rn_status := ''suspended''\<rparr> else r)"
    using load_run_Inr [OF assms(1)] by blast
  from enrol_Inr [OF assms(2)] obtain rest invs where e: "new_session env engine f run identity req = Inr (s, rest)"
    "rn_status run = ''open''" "db1 = enrolled_db run s rest invs db"
    "if rn_recruitment run = ''invitation'' then invitation_spent env run (jr_invite req) s (db_invitations db) invs
     else invs = db_invitations db" by blast
  have run: "run = r" "\<not> rn_suspended r" using r(2) e(2) by (auto split: if_splits)
  have s: "ss_run s = rn_id r" using new_session_Inr [OF e(1)] run(1) by simp
  have invs: "list_all2 invitation_kept (db_invitations db) invs
      \<and> (rn_recruitment r = ''invitation'' \<longrightarrow> has_invitation invs s)"
  proof (cases "rn_recruitment r = ''invitation''")
    case False
    with e(4) run(1) show ?thesis by (simp add: list.rel_refl)
  next
    case True
    define p where "p = usable_invitation (rn_id run) (en_sha env (jr_invite req)) (en_clock env 2)"
    define g :: "invitation_row \<Rightarrow> invitation_row"
      where "g = (\<lambda>i. i\<lparr>iv_used := Some (en_clock env 1), iv_session := Some (ss_id s)\<rparr>)"
    have p: "tbl_count p (db_invitations db) = 1" "invs = tbl_update p g (db_invitations db)"
      using e(4) True run(1) by (simp_all add: invitation_spent_def Let_def p_def g_def)
    have kept: "invitation_kept i (if p i then g i else i)" for i
      unfolding invitation_kept_def g_def p_def usable_invitation_def by auto
    have "list_all2 invitation_kept (db_invitations db) invs"
      unfolding p(2) tbl_update_def by (simp add: list_all2_conv_all_nth kept)
    moreover obtain i where i: "i \<in> set (db_invitations db)" "p i"
      using p(1) tbl_count_zero [of p "db_invitations db"] by auto
    have "g i \<in> set invs"
      unfolding p(2) tbl_update_set using i by (intro image_eqI [of _ _ i]) simp_all
    moreover have "iv_run (g i) = ss_run s" "iv_used (g i) \<noteq> None" "iv_session (g i) = Some (ss_id s)"
      using i(2) by (simp_all add: g_def p_def usable_invitation_def s run(1))
    ultimately have "list_all2 invitation_kept (db_invitations db) invs" "has_invitation invs s"
      unfolding has_invitation_def by blast+
    then show ?thesis by simp
  qed
  have "\<forall>q \<in> set (db_sessions db1). known db q \<or> admitted db invs q"
  proof
    fix q assume "q \<in> set (db_sessions db1)"
    then consider "q \<in> set (db_sessions db)" | "q = s" by (auto simp: e(3) enrolled_db_def)
    then show "known db q \<or> admitted db invs q"
    proof cases
      case 1
      then show ?thesis by (simp add: known_def)
    next
      case 2
      then show ?thesis using r(1) s run e(2) invs by (auto simp: admitted_def)
    qed
  qed
  then show ?thesis
    using invs by (simp add: participant_frame_def e(3) enrolled_db_def map_tbl_update run_core_def)
qed

lemma join_quiet_or_enrols:
  assumes "join env req sv = (r, sv')"
  shows "quiet_frame (sv_db sv) (sv_db sv') \<or> (\<exists>slug run f engine identity s. load_run rn_slug slug (sv_db sv) = Inr run
    \<and> load_snapshot (en_sha env) (sv_db sv) (rn_version run) = Inr f \<and> resolve_policy (f_policy f) = Inr engine
    \<and> enrol env engine f run identity req (sv_db sv) = Inr (s, sv_db sv'))"
  using assms
proof (cases rule: join_cases)
  case (joined w tok run f engine s db1 view)
  then show ?thesis by auto
qed (auto)

lemma command_quiet:
  assumes "command_frame env slug cookie command operation hash body sv = (r, sv')" "db_ok sha (sv_db sv)"
    "\<And>s f db view db2. db_ok sha db \<Longrightarrow> body s f db = Inr (view, db2) \<Longrightarrow> quiet_frame db db2"
  shows "quiet_frame (sv_db sv) (sv_db sv')"
  using assms(1)
proof (cases rule: command_frame_cases)
  case (executed tok s f run identity w db1 view db2)
  have c: "commands_only (sv_db sv) db1" by (rule receipt_commands [OF executed(4) assms(2)])
  have "quiet_frame (sv_db sv) db2"
    using quiet_commands [OF c] assms(3) [OF commands_only_ok [OF assms(2) c] executed(6)]
    by (rule quiet_frame_trans)
  then show ?thesis using executed(8) by simp
qed auto

lemma start_task_quiet:
  assumes "db_ok sha db" "start_task env req s f db = Inr (view, db2)"
  shows "quiet_frame db db2"
proof -
  from start_task_Inr [OF assms(2)] obtain db1 where
    ins: "insert_attempt (new_attempt (en_random env 0) s (ss_tasks s ! ss_index s) (en_clock env 1) (f_policy f)) db = Inr db1"
    and save: "save_receipt (en_clock env 2) (en_clock env 3) (en_clock env 4) (en_clock env 5) (ss_id s)
        (sr_command req) ''start'' (en_sha env (sr_task req)) (ss_index s) (en_random env 0) db1 = Inr db2"
    by blast
  have "quiet_frame db1 db2"
    using save by (auto simp: save_receipt_def Let_def insert_command_Inr quiet_frame_def split: if_splits)
  with quiet_insert_attempt [OF ins] show ?thesis by (rule quiet_frame_trans)
qed

lemma finish_attempt_quiet:
  assumes "finish_attempt env req s f db = Inr (view, db3)"
  shows "quiet_frame db db3"
proof -
  obtain a log a1 s1 db1 g n c where
    app: "append_events (\<lambda>k. en_clock env (k + 8)) s f a (fr_batch req) (Some (fr_outcome req, fr_node req)) db
        = Inr (log, a1, s1, db1)"
    and save: "save_receipt (en_clock env 2) (en_clock env 3) (en_clock env 4) (en_clock env 5) (ss_id s1)
        (fr_command req) ''finish'' (en_sha env (finish_json req)) n []
        (finish_update (at_id a1) g (ss_id s1) n c db1) = Inr db3"
    using finish_attempt_Inr [OF assms] by blast
  have "quiet_frame (finish_update (at_id a1) g (ss_id s1) n c db1) db3"
    using save by (auto simp: save_receipt_def Let_def insert_command_Inr quiet_frame_def split: if_splits)
  with quiet_append [OF app] quiet_finish_update show ?thesis by (blast intro: quiet_frame_trans)
qed

lemma start_quiet: "db_ok sha (sv_db sv) \<Longrightarrow> start env req sv = (r, sv') \<Longrightarrow> quiet_frame (sv_db sv) (sv_db sv')"
  using command_quiet [where sha = sha and body = "start_task env req"] start_task_quiet
  by (auto simp: start_frame split: option.splits if_splits)

lemma finish_quiet: "db_ok sha (sv_db sv) \<Longrightarrow> finish env req sv = (r, sv') \<Longrightarrow> quiet_frame (sv_db sv) (sv_db sv')"
  using command_quiet [where sha = sha and body = "finish_attempt env req"] finish_attempt_quiet
  by (auto simp: finish_frame split: option.splits if_splits)

lemma events_quiet:
  assumes "events env req sv = (r, sv')"
  shows "quiet_frame (sv_db sv) (sv_db sv')"
  using assms
proof (cases rule: events_cases)
  case (appended tok s f run identity w a log a1 s1 db1)
  then show ?thesis using quiet_append [OF appended(7)] by simp
qed auto

text \<open>Every request of a participant is quiet, or it enrols one.\<close>

lemma participant_step_cases:
  assumes "participant_step sha sv sv'" "db_ok sha (sv_db sv)"
  obtains "quiet_frame (sv_db sv) (sv_db sv')"
  | env slug run f engine identity req s where "en_sha env = sha" "load_run rn_slug slug (sv_db sv) = Inr run"
      "load_snapshot sha (sv_db sv) (rn_version run) = Inr f" "resolve_policy (f_policy f) = Inr engine"
      "enrol env engine f run identity req (sv_db sv) = Inr (s, sv_db sv')"
  using assms(1)
proof (cases rule: participant_step.cases)
  case (step_join env req r)
  from join_quiet_or_enrols [OF step_join(2)] that step_join(1) show ?thesis by blast
next
  case (step_session env slug cookie r)
  with session_unchanged that(1) show ?thesis by (metis quiet_frame_refl)
next
  case (step_start env req r)
  with start_quiet [OF assms(2)] that(1) show ?thesis by blast
next
  case (step_events env req n)
  with events_quiet that(1) show ?thesis by blast
next
  case (step_finish env req r)
  with finish_quiet [OF assms(2)] that(1) show ?thesis by blast
qed

lemma participant_step_frame:
  assumes "participant_step sha sv sv'" "db_ok sha (sv_db sv)"
  shows "participant_frame (sv_db sv) (sv_db sv')"
  using assms
proof (cases rule: participant_step_cases)
  case 1
  then show ?thesis by (rule quiet_frame_participant)
next
  case (2 env slug run f engine identity req s)
  from enrol_frame [OF 2(2,5)] show ?thesis .
qed

end
