(* ===== verification/Stamps.thy ===== *)
theory Stamps
  imports Clock "HOL-Library.Product_Lexorder" "HOL-Library.Multiset"
begin

text \<open>
  The order of stored timestamps as a linear order, and the \<open>ORDER BY\<close> clauses of the queries. A
  stamp is what SQL compares: the seconds, which have a fixed width in the text, and the rest of
  the text. With the library's orders on lists and pairs, a clause is a stable sort by a key.
\<close>

datatype stamp = Stamp (stamp_second: nat) (stamp_text: string)

instantiation stamp :: linorder
begin

definition less_stamp :: "stamp \<Rightarrow> stamp \<Rightarrow> bool" where
  "less_stamp a b \<longleftrightarrow> stamp_second a < stamp_second b
     \<or> (stamp_second a = stamp_second b \<and> stamp_text a < stamp_text b)"

definition less_eq_stamp :: "stamp \<Rightarrow> stamp \<Rightarrow> bool" where
  "less_eq_stamp a b \<longleftrightarrow> a < b \<or> a = b"

instance
proof
  fix x y :: stamp
  show "x \<le> y \<or> y \<le> x"
    by (cases x; cases y) (auto simp: less_stamp_def less_eq_stamp_def)
qed (auto simp: less_stamp_def less_eq_stamp_def stamp.expand)

end

definition stamp_of :: "time \<Rightarrow> stamp" where
  "stamp_of t = Stamp (t div second) (stamp_suffix t)"

lemma text_less_stamp: "text_less a b \<longleftrightarrow> stamp_of a < stamp_of b"
  by (simp add: text_less_def stamp_of_def less_stamp_def)

lemma text_le_stamp: "text_le a b \<longleftrightarrow> stamp_of a \<le> stamp_of b"
  by (simp add: text_le_def text_less_stamp not_less)

text \<open>\<open>ORDER BY k DESC\<close>, rows with equal keys staying in the order they had.\<close>

definition order_desc :: "('r \<Rightarrow> 'k :: linorder) \<Rightarrow> 'r list \<Rightarrow> 'r list" where
  "order_desc k rows = rev (sort_key k (rev rows))"

lemma order_desc_mset [simp]: "mset (order_desc k rows) = mset rows"
  by (simp add: order_desc_def)

lemma order_desc_set [simp]: "set (order_desc k rows) = set rows"
  by (simp add: order_desc_def)

lemma order_desc_sorted: "sorted_wrt (\<lambda>a b. k b \<le> k a) (order_desc k rows)"
  using sorted_sort_key [of k "rev rows"]
  by (simp add: order_desc_def sorted_wrt_rev sorted_map)

text \<open>\<open>ORDER BY created_at DESC, id\<close>.\<close>

definition newest_first :: "('r \<Rightarrow> time) \<Rightarrow> ('r \<Rightarrow> string) \<Rightarrow> 'r list \<Rightarrow> 'r list" where
  "newest_first created ident rows = order_desc (\<lambda>r. stamp_of (created r)) (sort_key ident rows)"

definition oldest_first :: "('r \<Rightarrow> time) \<Rightarrow> ('r \<Rightarrow> string) \<Rightarrow> 'r list \<Rightarrow> 'r list" where
  "oldest_first created ident rows = sort_key (\<lambda>r. (stamp_of (created r), ident r)) rows"

lemma newest_first_mset [simp]: "mset (newest_first c i rows) = mset rows"
  by (simp add: newest_first_def)

lemma oldest_first_mset [simp]: "mset (oldest_first c i rows) = mset rows"
  by (simp add: oldest_first_def)

lemma newest_first_set [simp]: "set (newest_first c i rows) = set rows"
  by (simp add: newest_first_def)

lemma oldest_first_set [simp]: "set (oldest_first c i rows) = set rows"
  by (simp add: oldest_first_def)

text \<open>
  The comparison is not that of the instants: half a second later the text is smaller. An invitation or
  a receipt that expires within the second of the comparison may count as expired before its time.
\<close>

theorem text_order_not_chronological: "(0 :: time) < second div 2 \<and> second div 2 < second \<and> text_less (second div 2) 0"
proof -
  have "stamp_suffix 0 = ''Z''" by (simp add: stamp_suffix_def fraction_digits_def)
  moreover have "stamp_suffix (second div 2) = ''.5Z''" by (simp add: stamp_suffix_def fraction_digits_def second_def Let_def)
  moreover have "''.5Z'' < ''Z''" by (simp add: less_char_def)
  ultimately have "stamp_suffix (second div 2) < stamp_suffix 0" by simp
  then show ?thesis by (simp add: text_less_def second_def)
qed

end
