(* ===== verification/RunAdmin.thy ===== *)
theory RunAdmin
  imports Participant Stamps
begin

text \<open>
  The administration of runs: \<open>createRun\<close>, \<open>listRuns\<close> and \<open>updateRun\<close> of \<open>admin.go\<close>,
  \<open>createInvitation\<close>, the purge of \<open>purge.go\<close> and the published versions of \<open>studies.go\<close>. The
  handlers take the environment of the request and the database and return the answer with the new
  database; on an error it is the database they started with.
\<close>

section \<open>Creating a run\<close>

fun slug_rest :: "bool \<Rightarrow> string \<Rightarrow> bool" where
  "slug_rest letter [] = letter"
| "slug_rest letter (c # cs) =
     (if (CHR ''a'' \<le> c \<and> c \<le> CHR ''z'') \<or> (CHR ''0'' \<le> c \<and> c \<le> CHR ''9'') then slug_rest True cs
      else c = CHR ''-'' \<and> letter \<and> slug_rest False cs)"

text \<open>\<open>slugPattern\<close>: words of letters and digits, separated by single hyphens.\<close>

definition slug_pattern :: "string \<Rightarrow> bool" where
  "slug_pattern s \<longleftrightarrow> slug_rest False s"

definition code_text :: "char \<Rightarrow> nat \<Rightarrow> string" where
  "code_text c n = c # (if n < 10 then ''0'' @ decimal n else decimal n)"

text \<open>The blinding codes: the n-th key of a list gets the code with number n.\<close>

fun assign_codes :: "char \<Rightarrow> nat \<Rightarrow> string list \<Rightarrow> (string \<times> string) list \<Rightarrow> (string \<times> string) list" where
  "assign_codes c n [] m = m"
| "assign_codes c n (k # ks) m = assign_codes c (Suc n) ks (put k (code_text c n) m)"

record create_run_request =
  cr_version :: string
  cr_slug :: string
  cr_mode :: string
  cr_cap :: int
  cr_recruitment :: string
  cr_retention :: int

text \<open>The defaults of the optional fields.\<close>

definition fill_request :: "create_run_request \<Rightarrow> create_run_request" where
  "fill_request q = q\<lparr>cr_cap := (if cr_cap q = 0 then 200 else cr_cap q),
     cr_recruitment := (if cr_recruitment q = [] then ''public'' else cr_recruitment q),
     cr_retention := (if cr_retention q = 0 then 90 else cr_retention q)\<rparr>"

definition check_request :: "create_run_request \<Rightarrow> api_error option" where
  "check_request q =
     (if length (cr_slug q) > 80 \<or> \<not> slug_pattern (cr_slug q)
        then Some (Problem 422 (''slug must be 1'' @ [CHR 0xE2, CHR 0x80, CHR 0x93]
          @ ''80 lowercase letters, digits and single hyphens''))
      else if cr_mode q \<noteq> ''pilot'' \<and> cr_mode q \<noteq> ''real'' then Some (Problem 422 ''mode must be pilot or real'')
      else if cr_cap (fill_request q) < 1 \<or> cr_cap (fill_request q) > 10000
        then Some (Problem 422 ''enrollment_cap must be between 1 and 10000'')
      else if cr_recruitment (fill_request q) \<noteq> ''public'' \<and> cr_recruitment (fill_request q) \<noteq> ''invitation''
        then Some (Problem 422 ''recruitment must be public or invitation'')
      else if cr_retention (fill_request q) < 1 \<or> cr_retention (fill_request q) > 3650
        then Some (Problem 422 ''retention_days must be between 1 and 3650'')
      else None)"

definition insert_run :: "run_row \<Rightarrow> database \<Rightarrow> database result" where
  "insert_run r db =
     (if rn_version r \<notin> vr_id ` set (db_versions db) then Inl (constraint_failed ''FOREIGN KEY'')
      else if tbl_lookup rn_slug (rn_slug r) (db_runs db) \<noteq> None then Inl (constraint_failed ''UNIQUE'')
      else case tbl_insert rn_id r (db_runs db) of
          None \<Rightarrow> Inl (constraint_failed ''UNIQUE'')
        | Some t \<Rightarrow> Inr (db\<lparr>db_runs := t\<rparr>))"

definition new_run :: "string \<Rightarrow> time \<Rightarrow> create_run_request \<Rightarrow> (string \<times> string) list \<Rightarrow> (string \<times> string) list \<Rightarrow> run_row" where
  "new_run i now q arms tasks = \<lparr>rn_id = i, rn_slug = cr_slug q, rn_version = cr_version q, rn_mode = cr_mode q,
     rn_status = ''paused'', rn_suspended = False, rn_created = now, rn_arms = arms, rn_tasks = tasks,
     rn_allocation = [], rn_cap = nat (cr_cap q), rn_recruitment = cr_recruitment q,
     rn_retention_days = nat (cr_retention q), rn_closed_at = None, rn_target_at = None, rn_purged_at = None,
     rn_purge_pending = False, rn_event_bytes = 0, rn_data_bytes = 0\<rparr>"

definition create_run :: "environment \<Rightarrow> create_run_request \<Rightarrow> database \<Rightarrow> run_row result \<times> database" where
  "create_run env q db =
     (case check_request q of Some e \<Rightarrow> (Inl e, db)
      | None \<Rightarrow>
        (case load_snapshot (en_sha env) db (cr_version q) of Inl e \<Rightarrow> (Inl e, db)
         | Inr f \<Rightarrow>
           if tbl_count (\<lambda>r. rn_slug r = cr_slug q) (db_runs db) \<noteq> 0
             then (Inl (Problem 409 ''run slug already exists''), db)
           else case shuffle (en_draws env) (cfg_variants (f_config f)) of
               None \<Rightarrow> (Inl (Internal ''random source''), db)
             | Some vs \<Rightarrow>
               (let r = new_run (en_random env 0) (en_clock env 0) (fill_request q)
                      (assign_codes CHR ''A'' 1 (map v_id vs) [])
                      (assign_codes CHR ''T'' 1 (map t_id (cfg_tasks (f_config f))) [])
                in case insert_run r db of Inl e \<Rightarrow> (Inl e, db) | Inr db' \<Rightarrow> (Inr r, db'))))"

text \<open>\<open>listRuns\<close>: newest first; a suspended run shows that status.\<close>

definition shown_run :: "run_row \<Rightarrow> run_row" where
  "shown_run r = (if rn_suspended r then r\<lparr>rn_status := ''suspended''\<rparr> else r)"

definition list_runs :: "database \<Rightarrow> run_row list" where
  "list_runs db = map shown_run (newest_first rn_created rn_id (db_runs db))"

section \<open>The state of a run\<close>

record update_run_request =
  ur_status :: string
  ur_days :: int

definition check_update :: "update_run_request \<Rightarrow> api_error option" where
  "check_update q =
     (if ur_status q = [] \<and> ur_days q = 0 then Some (Problem 422 ''status or retention_days is required'')
      else if ur_status q \<notin> set ['''', ''open'', ''paused'', ''closed'', ''suspended'']
        then Some (Problem 422 ''status must be open, paused, closed or suspended'')
      else if ur_days q \<noteq> 0 \<and> (ur_days q < 1 \<or> ur_days q > 3650)
        then Some (Problem 422 ''retention_days must be between 1 and 3650'')
      else None)"

definition check_transition :: "update_run_request \<Rightarrow> run_row \<Rightarrow> api_error option" where
  "check_transition q r =
     (if rn_purged_at r \<noteq> None \<and> ur_status q = ''open''
        then Some (Problem 409 ''a purged run cannot be reopened'')
      else if rn_purge_pending r \<and> ur_status q \<noteq> [] \<and> ur_status q \<noteq> ''closed'' \<and> ur_status q \<noteq> ''suspended''
        then Some (Problem 409 ''a run awaiting purge cleanup must remain closed'')
      else None)"

text \<open>
  The new columns. A suspension keeps the status; leaving \<open>closed\<close> forgets the closing time; the
  retention target is the closing time plus the retention days (\<open>AddDate\<close> on UTC) and is computed
  again only when the run is closed or the days change.
\<close>

definition closing_time :: "time \<Rightarrow> string \<Rightarrow> run_row \<Rightarrow> time option" where
  "closing_time now status r =
     (if status \<noteq> ''closed'' then None
      else if rn_status r \<noteq> ''closed'' \<or> rn_closed_at r = None then Some now
      else rn_closed_at r)"

definition retention_target :: "time \<Rightarrow> string \<Rightarrow> int \<Rightarrow> nat \<Rightarrow> run_row \<Rightarrow> time option" where
  "retention_target now status asked days r =
     (if status \<noteq> ''closed'' then None
      else
        (let kept = (if rn_status r \<noteq> ''closed'' \<or> rn_closed_at r = None then None else rn_target_at r)
         in if asked \<noteq> 0 \<or> kept = None
            then map_option (\<lambda>t. t + days * day) (closing_time now status r) else kept))"

definition updated_run :: "time \<Rightarrow> update_run_request \<Rightarrow> run_row \<Rightarrow> run_row" where
  "updated_run now q r =
     (let days = (if ur_days q \<noteq> 0 then nat (ur_days q) else rn_retention_days r);
          suspend = (ur_status q = ''suspended'');
          status = (if suspend \<or> ur_status q = [] then rn_status r else ur_status q)
      in r\<lparr>rn_status := status,
           rn_suspended := (if suspend then True else if ur_status q \<noteq> [] then False else rn_suspended r),
           rn_retention_days := days,
           rn_closed_at := closing_time now status r,
           rn_target_at := retention_target now status (ur_days q) days r\<rparr>)"

definition update_run :: "environment \<Rightarrow> string \<Rightarrow> update_run_request \<Rightarrow> database \<Rightarrow> unit result \<times> database" where
  "update_run env i q db =
     (case check_update q of Some e \<Rightarrow> (Inl e, db)
      | None \<Rightarrow>
        (case tbl_lookup rn_id i (db_runs db) of None \<Rightarrow> (Inl (Problem 404 ''run not found''), db)
         | Some r \<Rightarrow>
           (case check_transition q r of Some e \<Rightarrow> (Inl e, db)
            | None \<Rightarrow> (Inr (), db\<lparr>db_runs := tbl_update (\<lambda>r. rn_id r = i) (updated_run (en_clock env 0) q)
                (db_runs db)\<rparr>))))"

end
