(* ===== verification/Invitations.thy ===== *)
theory Invitations
  imports RunAdmin
begin

text \<open>
  \<open>createInvitation\<close> of \<open>invitations.go\<close>: a random token is stored as its digest, and the answer is
  the link that carries it in the fragment.
\<close>

text \<open>\<open>url.PathEscape\<close>: the bytes that stay as they are in a path segment, and the others as \<open>%XX\<close>.\<close>

definition path_plain :: "char \<Rightarrow> bool" where
  "path_plain c \<longleftrightarrow> (CHR ''a'' \<le> c \<and> c \<le> CHR ''z'') \<or> (CHR ''A'' \<le> c \<and> c \<le> CHR ''Z'')
     \<or> (CHR ''0'' \<le> c \<and> c \<le> CHR ''9'') \<or> c \<in> set ''-_.~$&+=:@''"

definition path_escape :: "string \<Rightarrow> string" where
  "path_escape s = concat (map (\<lambda>c. if path_plain c then [c]
     else [CHR ''%'', ''0123456789ABCDEF'' ! (byte c div 16), ''0123456789ABCDEF'' ! (byte c mod 16)]) s)"

definition insert_invitation :: "invitation_row \<Rightarrow> database \<Rightarrow> database result" where
  "insert_invitation r db =
     (if iv_run r \<notin> rn_id ` set (db_runs db) then Inl (constraint_failed ''FOREIGN KEY'')
      else if tbl_lookup iv_hash (iv_hash r) (db_invitations db) \<noteq> None then Inl (constraint_failed ''UNIQUE'')
      else case tbl_insert iv_id r (db_invitations db) of
          None \<Rightarrow> Inl (constraint_failed ''UNIQUE'')
        | Some t \<Rightarrow> Inr (db\<lparr>db_invitations := t\<rparr>))"

text \<open>The answer is the link and the expiry; \<open>origin\<close> is the configured public origin or empty.\<close>

definition create_invitation ::
    "environment \<Rightarrow> string \<Rightarrow> string \<Rightarrow> int \<Rightarrow> database \<Rightarrow> (string \<times> time) result \<times> database" where
  "create_invitation env origin i hours db =
     (let hours = (if hours = 0 then 168 else hours) in
      if hours < 1 \<or> hours > 24 * 30 then (Inl (Problem 422 ''expires_in_hours must be between 1 and 720''), db)
      else case load_run rn_id i db of Inl e \<Rightarrow> (Inl e, db)
      | Inr run \<Rightarrow>
        if rn_recruitment run \<noteq> ''invitation''
          then (Inl (Problem 409 ''this run uses public enrollment, not invitations''), db)
        else if rn_status run = ''suspended'' then (Inl (Problem 409 ''participant writes are suspended''), db)
        else
          (let token = en_random env 0;
               expires = en_clock env 0 + nat hours * hour
           in case insert_invitation \<lparr>iv_id = en_random env 1, iv_run = rn_id run, iv_hash = en_sha env token,
                 iv_created = en_clock env 1, iv_expires = expires, iv_used = None, iv_session = None\<rparr> db of
                Inl e \<Rightarrow> (Inl e, db)
              | Inr db' \<Rightarrow> (Inr (origin @ ''/s/'' @ path_escape (rn_slug run) @ ''#invite='' @ token, expires), db')))"

lemma path_escape_plain: "list_all path_plain s \<Longrightarrow> path_escape s = s"
  by (induction s) (auto simp: path_escape_def)

end
