(* ===== verification/Retention.thy ===== *)
theory Retention
  imports RunAdmin
begin

text \<open>
  The purge of \<open>purge.go\<close>. \<open>PurgeRun\<close> is two transactions with the cleanup of the database file
  between them: \<open>purge_delete\<close> removes the rows and marks the run as pending, \<open>purge_mark\<close> records
  the completed purge. Whether the cleanup (\<open>VACUUM\<close> and the WAL checkpoint, outside the model)
  succeeds is an argument.
\<close>

record purge_preview =
  pp_run :: string
  pp_slug :: string
  pp_sessions :: nat
  pp_attempts :: nat
  pp_events :: nat
  pp_receipts :: nat
  pp_invitations :: nat

text \<open>The rows that belong to a run, through its sessions and their attempts.\<close>

definition run_sessions :: "string \<Rightarrow> database \<Rightarrow> string set" where
  "run_sessions i db = ss_id ` {s \<in> set (db_sessions db). ss_run s = i}"

definition run_attempts :: "string \<Rightarrow> database \<Rightarrow> string set" where
  "run_attempts i db = at_id ` {a \<in> set (db_attempts db). at_session a \<in> run_sessions i db}"

definition preview :: "database \<Rightarrow> run_row \<Rightarrow> purge_preview" where
  "preview db r = \<lparr>pp_run = rn_id r, pp_slug = rn_slug r,
     pp_sessions = tbl_count (\<lambda>s. ss_run s = rn_id r) (db_sessions db),
     pp_attempts = tbl_count (\<lambda>a. at_session a \<in> run_sessions (rn_id r) db) (db_attempts db),
     pp_events = tbl_count (\<lambda>e. ev_attempt e \<in> run_attempts (rn_id r) db) (db_events db),
     pp_receipts = tbl_count (\<lambda>c. cm_session c \<in> run_sessions (rn_id r) db) (db_commands db),
     pp_invitations = tbl_count (\<lambda>i. iv_run i = rn_id r) (db_invitations db)\<rparr>"

text \<open>\<open>retention_target_at<=?\<close> compares texts; a missing target is \<open>NULL\<close> and never matches.\<close>

definition overdue :: "time \<Rightarrow> run_row \<Rightarrow> bool" where
  "overdue now r \<longleftrightarrow> rn_purge_pending r
     \<or> (case rn_target_at r of None \<Rightarrow> False | Some t \<Rightarrow> text_le t now)"

definition purge_selected :: "time \<Rightarrow> string \<Rightarrow> bool \<Rightarrow> run_row \<Rightarrow> bool" where
  "purge_selected now i overdue_only r \<longleftrightarrow> rn_status r = ''closed''
     \<and> (if i \<noteq> [] then rn_id r = i else rn_purged_at r = None)
     \<and> (overdue_only \<longrightarrow> overdue now r)"

definition purge_candidates :: "time \<Rightarrow> string \<Rightarrow> bool \<Rightarrow> database \<Rightarrow> purge_preview list" where
  "purge_candidates now i overdue_only db =
     map (preview db) (oldest_first rn_created rn_id (filter (purge_selected now i overdue_only) (db_runs db)))"

text \<open>The six statements of the first transaction, in their order.\<close>

definition purge_rows :: "string \<Rightarrow> database \<Rightarrow> database" where
  "purge_rows i db =
     (let sessions = run_sessions i db;
          attempts = run_attempts i db
      in db\<lparr>db_events := tbl_delete (\<lambda>e. ev_attempt e \<in> attempts) (db_events db),
            db_commands := tbl_delete (\<lambda>c. cm_session c \<in> sessions) (db_commands db),
            db_attempts := tbl_delete (\<lambda>a. at_session a \<in> sessions) (db_attempts db),
            db_invitations := tbl_delete (\<lambda>n. iv_run n = i) (db_invitations db),
            db_sessions := tbl_delete (\<lambda>s. ss_run s = i) (db_sessions db),
            db_runs := tbl_update (\<lambda>r. rn_id r = i)
              (\<lambda>r. r\<lparr>rn_event_bytes := 0, rn_data_bytes := 0, rn_purged_at := None, rn_purge_pending := True\<rparr>)
              (db_runs db)\<rparr>)"

definition purge_delete :: "string \<Rightarrow> database \<Rightarrow> unit result \<times> database" where
  "purge_delete i db =
     (case tbl_lookup rn_id i (db_runs db) of
        None \<Rightarrow> (Inl (Problem 404 ''run not found''), db)
      | Some r \<Rightarrow>
          if rn_status r \<noteq> ''closed'' then (Inl (Problem 409 ''only closed runs can be purged''), db)
          else (Inr (), purge_rows i db))"

definition purge_mark :: "time \<Rightarrow> string \<Rightarrow> database \<Rightarrow> database" where
  "purge_mark now i db = db\<lparr>db_runs := tbl_update (\<lambda>r. rn_id r = i)
     (\<lambda>r. r\<lparr>rn_purged_at := Some now, rn_purge_pending := False\<rparr>) (db_runs db)\<rparr>"

text \<open>
  \<open>PurgeRun\<close> without other requests in between; \<open>cleanup\<close> is the error of \<open>sanitizeDatabase\<close>, if any.
\<close>

definition purge_run :: "environment \<Rightarrow> string option \<Rightarrow> string \<Rightarrow> database \<Rightarrow> unit result \<times> database" where
  "purge_run env cleanup i db =
     (case purge_delete i db of
        (Inl e, db1) \<Rightarrow> (Inl e, db1)
      | (Inr _, db1) \<Rightarrow>
          (case cleanup of
             Some err \<Rightarrow> (Inl (Internal (''participant rows deleted; database cleanup is pending: '' @ err
               @ ''; retry purge --run '' @ i @ '' --confirm'')), db1)
           | None \<Rightarrow> (Inr (), purge_mark (en_clock env 0) i db1)))"

text \<open>\<open>sanitizeDatabase\<close>: the errors of \<open>VACUUM\<close> and of the checkpoint, and the busy flag it reports.\<close>

definition sanitize_database :: "string option \<Rightarrow> string option \<Rightarrow> int \<Rightarrow> string option" where
  "sanitize_database vacuum checkpoint busy =
     (case vacuum of Some e \<Rightarrow> Some e
      | None \<Rightarrow> (case checkpoint of Some e \<Rightarrow> Some e
        | None \<Rightarrow> if busy \<noteq> 0 then Some ''WAL checkpoint blocked by another database connection'' else None))"

end
