(* ===== verification/Studies.thy ===== *)
theory Studies
  imports RunAdmin
begin

text \<open>
  The published versions of \<open>studies.go\<close>: the listing with the number of runs of a version, and
  \<open>RemoveStudy\<close>, which deletes a version only while no run uses it. The trigger that guards the
  table is dropped and restored inside the same transaction, so it leaves no trace in the state.
\<close>

record published_study =
  ps_id :: string
  ps_slug :: string
  ps_title :: string
  ps_hash :: string
  ps_created :: time
  ps_runs :: nat

definition runs_of :: "string \<Rightarrow> database \<Rightarrow> nat" where
  "runs_of i db = tbl_count (\<lambda>r. rn_version r = i) (db_runs db)"

definition published :: "database \<Rightarrow> version_row \<Rightarrow> published_study" where
  "published db v = \<lparr>ps_id = vr_id v, ps_slug = vr_slug v, ps_title = vr_title v, ps_hash = vr_hash v,
     ps_created = vr_created v, ps_runs = runs_of (vr_id v) db\<rparr>"

definition list_studies :: "database \<Rightarrow> published_study list" where
  "list_studies db = map (published db) (newest_first vr_created vr_id (db_versions db))"

definition unknown_study :: "string \<Rightarrow> api_error" where
  "unknown_study i = Internal (''study version '' @ i @ '' not found'')"

definition get_study :: "string \<Rightarrow> database \<Rightarrow> published_study result" where
  "get_study i db = (case tbl_lookup vr_id i (db_versions db) of
     None \<Rightarrow> Inl (unknown_study i) | Some v \<Rightarrow> Inr (published db v))"

definition remove_study :: "string \<Rightarrow> database \<Rightarrow> unit result \<times> database" where
  "remove_study i db =
     (if i = [] then (Inl (Internal ''study version ID is required''), db)
      else case tbl_lookup vr_id i (db_versions db) of
          None \<Rightarrow> (Inl (unknown_study i), db)
        | Some v \<Rightarrow>
            if runs_of i db \<noteq> 0
              then (Inl (Internal (''study version '' @ i @ '' has '' @ decimal (runs_of i db)
                @ '' run(s); cannot remove a version used by a run'')), db)
            else (Inr (), db\<lparr>db_versions := tbl_delete (\<lambda>v. vr_id v = i) (db_versions db)\<rparr>))"

end
