(* ===== verification/RunLife.thy ===== *)
theory RunLife
  imports ParticipantFrame Invitations Retention Studies
begin

text \<open>
  The invariants of runs, versions and invitations, and the administrator's operations on them. Each
  operation keeps the participant invariants of \<open>ParticipantInv\<close> as well, so that both kinds of
  requests may be mixed.
\<close>

section \<open>Invariants\<close>

text \<open>
  The life of a run: only a closed run has a closing time, and its retention target is that time
  plus the retention days; a pending purge keeps it closed, and after a purge it never opens again.
\<close>

definition run_life :: "run_row \<Rightarrow> bool" where
  "run_life r \<longleftrightarrow> rn_status r \<in> {''open'', ''paused'', ''closed''}
     \<and> (rn_status r = ''closed'' \<longrightarrow> (\<exists>t. rn_closed_at r = Some t \<and> rn_target_at r = Some (t + rn_retention_days r * day)))
     \<and> (rn_status r \<noteq> ''closed'' \<longrightarrow> rn_closed_at r = None \<and> rn_target_at r = None)
     \<and> (rn_purge_pending r \<longrightarrow> rn_status r = ''closed'')
     \<and> (rn_purged_at r \<noteq> None \<longrightarrow> rn_status r \<noteq> ''open'')"

definition purge_begun :: "run_row \<Rightarrow> bool" where
  "purge_begun r \<longleftrightarrow> rn_purge_pending r \<or> rn_purged_at r \<noteq> None"

definition runs_life_ok :: "database \<Rightarrow> bool" where
  "runs_life_ok db \<longleftrightarrow> (\<forall>r \<in> set (db_runs db). run_life r
     \<and> (purge_begun r \<longrightarrow> (\<forall>s \<in> set (db_sessions db). ss_run s \<noteq> rn_id r)))"

definition versions_ok :: "database \<Rightarrow> bool" where
  "versions_ok db \<longleftrightarrow> tbl_keys vr_id (db_versions db) \<and> tbl_keys vr_hash (db_versions db)
     \<and> rn_version ` set (db_runs db) \<subseteq> vr_id ` set (db_versions db)"

definition invitations_ok :: "database \<Rightarrow> bool" where
  "invitations_ok db \<longleftrightarrow> tbl_keys iv_id (db_invitations db) \<and> tbl_keys iv_hash (db_invitations db)
     \<and> (\<forall>r \<in> set (db_runs db). rn_recruitment r = ''invitation'' \<longrightarrow>
          (\<forall>s \<in> set (db_sessions db). ss_run s = rn_id r \<longrightarrow> has_invitation (db_invitations db) s))"

definition site_db_ok :: "(string \<Rightarrow> string) \<Rightarrow> database \<Rightarrow> bool" where
  "site_db_ok sha db \<longleftrightarrow> db_ok sha db \<and> runs_life_ok db \<and> versions_ok db \<and> invitations_ok db"

section \<open>Participant requests\<close>

lemma run_core_fields:
  assumes "run_core r' = run_core r"
  shows "rn_id r' = rn_id r" "rn_version r' = rn_version r" "rn_recruitment r' = rn_recruitment r"
    "rn_status r' = rn_status r" "run_life r' = run_life r" "purge_begun r' = purge_begun r"
proof -
  have "\<And>q. rn_id (run_core q) = rn_id q \<and> rn_version (run_core q) = rn_version q
      \<and> rn_recruitment (run_core q) = rn_recruitment q \<and> rn_status (run_core q) = rn_status q
      \<and> run_life (run_core q) = run_life q \<and> purge_begun (run_core q) = purge_begun q"
    by (simp add: run_core_def run_life_def purge_begun_def)
  from this [of r] this [of r'] assms
  show "rn_id r' = rn_id r" "rn_version r' = rn_version r" "rn_recruitment r' = rn_recruitment r"
    "rn_status r' = rn_status r" "run_life r' = run_life r" "purge_begun r' = purge_begun r" by simp_all
qed

lemma map_eq_member: "map f xs = map f ys \<Longrightarrow> x \<in> set xs \<Longrightarrow> \<exists>y \<in> set ys. f x = f y"
  by (metis (no_types, lifting) imageE image_eqI list.set_map)

lemma invitation_kept_image:
  assumes "list_all2 invitation_kept invs invs'"
  shows "map iv_id invs' = map iv_id invs" "map iv_hash invs' = map iv_hash invs"
    "has_invitation invs s \<Longrightarrow> has_invitation invs' s"
proof -
  show "map iv_id invs' = map iv_id invs" "map iv_hash invs' = map iv_hash invs"
    using assms by (induction) (auto simp: invitation_kept_def)
  assume "has_invitation invs s"
  then obtain i where i: "i \<in> set invs" "iv_used i \<noteq> None" "iv_run i = ss_run s" "iv_session i = Some (ss_id s)"
    by (auto simp: has_invitation_def)
  have "i \<in> set invs'"
    using assms i(1,2) by (induction) (auto simp: invitation_kept_def)
  with i show "has_invitation invs' s" by (auto simp: has_invitation_def)
qed

lemma participant_frame_ok:
  assumes "participant_frame db db'" "runs_life_ok db" "versions_ok db" "invitations_ok db" "keys_ok db"
  shows "runs_life_ok db' \<and> versions_ok db' \<and> invitations_ok db'"
proof (intro conjI)
  have core: "\<exists>r \<in> set (db_runs db). run_core r' = run_core r" if "r' \<in> set (db_runs db')" for r'
    using assms(1) that by (intro map_eq_member) (simp_all add: participant_frame_def)
  have invs: "list_all2 invitation_kept (db_invitations db) (db_invitations db')"
    and sess: "known db s \<or> admitted db (db_invitations db') s" if "s \<in> set (db_sessions db')" for s
    using assms(1) that by (simp_all add: participant_frame_def)
  have invs: "list_all2 invitation_kept (db_invitations db) (db_invitations db')"
    using assms(1) by (simp add: participant_frame_def)
  have same: "r = q" if "r \<in> set (db_runs db)" "q \<in> set (db_runs db)" "rn_id r = rn_id q" for r q
    using keys_ok_eq(1) [OF assms(5)] that by blast
  show "runs_life_ok db'"
    unfolding runs_life_ok_def
  proof (intro ballI conjI impI)
    fix r' assume "r' \<in> set (db_runs db')"
    from core [OF this] obtain r where r: "r \<in> set (db_runs db)" "run_core r' = run_core r" by blast
    note eq = run_core_fields [OF r(2)]
    show "run_life r'" using assms(2) r(1) eq by (simp add: runs_life_ok_def)
    fix s assume begun: "purge_begun r'" and s: "s \<in> set (db_sessions db')"
    have none: "ss_run q \<noteq> rn_id r" if "q \<in> set (db_sessions db)" for q
      using assms(2) r(1) begun eq that by (simp add: runs_life_ok_def)
    show "ss_run s \<noteq> rn_id r'"
    proof
      assume e: "ss_run s = rn_id r'"
      from sess [OF s] show False
      proof
        assume "known db s"
        then obtain q where "q \<in> set (db_sessions db)" "ss_run q = ss_run s" by (auto simp: known_def)
        with none [of q] e eq(1) show False by simp
      next
        assume "admitted db (db_invitations db') s"
        then obtain q where q: "q \<in> set (db_runs db)" "rn_id q = ss_run s" "rn_status q = ''open''"
          by (auto simp: admitted_def)
        with same [OF q(1) r(1)] e eq have "rn_status r' = ''open''" by simp
        with begun \<open>run_life r'\<close> show False by (auto simp: run_life_def purge_begun_def)
      qed
    qed
  qed
  show "versions_ok db'"
  proof -
    have "rn_version ` set (db_runs db') \<subseteq> rn_version ` set (db_runs db)"
    proof
      fix v assume "v \<in> rn_version ` set (db_runs db')"
      then obtain r' where r': "r' \<in> set (db_runs db')" "v = rn_version r'" by blast
      from core [OF r'(1)] obtain r where r: "r \<in> set (db_runs db)" "run_core r' = run_core r" by blast
      with r'(2) run_core_fields(2) [OF r(2)] show "v \<in> rn_version ` set (db_runs db)" by simp
    qed
    moreover have "db_versions db' = db_versions db" using assms(1) by (simp add: participant_frame_def)
    ultimately show ?thesis using assms(3) unfolding versions_ok_def by (metis order_trans)
  qed
  show "invitations_ok db'"
    unfolding invitations_ok_def
  proof (intro conjI ballI impI)
    show "tbl_keys iv_id (db_invitations db')" "tbl_keys iv_hash (db_invitations db')"
      using assms(4) invitation_kept_image [OF invs] by (simp_all add: invitations_ok_def tbl_keys_def)
    fix r' s assume r': "r' \<in> set (db_runs db')" "rn_recruitment r' = ''invitation''"
      and s: "s \<in> set (db_sessions db')" "ss_run s = rn_id r'"
    from core [OF r'(1)] obtain r where r: "r \<in> set (db_runs db)" "run_core r' = run_core r" by blast
    note eq = run_core_fields [OF r(2)]
    from sess [OF s(1)] show "has_invitation (db_invitations db') s"
    proof
      assume "known db s"
      then obtain q where q: "q \<in> set (db_sessions db)" "ss_id q = ss_id s" "ss_run q = ss_run s"
        by (auto simp: known_def)
      with assms(4) r(1) r'(2) s(2) eq have "has_invitation (db_invitations db) q"
        by (simp add: invitations_ok_def)
      with q have "has_invitation (db_invitations db) s" by (simp add: has_invitation_def)
      then show ?thesis by (rule invitation_kept_image(3) [OF invs])
    next
      assume "admitted db (db_invitations db') s"
      then obtain q where q: "q \<in> set (db_runs db)" "rn_id q = ss_run s"
        "rn_recruitment q = ''invitation'' \<longrightarrow> has_invitation (db_invitations db') s" by (auto simp: admitted_def)
      with same [OF q(1) r(1)] s(2) eq(1,3) r'(2) show ?thesis by simp
    qed
  qed
qed

lemma participant_step_site:
  assumes "participant_step sha sv sv'" "server_ok sha sv" "site_db_ok sha (sv_db sv)"
  shows "site_db_ok sha (sv_db sv') \<and> server_ok sha sv'"
proof -
  have "server_ok sha sv'" by (rule participant_step_ok [OF assms(1,2)])
  moreover have "participant_frame (sv_db sv) (sv_db sv')"
    using participant_step_frame [OF assms(1)] assms(2) by (simp add: server_ok_def)
  ultimately show ?thesis
    using participant_frame_ok assms(3) by (auto simp: site_db_ok_def server_ok_def db_ok_def)
qed

end
