(* ===== verification/RunOps.thy ===== *)
theory RunOps
  imports RunLife
begin

text \<open>Every administrator's operation on runs, versions and invitations keeps the invariants.\<close>

section \<open>Updates of runs\<close>

definition account_kept :: "run_row \<Rightarrow> run_row \<Rightarrow> bool" where
  "account_kept r q \<longleftrightarrow> same_run r q \<and> rn_event_bytes q = rn_event_bytes r \<and> rn_data_bytes q = rn_data_bytes r"

lemma logs_ok_frame:
  assumes "logs_ok sha db" "db_sessions db' = db_sessions db" "db_attempts db' = db_attempts db"
    "db_events db' = db_events db" "\<And>s f. s \<in> set (db_sessions db) \<Longrightarrow> session_study sha db' s f \<Longrightarrow> session_study sha db s f"
  shows "logs_ok sha db'"
  using assms(1,5) load_events_frame [OF assms(4)] unfolding logs_ok_def attempt_log_ok_def assms(2,3) by simp

lemma runs_update_ok:
  assumes ok: "db_ok sha db" and g: "\<And>r. account_kept r (g r)"
  shows "db_ok sha (db\<lparr>db_runs := tbl_update p g (db_runs db)\<rparr>)"
proof -
  define db' where "db' = db\<lparr>db_runs := tbl_update p g (db_runs db)\<rparr>"
  have fr: "db_versions db' = db_versions db" "db_attempts db' = db_attempts db" "db_events db' = db_events db"
    "db_commands db' = db_commands db" "db_sessions db' = db_sessions db" "db_runs db' = tbl_update p g (db_runs db)"
    by (simp_all add: db'_def)
  have same: "same_run r (g r)" for r using g [of r] by (simp add: account_kept_def)
  then have key: "rn_id (g r) = rn_id r" "rn_slug (g r) = rn_slug r" for r by (simp_all add: same_run_def)
  note parts = ok [unfolded db_ok_def]
  have "keys_ok db'" using parts by (simp add: keys_ok_def fr tbl_update_keys key)
  moreover have "refs_ok db'"
    using parts unfolding refs_ok_def fr by (simp add: image_tbl_update key)
  moreover have "event_rows_ok db'" using parts event_rows_frame [OF fr(3)] by simp
  moreover have "logs_ok sha db'"
    using session_study_runs [OF fr(6) same fr(1) refl]
    by (intro logs_ok_frame [OF _ fr(5,2,3)]) (use parts in simp_all)
  moreover have "accounts_ok db'"
  proof -
    have "run_account_ok db' r'" if r': "r' \<in> set (db_runs db')" for r'
    proof -
      obtain r where r: "r \<in> set (db_runs db)" "r' = (if p r then g r else r)"
        using r' by (auto simp: fr(6) tbl_update_set)
      have "run_account_ok db r" using parts r(1) by (simp add: accounts_ok_def)
      then show ?thesis
        using r(2) g [of r] by (simp add: run_account_ok_def fr(5) account_kept_def same_run_def)
    qed
    with parts account_frames(1) [OF fr(2)] show ?thesis by (simp add: accounts_ok_def fr(5))
  qed
  moreover have "caps_ok db'"
    unfolding caps_ok_def
  proof
    fix r' assume "r' \<in> set (db_runs db')"
    then obtain r where r: "r \<in> set (db_runs db)" "r' = (if p r then g r else r)"
      by (auto simp: fr(6) tbl_update_set)
    have "rn_id r' = rn_id r" "rn_cap r' = rn_cap r" using r(2) same [of r] by (simp_all add: same_run_def)
    with parts r(1) show "tbl_count (\<lambda>s. ss_run s = rn_id r') (db_sessions db') \<le> rn_cap r'"
      by (simp add: caps_ok_def fr(5))
  qed
  moreover have "progress_ok db'"
    using parts session_progress_frame [OF fr(2)] by (simp add: progress_ok_def fr(5))
  ultimately show ?thesis by (simp add: db_ok_def db'_def)
qed

lemma site_runs_update:
  assumes ok: "site_db_ok sha db" and g: "\<And>r. account_kept r (g r)" "\<And>r. rn_recruitment (g r) = rn_recruitment r"
    and life: "\<And>r. r \<in> set (db_runs db) \<Longrightarrow> p r \<Longrightarrow> run_life r \<Longrightarrow> run_life (g r)"
    and begun: "\<And>r. r \<in> set (db_runs db) \<Longrightarrow> p r \<Longrightarrow> purge_begun (g r) \<Longrightarrow> purge_begun r"
  shows "site_db_ok sha (db\<lparr>db_runs := tbl_update p g (db_runs db)\<rparr>)"
proof -
  define db' where "db' = db\<lparr>db_runs := tbl_update p g (db_runs db)\<rparr>"
  have fr: "db_versions db' = db_versions db" "db_sessions db' = db_sessions db"
    "db_invitations db' = db_invitations db" by (simp_all add: db'_def)
  have old: "\<exists>r \<in> set (db_runs db). r' = (if p r then g r else r)" if "r' \<in> set (db_runs db')" for r'
    using that by (auto simp: db'_def tbl_update_set)
  have key: "rn_id (g r) = rn_id r" "rn_version (g r) = rn_version r" for r
    using g(1) [of r] by (simp_all add: account_kept_def same_run_def)
  have "runs_life_ok db'"
    unfolding runs_life_ok_def
  proof (intro ballI conjI impI)
    fix r' assume "r' \<in> set (db_runs db')"
    from old [OF this] obtain r where r: "r \<in> set (db_runs db)" "r' = (if p r then g r else r)" by blast
    then have l: "run_life r" using ok by (simp add: site_db_ok_def runs_life_ok_def)
    then show "run_life r'" using r life by simp
    fix s assume "purge_begun r'" "s \<in> set (db_sessions db')"
    then have "purge_begun r" "s \<in> set (db_sessions db)" using r begun fr(2) by (auto split: if_splits)
    with ok r(1) have "ss_run s \<noteq> rn_id r" by (simp add: site_db_ok_def runs_life_ok_def)
    then show "ss_run s \<noteq> rn_id r'" using r(2) key by simp
  qed
  moreover have "versions_ok db'"
    using ok unfolding site_db_ok_def versions_ok_def fr db'_def by (simp add: image_tbl_update key)
  moreover have "invitations_ok db'"
    unfolding invitations_ok_def fr
  proof (intro conjI ballI impI)
    show "tbl_keys iv_id (db_invitations db)" "tbl_keys iv_hash (db_invitations db)"
      using ok by (simp_all add: site_db_ok_def invitations_ok_def)
    fix r' s assume r': "r' \<in> set (db_runs db')" "rn_recruitment r' = ''invitation''"
      and s: "s \<in> set (db_sessions db)" "ss_run s = rn_id r'"
    from old [OF r'(1)] obtain r where r: "r \<in> set (db_runs db)" "r' = (if p r then g r else r)" by blast
    have "rn_recruitment r = ''invitation''" "ss_run s = rn_id r" using r(2) r'(2) s(2) g(2) key by (cases "p r"; simp)+
    with ok r(1) s(1) show "has_invitation (db_invitations db) s" by (simp add: site_db_ok_def invitations_ok_def)
  qed
  ultimately show ?thesis
    using ok runs_update_ok [OF _ g(1)] by (simp add: site_db_ok_def db'_def)
qed

section \<open>The status of a run\<close>

lemma updated_run_life:
  assumes "check_update q = None" "check_transition q r = None" "run_life r"
  shows "run_life (updated_run now q r)"
proof -
  define status where "status = (if ur_status q = ''suspended'' \<or> ur_status q = [] then rn_status r else ur_status q)"
  define days where "days = (if ur_days q \<noteq> 0 then nat (ur_days q) else rn_retention_days r)"
  have new: "rn_status (updated_run now q r) = status" "rn_retention_days (updated_run now q r) = days"
    "rn_closed_at (updated_run now q r) = closing_time now status r"
    "rn_target_at (updated_run now q r) = retention_target now status (ur_days q) days r"
    "rn_purge_pending (updated_run now q r) = rn_purge_pending r" "rn_purged_at (updated_run now q r) = rn_purged_at r"
    by (simp_all add: updated_run_def status_def days_def Let_def)
  have range: "status \<in> {''open'', ''paused'', ''closed''}"
    using assms(1,3) by (auto simp: status_def check_update_def run_life_def split: if_splits)
  have target: "\<exists>t. closing_time now status r = Some t \<and> retention_target now status (ur_days q) days r = Some (t + days * day)"
    if c: "status = ''closed''"
  proof (cases "rn_status r \<noteq> ''closed'' \<or> rn_closed_at r = None")
    case True
    with c show ?thesis by (auto simp: closing_time_def retention_target_def Let_def)
  next
    case False
    then obtain t where "rn_closed_at r = Some t" "rn_target_at r = Some (t + rn_retention_days r * day)"
      using assms(3) by (auto simp: run_life_def)
    with False c show ?thesis by (auto simp: closing_time_def retention_target_def Let_def days_def)
  qed
  have "rn_purge_pending r \<longrightarrow> status = ''closed''"
    using assms(2,3) by (auto simp: status_def check_transition_def run_life_def split: if_splits)
  moreover have "rn_purged_at r \<noteq> None \<longrightarrow> status \<noteq> ''open''"
    using assms(2,3) by (auto simp: status_def check_transition_def run_life_def split: if_splits)
  ultimately show ?thesis
    using range target by (simp add: run_life_def new closing_time_def retention_target_def)
qed

lemma update_run_ok:
  assumes "site_db_ok sha db" "update_run env i q db = (r, db')"
  shows "site_db_ok sha db'"
proof (cases r)
  case (Inl e)
  then have "db' = db" using assms(2) by (auto simp: update_run_def split: option.splits)
  with assms(1) show ?thesis by simp
next
  case (Inr u)
  then obtain run where run: "tbl_lookup rn_id i (db_runs db) = Some run" "check_update q = None"
    "check_transition q run = None"
    and db': "db' = db\<lparr>db_runs := tbl_update (\<lambda>r. rn_id r = i) (updated_run (en_clock env 0) q) (db_runs db)\<rparr>"
    using assms(2) by (auto simp: update_run_def split: option.splits)
  have one: "r = run" if "r \<in> set (db_runs db)" "rn_id r = i" for r
    using keys_ok_eq(1) [of db r run] tbl_lookup_Some [OF run(1)] that assms(1) by (simp add: site_db_ok_def db_ok_def)
  show ?thesis
    unfolding db'
  proof (rule site_runs_update [OF assms(1)])
    show "run_life (updated_run (en_clock env 0) q r)" if "r \<in> set (db_runs db)" "rn_id r = i" "run_life r" for r
      using updated_run_life [OF run(2,3)] one that by blast
  qed (simp_all add: account_kept_def same_run_def updated_run_def Let_def purge_begun_def)
qed

end
