(* ===== verification/Publishing.thy ===== *)
theory Publishing
  imports RunOps
begin

text \<open>
  Publishing a version, removing one that no run uses, opening a run for it and issuing invitations:
  the operations that add or remove rows without participant data keep the invariants.
\<close>

section \<open>Versions\<close>

lemma load_snapshot_lookup:
  "tbl_lookup vr_id v (db_versions db') = tbl_lookup vr_id v (db_versions db) \<Longrightarrow>
    load_snapshot sha db' v = load_snapshot sha db v"
  by (simp add: load_snapshot_def)

lemma site_versions_update:
  assumes ok: "site_db_ok sha db" and keys: "tbl_keys vr_id vs" "tbl_keys vr_hash vs"
    and same: "\<And>v. v \<in> rn_version ` set (db_runs db) \<Longrightarrow> tbl_lookup vr_id v vs = tbl_lookup vr_id v (db_versions db)"
  shows "site_db_ok sha (db\<lparr>db_versions := vs\<rparr>)"
proof -
  define db' where "db' = db\<lparr>db_versions := vs\<rparr>"
  have fr: "db_runs db' = db_runs db" "db_attempts db' = db_attempts db" "db_events db' = db_events db"
    "db_commands db' = db_commands db" "db_sessions db' = db_sessions db" "db_invitations db' = db_invitations db"
    by (simp_all add: db'_def)
  have load: "load_snapshot sha db' v = load_snapshot sha db v" if "v \<in> rn_version ` set (db_runs db)" for v
    using same [OF that] by (intro load_snapshot_lookup) (simp add: db'_def)
  have study: "session_study sha db' s f = session_study sha db s f" for s f
    using load unfolding session_study_def fr(1) by auto
  note parts = ok [unfolded site_db_ok_def db_ok_def]
  have "logs_ok sha db'"
    using study by (intro logs_ok_frame [OF _ fr(5,2,3)]) (use parts in simp_all)
  moreover have "keys_ok db'" "refs_ok db'" "caps_ok db'"
    using parts by (simp_all add: keys_ok_def refs_ok_def caps_ok_def fr)
  moreover have "event_rows_ok db'" using parts event_rows_frame [OF fr(3)] by simp
  moreover have "accounts_ok db'"
    using parts account_frames(1) [OF fr(2)] account_frames(2) [OF fr(5)] by (simp add: accounts_ok_def fr)
  moreover have "progress_ok db'" using parts session_progress_frame [OF fr(2)] by (simp add: progress_ok_def fr)
  moreover have "runs_life_ok db'" "invitations_ok db'"
    using parts by (simp_all add: runs_life_ok_def invitations_ok_def fr)
  moreover have "versions_ok db'"
  proof -
    have "v \<in> vr_id ` set vs" if v: "v \<in> rn_version ` set (db_runs db)" for v
    proof -
      have "v \<in> vr_id ` set (db_versions db)" using parts v by (auto simp: versions_ok_def)
      then have "tbl_lookup vr_id v vs \<noteq> None" using same [OF v] by (simp add: tbl_lookup_None)
      then show ?thesis by (simp add: tbl_lookup_None)
    qed
    then show ?thesis using keys unfolding versions_ok_def fr by (auto simp: db'_def)
  qed
  ultimately show ?thesis by (simp add: site_db_ok_def db_ok_def db'_def)
qed

lemma insert_version_ok:
  assumes "site_db_ok sha db" "insert_version_with_policy sha rid now snap p db = Inr (i, db')"
  shows "site_db_ok sha db'"
proof (cases "tbl_lookup vr_hash (publication_hash sha (s_hash snap) p) (db_versions db)")
  case (Some v)
  then have "db' = db" using assms(2) by (auto simp: insert_version_with_policy_def Let_def split: sum.splits)
  with assms(1) show ?thesis by simp
next
  case None
  define v where "v = \<lparr>vr_id = rid, vr_hash = publication_hash sha (s_hash snap) p, vr_content_hash = s_hash snap,
      vr_title = cfg_title (b_config (s_bundle snap)), vr_slug = cfg_slug (b_config (s_bundle snap)),
      vr_snapshot = snap, vr_policy = Some p, vr_created = now\<rparr>"
  have v: "vr_hash v = publication_hash sha (s_hash snap) p" "vr_id v \<notin> vr_id ` set (db_versions db)"
    and db': "db' = db\<lparr>db_versions := db_versions db @ [v]\<rparr>"
    using assms(2) None
    by (auto simp: insert_version_with_policy_def Let_def tbl_insert_def v_def split: sum.splits option.splits if_splits)
  have ins: "tbl_insert vr_id v (db_versions db) = Some (db_versions db @ [v])" using v(2) by (simp add: tbl_insert_Some)
  have k: "tbl_keys vr_id (db_versions db)" "tbl_keys vr_hash (db_versions db)"
    "rn_version ` set (db_runs db) \<subseteq> vr_id ` set (db_versions db)"
    using assms(1) by (simp_all add: site_db_ok_def versions_ok_def)
  show ?thesis
    unfolding db'
  proof (rule site_versions_update [OF assms(1)])
    show "tbl_keys vr_id (db_versions db @ [v])" using k(1) v(2) by (simp add: tbl_keys_snoc)
    show "tbl_keys vr_hash (db_versions db @ [v])"
      using k(2) None v(1) by (simp add: tbl_keys_snoc tbl_lookup_None)
    fix u assume "u \<in> rn_version ` set (db_runs db)"
    with k(3) v(2) have "u \<noteq> vr_id v" by blast
    then show "tbl_lookup vr_id u (db_versions db @ [v]) = tbl_lookup vr_id u (db_versions db)"
      using tbl_lookup_insert [OF ins] by simp
  qed
qed

lemma import_bundle_ok:
  assumes "site_db_ok sha db" "import_bundle sha rid now b db = (r, db')"
  shows "site_db_ok sha db'"
  using assms insert_version_ok
  by (auto simp: import_bundle_def insert_version_def split: sum.splits prod.splits)

lemma remove_study_ok:
  assumes "site_db_ok sha db" "remove_study i db = (r, db')"
  shows "site_db_ok sha db'"
proof (cases r)
  case (Inl e)
  then have "db' = db" using assms(2) by (auto simp: remove_study_def split: if_splits option.splits)
  with assms(1) show ?thesis by simp
next
  case (Inr u)
  then have none: "runs_of i db = 0" and db': "db' = db\<lparr>db_versions := tbl_delete (\<lambda>v. vr_id v = i) (db_versions db)\<rparr>"
    using assms(2) by (auto simp: remove_study_def split: if_splits option.splits)
  have k: "tbl_keys vr_id (db_versions db)" "tbl_keys vr_hash (db_versions db)"
    using assms(1) by (simp_all add: site_db_ok_def versions_ok_def)
  show ?thesis
    unfolding db'
  proof (rule site_versions_update [OF assms(1)])
    fix v assume "v \<in> rn_version ` set (db_runs db)"
    with none have "v \<noteq> i" by (auto simp: runs_of_def tbl_count_zero)
    then show "tbl_lookup vr_id v (tbl_delete (\<lambda>v. vr_id v = i) (db_versions db)) = tbl_lookup vr_id v (db_versions db)"
      using tbl_remove_lookup [OF k(1), of v i] by (simp add: tbl_remove_def)
  qed (use k in \<open>simp_all add: tbl_delete_keys\<close>)
qed

section \<open>Runs and invitations\<close>

lemma insert_run_Inr: "insert_run r db = Inr db' \<longleftrightarrow> rn_version r \<in> vr_id ` set (db_versions db)
    \<and> rn_slug r \<notin> rn_slug ` set (db_runs db) \<and> rn_id r \<notin> rn_id ` set (db_runs db)
    \<and> db' = db\<lparr>db_runs := db_runs db @ [r]\<rparr>"
  by (auto simp: insert_run_def tbl_insert_def tbl_lookup_None split: option.splits if_splits)

lemma insert_run_ok:
  assumes ok: "site_db_ok sha db" and ins: "insert_run r db = Inr db'"
    and new: "run_life r" "\<not> purge_begun r" "rn_event_bytes r = 0" "rn_data_bytes r = 0"
  shows "site_db_ok sha db'"
proof -
  have r: "rn_version r \<in> vr_id ` set (db_versions db)" "rn_slug r \<notin> rn_slug ` set (db_runs db)"
    "rn_id r \<notin> rn_id ` set (db_runs db)" and db': "db' = db\<lparr>db_runs := db_runs db @ [r]\<rparr>"
    using ins by (simp_all add: insert_run_Inr)
  have fr: "db_versions db' = db_versions db" "db_attempts db' = db_attempts db" "db_events db' = db_events db"
    "db_commands db' = db_commands db" "db_sessions db' = db_sessions db" "db_invitations db' = db_invitations db"
    "db_runs db' = db_runs db @ [r]" by (simp_all add: db')
  note parts = ok [unfolded site_db_ok_def db_ok_def]
  have none: "ss_run s \<noteq> rn_id r" if "s \<in> set (db_sessions db)" for s
    using parts r(3) that unfolding refs_ok_def by (metis image_subset_iff)
  have study: "session_study sha db s f" if "s \<in> set (db_sessions db)" "session_study sha db' s f" for s f
  proof -
    have "load_snapshot sha db' v = load_snapshot sha db v" for v by (simp add: db')
    with that none [OF that(1)] show ?thesis unfolding session_study_def fr(7) by auto
  qed
  have "logs_ok sha db'"
    using study by (intro logs_ok_frame [OF _ fr(5,2,3)]) (use parts in simp_all)
  moreover have "keys_ok db'" using parts r(2,3) by (simp add: keys_ok_def fr tbl_keys_snoc)
  moreover have "refs_ok db'" using parts by (auto simp: refs_ok_def fr)
  moreover have "event_rows_ok db'" using parts event_rows_frame [OF fr(3)] by simp
  moreover have "accounts_ok db'"
  proof -
    have "run_account_ok db' r" using none new by (simp add: run_account_ok_def fr tbl_sum_none)
    then show ?thesis
      using parts account_frames(1) [OF fr(2)] account_frames(2) [OF fr(5)] by (simp add: accounts_ok_def fr)
  qed
  moreover have "caps_ok db'"
  proof -
    have "tbl_count (\<lambda>s. ss_run s = rn_id r) (db_sessions db) = 0" using none by (simp add: tbl_count_zero)
    with parts show ?thesis by (simp add: caps_ok_def fr)
  qed
  moreover have "progress_ok db'" using parts session_progress_frame [OF fr(2)] by (simp add: progress_ok_def fr)
  moreover have "runs_life_ok db'" using parts new by (simp add: runs_life_ok_def fr)
  moreover have "versions_ok db'" using parts r(1) by (simp add: versions_ok_def fr)
  moreover have "invitations_ok db'" using parts none by (simp add: invitations_ok_def fr)
  ultimately show ?thesis by (simp add: site_db_ok_def db_ok_def)
qed

lemma create_run_Inr:
  assumes "create_run env q db = (Inr r, db')"
  shows "check_request q = None \<and> insert_run r db = Inr db' \<and> (\<exists>arms tasks f. load_snapshot (en_sha env) db (cr_version q) = Inr f
    \<and> r = new_run (en_random env 0) (en_clock env 0) (fill_request q) arms tasks)"
  using assms by (auto simp: create_run_def Let_def split: option.splits sum.splits if_splits)

lemma create_run_Inl: "create_run env q db = (Inl e, db') \<Longrightarrow> db' = db"
  by (auto simp: create_run_def Let_def split: option.splits sum.splits if_splits)

lemma create_run_ok:
  assumes "site_db_ok sha db" "create_run env q db = (r, db')"
  shows "site_db_ok sha db'"
proof (cases r)
  case (Inl e)
  with assms create_run_Inl show ?thesis by metis
next
  case (Inr run)
  with assms(2) create_run_Inr obtain arms tasks where ins: "insert_run run db = Inr db'"
    and run: "run = new_run (en_random env 0) (en_clock env 0) (fill_request q) arms tasks" by metis
  show ?thesis
    by (rule insert_run_ok [OF assms(1) ins]) (simp_all add: run new_run_def run_life_def purge_begun_def)
qed

lemma create_invitation_ok:
  assumes "site_db_ok sha db" "create_invitation env origin i hours db = (r, db')"
  shows "site_db_ok sha db'"
proof (cases "db' = db")
  case True
  with assms(1) show ?thesis by simp
next
  case False
  then obtain n where n: "insert_invitation n db = Inr db'"
    using assms(2) by (auto simp: create_invitation_def Let_def split: sum.splits if_splits)
  then have new: "iv_id n \<notin> iv_id ` set (db_invitations db)" "iv_hash n \<notin> iv_hash ` set (db_invitations db)"
    and db': "db' = db\<lparr>db_invitations := db_invitations db @ [n]\<rparr>"
    by (auto simp: insert_invitation_def tbl_insert_def tbl_lookup_None split: option.splits if_splits)
  have fr: "db_versions db' = db_versions db" "db_attempts db' = db_attempts db" "db_events db' = db_events db"
    "db_commands db' = db_commands db" "db_sessions db' = db_sessions db" "db_runs db' = db_runs db"
    "db_invitations db' = db_invitations db @ [n]" by (simp_all add: db')
  note parts = assms(1) [unfolded site_db_ok_def db_ok_def]
  have "logs_ok sha db'"
    using session_study_frame [OF fr(6,1)] by (intro logs_ok_frame [OF _ fr(5,2,3)]) (use parts in simp_all)
  moreover have "keys_ok db'" "refs_ok db'" "caps_ok db'" "runs_life_ok db'" "versions_ok db'"
    using parts by (simp_all add: keys_ok_def refs_ok_def caps_ok_def runs_life_ok_def versions_ok_def fr)
  moreover have "event_rows_ok db'" using parts event_rows_frame [OF fr(3)] by simp
  moreover have "accounts_ok db'"
    using parts account_frames(1) [OF fr(2)] account_frames(2) [OF fr(5)] by (simp add: accounts_ok_def fr)
  moreover have "progress_ok db'" using parts session_progress_frame [OF fr(2)] by (simp add: progress_ok_def fr)
  moreover have "invitations_ok db'"
  proof -
    have "has_invitation (db_invitations db @ [n]) s" if "has_invitation (db_invitations db) s" for s
      using that by (auto simp: has_invitation_def)
    with parts new show ?thesis by (simp add: invitations_ok_def fr tbl_keys_snoc)
  qed
  ultimately show ?thesis by (simp add: site_db_ok_def db_ok_def)
qed

end
