(* ===== verification/Purging.thy ===== *)
theory Purging
  imports Publishing
begin

text \<open>
  The purge keeps the invariants: what belongs to other runs stays exactly as it was, and the purged
  run has no participant rows left.
\<close>

section \<open>Deleting rows\<close>

lemma tbl_sum_delete: "(\<And>r. r \<in> set t \<Longrightarrow> p r \<Longrightarrow> \<not> q r) \<Longrightarrow> tbl_sum p f (tbl_delete q t) = tbl_sum p f t"
  by (induction t) (auto simp: tbl_delete_def)

lemma tbl_count_delete: "(\<And>r. r \<in> set t \<Longrightarrow> p r \<Longrightarrow> \<not> q r) \<Longrightarrow> tbl_count p (tbl_delete q t) = tbl_count p t"
  by (simp add: tbl_count_sum tbl_sum_delete)

lemma tbl_count_delete_le: "tbl_count p (tbl_delete q t) \<le> tbl_count p t"
  by (induction t) (auto simp: tbl_count_def tbl_delete_def)

lemma filter_delete: "(\<And>r. r \<in> set t \<Longrightarrow> p r \<Longrightarrow> \<not> q r) \<Longrightarrow> filter p (tbl_delete q t) = filter p t"
  by (induction t) (auto simp: tbl_delete_def)

text \<open>Through which sessions and attempts a row belongs to the run.\<close>

lemma session_of_run:
  assumes "keys_ok db" "s \<in> set (db_sessions db)"
  shows "ss_id s \<in> run_sessions i db \<longleftrightarrow> ss_run s = i"
  using keys_ok_eq(2) [OF assms(1)] assms(2) by (auto simp: run_sessions_def)

lemma attempt_of_run:
  assumes "keys_ok db" "a \<in> set (db_attempts db)"
  shows "at_id a \<in> run_attempts i db \<longleftrightarrow> at_session a \<in> run_sessions i db"
  using keys_ok_eq(3) [OF assms(1)] assms(2) by (auto simp: run_attempts_def)

lemma session_progress_cong:
  assumes "\<And>a. at_session a = ss_id s \<Longrightarrow> a \<in> set (db_attempts db') \<longleftrightarrow> a \<in> set (db_attempts db)"
  shows "session_progress db' s = session_progress db s"
proof -
  have 1: "(\<exists>a \<in> set (db_attempts db'). at_session a = ss_id s \<and> Q a)
      \<longleftrightarrow> (\<exists>a \<in> set (db_attempts db). at_session a = ss_id s \<and> Q a)" for Q
    using assms by blast
  have 2: "(\<forall>a \<in> set (db_attempts db'). at_session a = ss_id s \<longrightarrow> Q a)
      \<longleftrightarrow> (\<forall>a \<in> set (db_attempts db). at_session a = ss_id s \<longrightarrow> Q a)" for Q
    using assms by blast
  show ?thesis unfolding session_progress_def 1 2 ..
qed

section \<open>The deletion\<close>

lemma purge_rows_tables:
  "db_versions (purge_rows i db) = db_versions db"
  "db_sessions (purge_rows i db) = tbl_delete (\<lambda>s. ss_run s = i) (db_sessions db)"
  "db_attempts (purge_rows i db) = tbl_delete (\<lambda>a. at_session a \<in> run_sessions i db) (db_attempts db)"
  "db_events (purge_rows i db) = tbl_delete (\<lambda>e. ev_attempt e \<in> run_attempts i db) (db_events db)"
  "db_commands (purge_rows i db) = tbl_delete (\<lambda>c. cm_session c \<in> run_sessions i db) (db_commands db)"
  "db_invitations (purge_rows i db) = tbl_delete (\<lambda>n. iv_run n = i) (db_invitations db)"
  "db_runs (purge_rows i db) = tbl_update (\<lambda>r. rn_id r = i)
     (\<lambda>r. r\<lparr>rn_event_bytes := 0, rn_data_bytes := 0, rn_purged_at := None, rn_purge_pending := True\<rparr>) (db_runs db)"
  by (simp_all add: purge_rows_def Let_def)

definition purged_row :: "run_row \<Rightarrow> run_row" where
  "purged_row r = r\<lparr>rn_event_bytes := 0, rn_data_bytes := 0, rn_purged_at := None, rn_purge_pending := True\<rparr>"

lemma purged_row_fields [simp]: "rn_id (purged_row r) = rn_id r" "rn_slug (purged_row r) = rn_slug r"
  "rn_version (purged_row r) = rn_version r" "rn_cap (purged_row r) = rn_cap r"
  "rn_recruitment (purged_row r) = rn_recruitment r" "rn_status (purged_row r) = rn_status r"
  "rn_event_bytes (purged_row r) = 0" "rn_data_bytes (purged_row r) = 0"
  by (simp_all add: purged_row_def)

lemma same_run_purged: "same_run r (purged_row r)"
  by (simp add: same_run_def)

lemma purge_rows_events:
  assumes "i' \<notin> run_attempts i db"
  shows "load_events (purge_rows i db) i' = load_events db i'" "events_of (purge_rows i db) i' = events_of db i'"
proof -
  have "filter (\<lambda>e. ev_attempt e = i') (db_events (purge_rows i db)) = filter (\<lambda>e. ev_attempt e = i') (db_events db)"
    unfolding purge_rows_tables using assms by (intro filter_delete) auto
  then show "load_events (purge_rows i db) i' = load_events db i'" "events_of (purge_rows i db) i' = events_of db i'"
    by (simp_all only: load_events_def events_of_def)
qed

lemma refs_ok_rows:
  assumes "refs_ok db"
  shows "a \<in> set (db_attempts db) \<Longrightarrow> \<exists>s \<in> set (db_sessions db). at_session a = ss_id s"
    "c \<in> set (db_commands db) \<Longrightarrow> \<exists>s \<in> set (db_sessions db). cm_session c = ss_id s"
    "e \<in> set (db_events db) \<Longrightarrow> \<exists>a \<in> set (db_attempts db). ev_attempt e = at_id a"
  using assms unfolding refs_ok_def by blast+

lemma purge_rows_db_ok:
  assumes ok: "db_ok sha db"
  shows "db_ok sha (purge_rows i db)"
proof -
  define db' where "db' = purge_rows i db"
  note fr = purge_rows_tables [of i db, folded db'_def purged_row_def [abs_def]]
  note parts = ok [unfolded db_ok_def]
  have k: "keys_ok db" using parts by simp
  note ours = session_of_run [OF k] attempt_of_run [OF k]
  have study: "session_study sha db' s f = session_study sha db s f" for s f
    using session_study_runs [OF fr(7) same_run_purged fr(1) refl] .
  have "keys_ok db'" using k by (simp add: keys_ok_def fr tbl_delete_keys tbl_update_keys)
  moreover have "refs_ok db'"
  proof -
    have runs: "rn_id ` set (db_runs db') = rn_id ` set (db_runs db)" unfolding fr by (rule image_tbl_update) simp
    have sess: "at_session a \<in> ss_id ` set (db_sessions db')"
      if h: "a \<in> set (db_attempts db)" "at_session a \<notin> run_sessions i db" for a
    proof -
      obtain s where "s \<in> set (db_sessions db)" "at_session a = ss_id s"
        using refs_ok_rows [of db] parts h(1) by blast
      with h(2) show ?thesis by (auto simp: fr ours)
    qed
    have cmds: "cm_session c \<in> ss_id ` set (db_sessions db')"
      if h: "c \<in> set (db_commands db)" "cm_session c \<notin> run_sessions i db" for c
    proof -
      obtain s where "s \<in> set (db_sessions db)" "cm_session c = ss_id s"
        using refs_ok_rows [of db] parts h(1) by blast
      with h(2) show ?thesis by (auto simp: fr ours)
    qed
    have evs: "ev_attempt e \<in> at_id ` set (db_attempts db')"
      if h: "e \<in> set (db_events db)" "ev_attempt e \<notin> run_attempts i db" for e
    proof -
      obtain a where "a \<in> set (db_attempts db)" "ev_attempt e = at_id a"
        using refs_ok_rows [of db] parts h(1) by blast
      with h(2) show ?thesis by (auto simp: fr ours)
    qed
    have "ss_run ` set (db_sessions db') \<subseteq> rn_id ` set (db_runs db')"
      using parts unfolding runs by (auto simp: refs_ok_def fr)
    moreover have "at_session ` set (db_attempts db') \<subseteq> ss_id ` set (db_sessions db')"
      using sess by (auto simp: fr(3))
    moreover have "ev_attempt ` set (db_events db') \<subseteq> at_id ` set (db_attempts db')"
      using evs by (auto simp: fr(4))
    moreover have "cm_session ` set (db_commands db') \<subseteq> ss_id ` set (db_sessions db')"
      using cmds by (auto simp: fr(5))
    ultimately show ?thesis unfolding refs_ok_def by blast
  qed
  moreover have "event_rows_ok db'"
  proof -
    have "sorted (map ev_seq (events_of db' j))" for j
    proof (cases "j \<in> run_attempts i db")
      case True
      then have "events_of db' j = []" by (auto simp: events_of_def fr filter_empty_conv)
      then show ?thesis by simp
    next
      case False
      with purge_rows_events(2) parts show ?thesis by (simp add: event_rows_ok_def db'_def)
    qed
    with parts show ?thesis by (auto simp: event_rows_ok_def fr)
  qed
  moreover have "logs_ok sha db'"
    unfolding logs_ok_def
  proof
    fix a assume "a \<in> set (db_attempts db')"
    then have a: "a \<in> set (db_attempts db)" "at_session a \<notin> run_sessions i db" by (simp_all add: fr)
    then have "at_id a \<notin> run_attempts i db" by (simp add: ours)
    then have "load_events db' (at_id a) = load_events db (at_id a)"
      unfolding db'_def by (rule purge_rows_events(1))
    moreover have "attempt_log_ok sha db a" using parts a(1) by (simp add: logs_ok_def)
    ultimately show "attempt_log_ok sha db' a" by (simp add: attempt_log_ok_def study fr(2))
  qed
  moreover have "accounts_ok db'"
  proof -
    have "session_account_ok db' s" if "s \<in> set (db_sessions db')" for s
    proof -
      have s: "s \<in> set (db_sessions db)" "ss_run s \<noteq> i" using that by (simp_all add: fr)
      have "tbl_sum (\<lambda>a. at_session a = ss_id s) at_event_bytes (db_attempts db')
          = tbl_sum (\<lambda>a. at_session a = ss_id s) at_event_bytes (db_attempts db)"
        unfolding fr using s ours(1) by (intro tbl_sum_delete) simp
      moreover have "session_account_ok db s" using parts s(1) by (simp add: accounts_ok_def)
      ultimately show ?thesis unfolding session_account_ok_def by simp
    qed
    moreover have "run_account_ok db' r'" if r': "r' \<in> set (db_runs db')" for r'
    proof -
      obtain r where r: "r \<in> set (db_runs db)" "r' = (if rn_id r = i then purged_row r else r)"
        using r' by (auto simp: fr(7) tbl_update_set)
      show ?thesis
      proof (cases "rn_id r = i")
        case True
        then have "tbl_sum (\<lambda>s. ss_run s = rn_id r') f (db_sessions db') = 0" for f
          using r(2) by (intro tbl_sum_none) (auto simp: fr(2))
        with r(2) True show ?thesis by (simp add: run_account_ok_def)
      next
        case False
        then have "tbl_sum (\<lambda>s. ss_run s = rn_id r) f (db_sessions db') = tbl_sum (\<lambda>s. ss_run s = rn_id r) f (db_sessions db)" for f
          unfolding fr(2) by (intro tbl_sum_delete) simp
        moreover have "run_account_ok db r" using parts r(1) by (simp add: accounts_ok_def)
        ultimately show ?thesis using r(2) False unfolding run_account_ok_def by simp
      qed
    qed
    ultimately show ?thesis by (simp add: accounts_ok_def)
  qed
  moreover have "caps_ok db'"
    unfolding caps_ok_def
  proof
    fix r' assume "r' \<in> set (db_runs db')"
    then obtain r where r: "r \<in> set (db_runs db)" "r' = (if rn_id r = i then purged_row r else r)"
      by (auto simp: fr(7) tbl_update_set)
    then have e: "rn_id r' = rn_id r" "rn_cap r' = rn_cap r" by simp_all
    have "tbl_count (\<lambda>s. ss_run s = rn_id r) (db_sessions db') \<le> tbl_count (\<lambda>s. ss_run s = rn_id r) (db_sessions db)"
      unfolding fr(2) by (rule tbl_count_delete_le)
    also have "\<dots> \<le> rn_cap r" using parts r(1) by (simp add: caps_ok_def)
    finally show "tbl_count (\<lambda>s. ss_run s = rn_id r') (db_sessions db') \<le> rn_cap r'" unfolding e .
  qed
  moreover have "progress_ok db'"
    unfolding progress_ok_def
  proof
    fix s assume "s \<in> set (db_sessions db')"
    then have s: "s \<in> set (db_sessions db)" "ss_id s \<notin> run_sessions i db" by (simp_all add: fr ours)
    have "\<And>a. at_session a = ss_id s \<Longrightarrow> a \<in> set (db_attempts db') \<longleftrightarrow> a \<in> set (db_attempts db)"
      using s(2) by (simp add: fr(3))
    from session_progress_cong [of s db' db, OF this] have "session_progress db' s = session_progress db s" .
    moreover have "session_progress db s" using parts s(1) by (simp add: progress_ok_def)
    ultimately show "session_progress db' s" by (simp only:)
  qed
  ultimately show ?thesis by (simp add: db_ok_def db'_def)
qed

lemma purge_delete_ok:
  assumes "site_db_ok sha db" "purge_delete i db = (r, db')"
  shows "site_db_ok sha db'"
proof (cases r)
  case (Inl e)
  then have "db' = db" using assms(2) by (auto simp: purge_delete_def split: option.splits if_splits)
  with assms(1) show ?thesis by simp
next
  case (Inr u)
  then obtain run where run: "tbl_lookup rn_id i (db_runs db) = Some run" "rn_status run = ''closed''"
    and db': "db' = purge_rows i db"
    using assms(2) by (auto simp: purge_delete_def split: option.splits if_splits)
  note fr = purge_rows_tables [of i db, folded db' purged_row_def [abs_def]]
  note parts = assms(1) [unfolded site_db_ok_def]
  have one: "r = run" if "r \<in> set (db_runs db)" "rn_id r = i" for r
    using keys_ok_eq(1) [of db r run] tbl_lookup_Some [OF run(1)] that parts by (simp add: db_ok_def)
  have "runs_life_ok db'"
    unfolding runs_life_ok_def
  proof (intro ballI conjI impI)
    fix r' assume "r' \<in> set (db_runs db')"
    then obtain r where r: "r \<in> set (db_runs db)" "r' = (if rn_id r = i then purged_row r else r)"
      by (auto simp: fr(7) tbl_update_set)
    then have l: "run_life r" using parts by (simp add: runs_life_ok_def)
    show "run_life r'"
    proof (cases "rn_id r = i")
      case True
      with one r(1) have "r = run" by blast
      with l run(2) r(2) True show ?thesis by (simp add: run_life_def purged_row_def)
    next
      case False
      with l r(2) show ?thesis by simp
    qed
    fix s assume b: "purge_begun r'" and "s \<in> set (db_sessions db')"
    then have s: "s \<in> set (db_sessions db)" "ss_run s \<noteq> i" by (simp_all add: fr)
    show "ss_run s \<noteq> rn_id r'"
    proof (cases "rn_id r = i")
      case True
      with s(2) r(2) show ?thesis by simp
    next
      case False
      with b r parts s(1) show ?thesis by (simp add: runs_life_ok_def)
    qed
  qed
  moreover have "versions_ok db'"
    using parts by (simp add: versions_ok_def fr image_tbl_update)
  moreover have "invitations_ok db'"
    unfolding invitations_ok_def
  proof (intro conjI ballI impI)
    show "tbl_keys iv_id (db_invitations db')" "tbl_keys iv_hash (db_invitations db')"
      using parts by (simp_all add: invitations_ok_def fr tbl_delete_keys)
    fix r' s assume r': "r' \<in> set (db_runs db')" "rn_recruitment r' = ''invitation''"
      and s: "s \<in> set (db_sessions db')" "ss_run s = rn_id r'"
    obtain r where r: "r \<in> set (db_runs db)" "r' = (if rn_id r = i then purged_row r else r)"
      using r'(1) by (auto simp: fr(7) tbl_update_set)
    have "s \<in> set (db_sessions db)" "ss_run s \<noteq> i" "ss_run s = rn_id r" "rn_recruitment r = ''invitation''"
      using s r(2) r'(2) by (auto simp: fr split: if_splits)
    with parts r(1) have "has_invitation (db_invitations db) s" "ss_run s \<noteq> i" by (simp_all add: invitations_ok_def)
    then show "has_invitation (db_invitations db') s" by (auto simp: has_invitation_def fr)
  qed
  ultimately show ?thesis
    using parts purge_rows_db_ok by (simp add: site_db_ok_def db')
qed

text \<open>The mark may come later, after other requests, but only for a run whose purge has begun.\<close>

lemma purge_mark_ok:
  assumes "site_db_ok sha db" "\<And>r. r \<in> set (db_runs db) \<Longrightarrow> rn_id r = i \<Longrightarrow> purge_begun r"
  shows "site_db_ok sha (purge_mark now i db)"
  unfolding purge_mark_def
proof (rule site_runs_update [OF assms(1)])
  fix r assume "r \<in> set (db_runs db)" "rn_id r = i" "run_life r"
  with assms(2) show "run_life (r\<lparr>rn_purged_at := Some now, rn_purge_pending := False\<rparr>)"
    by (auto simp: run_life_def purge_begun_def)
qed (use assms(2) in \<open>auto simp: account_kept_def same_run_def purge_begun_def\<close>)

end
