(* ===== verification/Drafts.thy ===== *)
theory Drafts
  imports Publishing
begin

text \<open>
  Study drafts of \<open>admin.go\<close>: created, listed, read, saved under an optimistic revision check, and
  published. A bundle column holds what its JSON text decodes to, \<open>frozen_bundle\<close>.
\<close>

record draft_row =
  dr_id :: string
  dr_revision :: int
  dr_title :: string
  dr_bundle :: study_bundle
  dr_updated :: time

type_synonym drafts = "draft_row list"

section \<open>Operations\<close>

text \<open>\<open>listDrafts\<close>: ID, revision, title and time, the last saved first.\<close>

definition list_drafts :: "drafts \<Rightarrow> (string \<times> int \<times> string \<times> time) list" where
  "list_drafts ds = map (\<lambda>d. (dr_id d, dr_revision d, dr_title d, dr_updated d)) (newest_first dr_updated dr_id ds)"

definition create_draft :: "environment \<Rightarrow> study_bundle \<Rightarrow> drafts \<Rightarrow> (string \<times> int) result \<times> drafts" where
  "create_draft env b ds =
     (case tbl_insert dr_id \<lparr>dr_id = en_random env 0, dr_revision = 1, dr_title = cfg_title (b_config b),
         dr_bundle = frozen_bundle b, dr_updated = en_clock env 0\<rparr> ds of
        None \<Rightarrow> (Inl (constraint_failed ''UNIQUE''), ds)
      | Some ds' \<Rightarrow> (Inr (en_random env 0, 1), ds'))"

definition get_draft :: "string \<Rightarrow> drafts \<Rightarrow> (int \<times> study_bundle) result" where
  "get_draft i ds = (case tbl_lookup dr_id i ds of
     None \<Rightarrow> Inl (Problem 404 ''draft not found'') | Some d \<Rightarrow> Inr (dr_revision d, dr_bundle d))"

definition update_draft :: "environment \<Rightarrow> string \<Rightarrow> int \<Rightarrow> study_bundle \<Rightarrow> drafts \<Rightarrow> int result \<times> drafts" where
  "update_draft env i revision b ds =
     (case tbl_lookup dr_id i ds of
        None \<Rightarrow> (Inl (Problem 404 ''draft not found''), ds)
      | Some d \<Rightarrow>
          if dr_revision d \<noteq> revision
            then (Inl (Problem 409 ''draft revision changed; reload before saving''), ds)
          else (Inr (dr_revision d + 1), tbl_modify dr_id i (\<lambda>d. d\<lparr>dr_revision := dr_revision d + 1,
              dr_title := cfg_title (b_config b), dr_bundle := frozen_bundle b, dr_updated := en_clock env 0\<rparr>) ds))"

text \<open>\<open>publish\<close> reads the draft and freezes its bundle; the answer is the version and its hash.\<close>

definition publish :: "environment \<Rightarrow> string \<Rightarrow> int \<Rightarrow> drafts \<Rightarrow> database \<Rightarrow> (string \<times> string) result \<times> database" where
  "publish env i revision ds db =
     (case tbl_lookup dr_id i ds of
        None \<Rightarrow> (Inl (Problem 404 ''draft not found''), db)
      | Some d \<Rightarrow>
          if dr_revision d \<noteq> revision
            then (Inl (Problem 409 ''draft revision changed; reload before publishing''), db)
          else case validate (en_sha env) (dr_bundle d) of
              Inl e \<Rightarrow> (Inl (Problem 422 ''invalid study''), db)
            | Inr snap \<Rightarrow>
                (case insert_version (en_sha env) (en_random env 0) (en_clock env 0) snap db of
                   Inl e \<Rightarrow> (Inl e, db)
                 | Inr (v, db') \<Rightarrow> (Inr (v, publication_hash (en_sha env) (s_hash snap) current_policy), db')))"

section \<open>The drafts as a keyed table\<close>

interpretation draft_table: keyed_table dr_id "tbl_keys dr_id" "tbl_lookup dr_id" "tbl_insert dr_id"
    "tbl_modify dr_id" "tbl_remove dr_id"
  by (rule list_table)

lemma update_draft_Inr:
  assumes "update_draft env i revision b ds = (Inr n, ds')"
  shows "\<exists>d. tbl_lookup dr_id i ds = Some d \<and> dr_revision d = revision \<and> n = revision + 1
    \<and> tbl_lookup dr_id i ds' = Some (d\<lparr>dr_revision := revision + 1, dr_title := cfg_title (b_config b),
          dr_bundle := frozen_bundle b, dr_updated := en_clock env 0\<rparr>)
    \<and> (\<forall>j. j \<noteq> i \<longrightarrow> tbl_lookup dr_id j ds' = tbl_lookup dr_id j ds)"
proof -
  obtain d where d: "tbl_lookup dr_id i ds = Some d" "dr_revision d = revision" "n = revision + 1"
    and ds': "ds' = tbl_modify dr_id i (\<lambda>d. d\<lparr>dr_revision := dr_revision d + 1,
              dr_title := cfg_title (b_config b), dr_bundle := frozen_bundle b, dr_updated := en_clock env 0\<rparr>) ds"
    using assms by (auto simp: update_draft_def split: option.splits if_splits)
  then show ?thesis
    unfolding ds' by (intro exI [of _ d]) (simp add: draft_table.lookup_modify)
qed

lemma update_draft_Inl: "update_draft env i revision b ds = (Inl e, ds') \<Longrightarrow> ds' = ds"
  by (auto simp: update_draft_def split: option.splits if_splits)

section \<open>Concurrent editors\<close>

text \<open>Saves of one draft by any number of editors, and which of them were accepted.\<close>

fun saves :: "string \<Rightarrow> (environment \<times> int \<times> study_bundle) list \<Rightarrow> drafts \<Rightarrow> (int \<times> study_bundle) list \<times> drafts" where
  "saves i [] ds = ([], ds)"
| "saves i ((env, revision, b) # reqs) ds =
     (case update_draft env i revision b ds of
        (Inl _, ds1) \<Rightarrow> saves i reqs ds1
      | (Inr _, ds1) \<Rightarrow> (case saves i reqs ds1 of (done, ds2) \<Rightarrow> ((revision, b) # done, ds2)))"

text \<open>C23: no update is lost: of any sequence of saves of a draft, whatever revisions the editors claim,
  the accepted ones are based on the revisions n, n + 1, n + 2 and so on, each on exactly one, and
  the draft afterwards holds the bundle of the last accepted save with the revision after it.\<close>

theorem saves_serialized:
  assumes "tbl_lookup dr_id i ds = Some d" "saves i reqs ds = (taken, ds')"
  shows "map fst taken = map (\<lambda>k. dr_revision d + int k) [0..<length taken]
    \<and> (\<exists>d'. tbl_lookup dr_id i ds' = Some d' \<and> dr_revision d' = dr_revision d + int (length taken)
        \<and> dr_bundle d' = (if taken = [] then dr_bundle d else frozen_bundle (snd (last taken))))"
  using assms
proof (induction i reqs ds arbitrary: d taken ds' rule: saves.induct)
  case 1
  then show ?case by auto
next
  case (2 i env revision b reqs ds)
  show ?case
  proof (cases "update_draft env i revision b ds")
    case (Pair r ds1)
    show ?thesis
    proof (cases r)
      case (Inl e)
      then have "ds1 = ds" using Pair update_draft_Inl by metis
      with 2 Pair Inl show ?thesis by auto
    next
      case (Inr n)
      obtain rest where rest: "saves i reqs ds1 = (rest, ds')" "taken = (revision, b) # rest"
        using "2.prems"(2) Pair Inr by (auto split: prod.splits)
      from update_draft_Inr [of env i revision b ds n ds1] Pair Inr "2.prems"(1) obtain d1 where
        d1: "dr_revision d = revision" "tbl_lookup dr_id i ds1 = Some d1" "dr_revision d1 = revision + 1"
          "dr_bundle d1 = frozen_bundle b" by auto
      from "2.IH"(2) [OF Pair [symmetric] Inr d1(2) rest(1)] obtain d' where
        ih: "map fst rest = map (\<lambda>k. dr_revision d1 + int k) [0..<length rest]" "tbl_lookup dr_id i ds' = Some d'"
          "dr_revision d' = dr_revision d1 + int (length rest)"
          "dr_bundle d' = (if rest = [] then dr_bundle d1 else frozen_bundle (snd (last rest)))" by blast
      have "map (\<lambda>k. revision + int k) [0..<Suc (length rest)] = revision # map fst rest"
        unfolding ih(1) d1(3) by (simp add: upt_conv_Cons map_Suc_upt [symmetric] comp_def add.assoc del: upt_Suc)
      with ih d1 rest(2) show ?thesis by auto
    qed
  qed
qed

text \<open>The publication of a draft freezes the bundle that its editor saw.\<close>

lemma publish_Inr:
  assumes "publish env i revision ds db = (Inr (v, h), db')"
  shows "\<exists>d snap. tbl_lookup dr_id i ds = Some d \<and> dr_revision d = revision
    \<and> validate (en_sha env) (dr_bundle d) = Inr snap
    \<and> insert_version (en_sha env) (en_random env 0) (en_clock env 0) snap db = Inr (v, db')
    \<and> h = publication_hash (en_sha env) (s_hash snap) current_policy"
  using assms by (auto simp: publish_def split: option.splits sum.splits if_splits)

lemma publish_ok:
  assumes "site_db_ok (en_sha env) db" "publish env i revision ds db = (r, db')"
  shows "site_db_ok (en_sha env) db'"
  using assms insert_version_ok
  by (auto simp: publish_def insert_version_def split: option.splits sum.splits if_splits prod.splits)

end
