(* ===== verification/LoginLimit.thy ===== *)
theory LoginLimit
  imports RateLimit
begin

text \<open>
  The login limiter of \<open>auth.go\<close>: a map from login keys to failure counters, and a list of the
  keys ordered by their last failure, so that expiry and eviction look only at its front. The
  functions dereference map entries of listed keys without a check; \<open>None\<close> is that panic, and
  the invariant \<open>login_ok\<close> excludes it.
\<close>

record login_failure =
  lf_failures :: nat
  lf_until :: time
  lf_touched :: time

record login_limiter =
  ll_failures :: "(string \<times> login_failure) list"
  ll_order :: "string list"

definition max_login_failures :: nat where
  "max_login_failures = 10000"

definition login_failure_lifetime :: nat where
  "login_failure_lifetime = 24 * hour"

definition new_login_limiter :: login_limiter where
  "new_login_limiter = \<lparr>ll_failures = [], ll_order = []\<rparr>"

text \<open>\<open>key\<close>: the digest of the source and the folded user name; \<open>lower\<close> is \<open>strings.ToLower\<close>.\<close>

definition login_key :: "(string \<Rightarrow> string) \<Rightarrow> (string \<Rightarrow> string) \<Rightarrow> string \<Rightarrow> string \<Rightarrow> string" where
  "login_key sha lower source username = sha (source @ [CHR 0x00] @ lower (trim_space username))"

definition delete_key :: "'k \<Rightarrow> ('k \<times> 'v) list \<Rightarrow> ('k \<times> 'v) list" where
  "delete_key k m = filter (\<lambda>e. fst e \<noteq> k) m"

definition login_remove :: "string \<Rightarrow> login_limiter \<Rightarrow> login_limiter" where
  "login_remove k l =
     (case map_of (ll_failures l) k of
        None \<Rightarrow> l
      | Some _ \<Rightarrow> l\<lparr>ll_order := remove1 k (ll_order l), ll_failures := delete_key k (ll_failures l)\<rparr>)"

definition blocked :: "time \<Rightarrow> string \<Rightarrow> login_limiter \<Rightarrow> login_limiter \<times> nat" where
  "blocked now k l =
     (case map_of (ll_failures l) k of
        None \<Rightarrow> (l, 0)
      | Some v \<Rightarrow>
          if now - lf_touched v \<ge> login_failure_lifetime then (login_remove k l, 0)
          else if \<not> now < lf_until v then (l, 0)
          else (l, lf_until v - now))"

text \<open>
  The expiry loop of \<open>failed\<close>. Every round removes the front key, so the length of the list is
  enough fuel; a front key without an entry is the nil dereference.
\<close>

fun expire_front :: "nat \<Rightarrow> time \<Rightarrow> login_limiter \<Rightarrow> login_limiter option" where
  "expire_front 0 now l = Some l"
| "expire_front (Suc n) now l =
     (case ll_order l of
        [] \<Rightarrow> Some l
      | k # _ \<Rightarrow>
          (case map_of (ll_failures l) k of
             None \<Rightarrow> None
           | Some v \<Rightarrow>
               if now - lf_touched v < login_failure_lifetime then Some l
               else expire_front n now (login_remove k l)))"

definition delay :: "nat \<Rightarrow> nat" where
  "delay n = (if n \<ge> 12 then 15 * minute else if n \<ge> 8 then 5 * minute
     else if n \<ge> 5 then 30 * second else 0)"

definition failed :: "time \<Rightarrow> string \<Rightarrow> login_limiter \<Rightarrow> login_limiter option" where
  "failed now k l =
     (case expire_front (length (ll_order l)) now l of
        None \<Rightarrow> None
      | Some l1 \<Rightarrow>
          (let entry = map_of (ll_failures l1) k;
               l2 = (case entry of
                   None \<Rightarrow>
                     (let l' = (if length (ll_failures l1) \<ge> max_login_failures
                                then login_remove (hd (ll_order l1)) l1 else l1)
                      in l'\<lparr>ll_order := ll_order l' @ [k]\<rparr>)
                 | Some _ \<Rightarrow> l1\<lparr>ll_order := remove1 k (ll_order l1) @ [k]\<rparr>);
               v = (case entry of None \<Rightarrow> \<lparr>lf_failures = 0, lf_until = 0, lf_touched = 0\<rparr> | Some v \<Rightarrow> v);
               n = Suc (lf_failures v);
               v' = v\<lparr>lf_failures := n, lf_touched := now,
                      lf_until := (if n \<ge> 5 then now + delay n else lf_until v)\<rparr>
           in Some (l2\<lparr>ll_failures := put k v' (ll_failures l2)\<rparr>)))"

definition succeeded :: "string \<Rightarrow> login_limiter \<Rightarrow> login_limiter" where
  "succeeded k l = login_remove k l"

section \<open>The invariant of the two structures\<close>

text \<open>The list holds exactly the keys of the map, each once, by the time of their last failure.\<close>

definition login_ok :: "login_limiter \<Rightarrow> bool" where
  "login_ok l \<longleftrightarrow> distinct (map fst (ll_failures l)) \<and> distinct (ll_order l)
     \<and> set (ll_order l) = fst ` set (ll_failures l)
     \<and> length (ll_failures l) \<le> max_login_failures
     \<and> sorted (map (\<lambda>k. lf_touched (the (map_of (ll_failures l) k))) (ll_order l))"

definition seen_before :: "time \<Rightarrow> login_limiter \<Rightarrow> bool" where
  "seen_before now l \<longleftrightarrow> (\<forall>e \<in> set (ll_failures l). lf_touched (snd e) \<le> now)"

lemma map_of_delete_key: "map_of (delete_key k m) j = (if j = k then None else map_of m j)"
  by (induction m) (auto simp: delete_key_def)

lemma delete_key_facts:
  "distinct (map fst m) \<Longrightarrow> distinct (map fst (delete_key k m))"
  "fst ` set (delete_key k m) = fst ` set m - {k}"
  "length (delete_key k m) \<le> length m"
  by (auto simp: delete_key_def distinct_map_filter)

lemma login_ok_length: "login_ok l \<Longrightarrow> length (ll_order l) = length (ll_failures l)"
  by (metis distinct_card length_map list.set_map login_ok_def)

lemma sorted_map_remove1: "sorted (map f xs) \<Longrightarrow> sorted (map f (remove1 k xs))"
proof (induction xs)
  case (Cons x xs)
  moreover have "set (remove1 k xs) \<subseteq> set xs" by (rule set_remove1_subset)
  ultimately show ?case by auto
qed simp

lemma login_remove_ok: "login_ok l \<Longrightarrow> login_ok (login_remove k l)"
proof -
  assume ok: "login_ok l"
  show ?thesis
  proof (cases "map_of (ll_failures l) k")
    case None
    with ok show ?thesis by (simp add: login_remove_def)
  next
    case (Some v)
    define g where "g j = lf_touched (the (map_of (ll_failures l) j))" for j
    have "sorted (map g (remove1 k (ll_order l)))"
      using ok by (intro sorted_map_remove1) (simp add: login_ok_def g_def [abs_def])
    moreover have "map g (remove1 k (ll_order l)) =
        map (\<lambda>j. lf_touched (the (map_of (delete_key k (ll_failures l)) j))) (remove1 k (ll_order l))"
      using ok by (intro map_cong) (auto simp: map_of_delete_key g_def login_ok_def)
    ultimately show ?thesis
      using ok Some
      by (auto simp: login_remove_def login_ok_def delete_key_facts intro: le_trans [OF delete_key_facts(3)])
  qed
qed

lemma login_remove_seen: "seen_before now l \<Longrightarrow> seen_before now (login_remove k l)"
  by (auto simp: seen_before_def login_remove_def delete_key_def split: option.splits)

lemma login_remove_shorter:
  "login_ok l \<Longrightarrow> ll_order l = k # ks \<Longrightarrow> ll_order (login_remove k l) = ks"
proof -
  assume ok: "login_ok l" and o: "ll_order l = k # ks"
  then have "k \<in> fst ` set (ll_failures l)" by (auto simp: login_ok_def)
  then obtain v where "map_of (ll_failures l) k = Some v"
    by (metis map_of_eq_None_iff not_None_eq)
  then show ?thesis using o by (simp add: login_remove_def)
qed

lemma expire_front_ok:
  "login_ok l \<Longrightarrow> seen_before now l \<Longrightarrow>
   \<exists>l'. expire_front n now l = Some l' \<and> login_ok l' \<and> seen_before now l'"
proof (induction n arbitrary: l)
  case 0
  then show ?case by simp
next
  case (Suc n)
  show ?case
  proof (cases "ll_order l")
    case Nil
    with Suc show ?thesis by simp
  next
    case (Cons k ks)
    then have "k \<in> fst ` set (ll_failures l)" using Suc.prems by (auto simp: login_ok_def)
    then obtain v where v: "map_of (ll_failures l) k = Some v"
      by (metis map_of_eq_None_iff not_None_eq)
    show ?thesis
      using Suc.IH [OF login_remove_ok [OF Suc.prems(1)] login_remove_seen [OF Suc.prems(2)]] Cons v Suc.prems
      by auto
  qed
qed

text \<open>With fuel for the whole list, what is left at the front has not expired.\<close>

lemma expire_front_fresh:
  "login_ok l \<Longrightarrow> length (ll_order l) \<le> n \<Longrightarrow> expire_front n now l = Some l' \<Longrightarrow> ll_order l' = k # ks \<Longrightarrow>
   now - lf_touched (the (map_of (ll_failures l') k)) < login_failure_lifetime"
proof (induction n arbitrary: l)
  case 0
  then show ?case by simp
next
  case (Suc n)
  show ?case
  proof (cases "ll_order l")
    case Nil
    with Suc.prems show ?thesis by simp
  next
    case (Cons j js)
    then obtain v where v: "map_of (ll_failures l) j = Some v"
      using Suc.prems(3) by (auto split: option.splits)
    show ?thesis
    proof (cases "now - lf_touched v < login_failure_lifetime")
      case True
      with Suc.prems(3,4) Cons v show ?thesis by simp
    next
      case False
      then have "expire_front n now (login_remove j l) = Some l'" using Suc.prems(3) Cons v by simp
      from Suc.IH [OF login_remove_ok [OF Suc.prems(1)] _ this Suc.prems(4)] show ?thesis
        using login_remove_shorter [OF Suc.prems(1) Cons] Suc.prems(2) Cons by simp
    qed
  qed
qed

lemma login_ok_touch:
  assumes ok: "login_ok l" and before: "seen_before now l" and t: "lf_touched v = now"
    and room: "map_of (ll_failures l) k = None \<Longrightarrow> length (ll_failures l) < max_login_failures"
  shows "login_ok (l\<lparr>ll_order := remove1 k (ll_order l) @ [k], ll_failures := put k v (ll_failures l)\<rparr>)"
proof -
  define g where "g j = lf_touched (the (map_of (ll_failures l) j))" for j
  have keys: "set (ll_order l) = fst ` set (ll_failures l)" and d: "distinct (ll_order l)"
    "distinct (map fst (ll_failures l))" "length (ll_failures l) \<le> max_login_failures"
    using ok by (auto simp: login_ok_def)
  have sorted: "sorted (map g (remove1 k (ll_order l)))"
    using ok by (intro sorted_map_remove1) (simp add: login_ok_def g_def [abs_def])
  have eq: "map (\<lambda>j. lf_touched (the (map_of (put k v (ll_failures l)) j))) (remove1 k (ll_order l) @ [k])
      = map g (remove1 k (ll_order l)) @ [now]"
    using d t by (auto simp: map_of_put g_def)
  have gle: "g j \<le> now" if j: "j \<in> set (ll_order l)" for j
  proof -
    have "j \<in> fst ` set (ll_failures l)" using j keys by simp
    then obtain w where w: "map_of (ll_failures l) j = Some w"
      by (metis map_of_eq_None_iff not_None_eq)
    then have "(j, w) \<in> set (ll_failures l)" by (rule map_of_SomeD)
    then have "lf_touched w \<le> now" using before unfolding seen_before_def by fastforce
    then show ?thesis by (simp add: g_def w)
  qed
  have "\<forall>j \<in> set (remove1 k (ll_order l)). g j \<le> now"
    using gle set_remove1_subset [of k "ll_order l"] by blast
  then have "sorted (map (\<lambda>j. lf_touched (the (map_of (put k v (ll_failures l)) j)))
      (remove1 k (ll_order l) @ [k]))"
    unfolding eq using sorted by (simp add: sorted_append)
  moreover have "length (put k v (ll_failures l)) \<le> max_login_failures"
    using length_put [of k v "ll_failures l"] d(3) room
    by (auto simp: map_of_eq_None_iff split: if_splits)
  moreover have "set (remove1 k (ll_order l) @ [k]) = fst ` set (put k v (ll_failures l))"
    using keys d by (auto simp: put_def)
  ultimately show ?thesis using d by (simp add: login_ok_def distinct_put)
qed

lemma hd_removed_room:
  assumes "login_ok l" "ll_failures l \<noteq> []"
  shows "length (ll_failures (login_remove (hd (ll_order l)) l)) < length (ll_failures l)"
proof -
  obtain k ks where o: "ll_order l = k # ks"
    using assms login_ok_length by (metis length_0_conv neq_Nil_conv)
  then show ?thesis
    using login_ok_length [OF login_remove_ok [OF assms(1), of k]] login_remove_shorter [OF assms(1) o]
      login_ok_length [OF assms(1)] by simp
qed

text \<open>On any limiter whose list and map agree, recording a failure never panics, keeps them in
  agreement, never holds more than 10000 keys and keeps the list ordered by last failure.\<close>

lemma failed_ok:
  assumes ok: "login_ok l" and before: "seen_before now l"
  shows "\<exists>l'. failed now k l = Some l' \<and> login_ok l' \<and> seen_before now l'"
proof -
  obtain l1 where l1: "expire_front (length (ll_order l)) now l = Some l1" "login_ok l1" "seen_before now l1"
    using expire_front_ok [OF ok before] by blast
  define evict where "evict = (if length (ll_failures l1) \<ge> max_login_failures
    then login_remove (hd (ll_order l1)) l1 else l1)"
  define v where "v = (case map_of (ll_failures l1) k of
      None \<Rightarrow> \<lparr>lf_failures = 0, lf_until = 0, lf_touched = 0\<rparr> | Some v \<Rightarrow> v)"
  define v' where "v' = v\<lparr>lf_failures := Suc (lf_failures v), lf_touched := now,
    lf_until := (if Suc (lf_failures v) \<ge> 5 then now + delay (Suc (lf_failures v)) else lf_until v)\<rparr>"
  define l2 where "l2 = (case map_of (ll_failures l1) k of None \<Rightarrow> evict | Some _ \<Rightarrow> l1)"
  have l2: "login_ok l2" "seen_before now l2"
    using l1 login_remove_ok login_remove_seen by (auto simp: l2_def evict_def split: option.splits)
  have room: "length (ll_failures l2) < max_login_failures" if none: "map_of (ll_failures l2) k = None"
  proof (cases "map_of (ll_failures l1) k")
    case None
    show ?thesis
    proof (cases "length (ll_failures l1) \<ge> max_login_failures")
      case True
      then have "ll_failures l1 \<noteq> []" by (auto simp: max_login_failures_def)
      from hd_removed_room [OF l1(2) this] True show ?thesis
        using l1(2) None by (simp add: l2_def evict_def login_ok_def)
    next
      case False
      with None show ?thesis by (simp add: l2_def evict_def)
    qed
  next
    case Some
    with none show ?thesis by (simp add: l2_def)
  qed
  have out: "remove1 k (ll_order l2) = ll_order l2" if "map_of (ll_failures l1) k = None"
  proof -
    have "set (ll_order l2) \<subseteq> set (ll_order l1)"
      using that by (auto simp: l2_def evict_def login_remove_def split: option.splits dest: set_remove1_subset [THEN subsetD])
    moreover have "k \<notin> set (ll_order l1)" using that l1(2) by (simp add: login_ok_def map_of_eq_None_iff)
    ultimately show ?thesis by (intro remove1_idem) auto
  qed
  have "failed now k l = Some (l2\<lparr>ll_order := remove1 k (ll_order l2) @ [k],
      ll_failures := put k v' (ll_failures l2)\<rparr>)"
    using out l1(1)
    by (cases "map_of (ll_failures l1) k")
       (simp_all add: failed_def Let_def l2_def evict_def v_def v'_def)
  moreover have "login_ok (l2\<lparr>ll_order := remove1 k (ll_order l2) @ [k],
      ll_failures := put k v' (ll_failures l2)\<rparr>)"
    by (rule login_ok_touch [OF l2]) (use room in \<open>simp_all add: v'_def\<close>)
  moreover have "seen_before now (l2\<lparr>ll_order := remove1 k (ll_order l2) @ [k],
      ll_failures := put k v' (ll_failures l2)\<rparr>)"
    using l2(2) by (auto simp: seen_before_def put_def v'_def)
  ultimately show ?thesis by blast
qed

lemma blocked_ok: "login_ok l \<Longrightarrow> login_ok (fst (blocked now k l))"
  by (auto simp: blocked_def login_remove_ok split: option.splits)

lemma succeeded_ok: "login_ok l \<Longrightarrow> login_ok (succeeded k l)"
  by (simp add: succeeded_def login_remove_ok)

lemma new_login_limiter_ok: "login_ok new_login_limiter"
  by (simp add: new_login_limiter_def login_ok_def)

end
