(* ===== verification/Auth.thy ===== *)
theory Auth
  imports Participant LoginLimit
begin

text \<open>
  Administrator accounts and sessions (\<open>auth.go\<close>). Passwords are checked by bcrypt, which is not code
  of the repository: the environment holds \<open>GenerateFromPassword\<close> (a hash for a password) and
  \<open>CompareHashAndPassword\<close>, and \<open>strings.ToLower\<close>. The expiry of a session is stored as \<open>RFC3339\<close>,
  that is in whole seconds, so its text comparison is a comparison of seconds.
\<close>

record user_row =
  us_name :: string
  us_hash :: string
  us_role :: string

record admin_row =
  ad_token :: string
  ad_user :: string
  ad_csrf :: string
  ad_expires :: nat

record accounts =
  ac_users :: "user_row list"
  ac_admins :: "admin_row list"

record auth_environment = environment +
  en_bcrypt :: "string \<Rightarrow> string"
  en_matches :: "string \<Rightarrow> string \<Rightarrow> bool"
  en_lower :: "string \<Rightarrow> string"

record admin_identity =
  ai_authenticated :: bool
  ai_username :: string
  ai_role :: string
  ai_csrf :: string

definition min_admin_password :: nat where "min_admin_password = 15"

definition nobody :: admin_identity where
  "nobody = \<lparr>ai_authenticated = False, ai_username = [], ai_role = [], ai_csrf = []\<rparr>"

definition seconds :: "time \<Rightarrow> nat" where
  "seconds t = t div second"

section \<open>Accounts\<close>

text \<open>\<open>SetUser\<close>: creates or replaces the account and revokes all of its sessions.\<close>

definition set_user :: "auth_environment \<Rightarrow> string \<Rightarrow> string \<Rightarrow> string \<Rightarrow> accounts \<Rightarrow> unit result \<times> accounts" where
  "set_user env name password role ac =
     (if trim_space name \<noteq> name \<or> length name < 1 \<or> length name > 128
        then (Inl (Internal (''username must contain 1'' @ [CHR 0xE2, CHR 0x80, CHR 0x93]
          @ ''128 characters without surrounding whitespace'')), ac)
      else if length password < min_admin_password \<or> length password > 72
        then (Inl (Internal (''password must contain 15'' @ [CHR 0xE2, CHR 0x80, CHR 0x93] @ ''72 bytes'')), ac)
      else if role \<noteq> ''owner'' \<and> role \<noteq> ''analyst'' then (Inl (Internal ''role must be owner or analyst''), ac)
      else
        (let hash = en_bcrypt env password;
             u = \<lparr>us_name = name, us_hash = hash, us_role = role\<rparr>;
             users = (case tbl_insert us_name u (ac_users ac) of
                 Some t \<Rightarrow> t
               | None \<Rightarrow> tbl_modify us_name name (\<lambda>r. r\<lparr>us_hash := hash, us_role := role\<rparr>) (ac_users ac))
         in (Inr (), ac\<lparr>ac_users := users, ac_admins := tbl_delete (\<lambda>s. ad_user s = name) (ac_admins ac)\<rparr>)))"

section \<open>Sessions\<close>

text \<open>\<open>admin\<close>: who the session cookie belongs to, with the role that the account has now.\<close>

definition admin :: "auth_environment \<Rightarrow> string option \<Rightarrow> accounts \<Rightarrow> admin_identity" where
  "admin env cookie ac =
     (if token cookie = [] then nobody
      else case find (\<lambda>s. ad_token s = en_sha env (token cookie) \<and> seconds (en_clock env 0) < ad_expires s
          \<and> tbl_lookup us_name (ad_user s) (ac_users ac) \<noteq> None) (ac_admins ac) of
        None \<Rightarrow> nobody
      | Some s \<Rightarrow> (case tbl_lookup us_name (ad_user s) (ac_users ac) of None \<Rightarrow> nobody
          | Some u \<Rightarrow> \<lparr>ai_authenticated = True, ai_username = us_name u, ai_role = us_role u, ai_csrf = ad_csrf s\<rparr>))"

text \<open>\<open>authorize\<close>: the checks before a protected handler; \<open>csrf\<close> is the header, empty when missing.\<close>

definition authorize :: "auth_environment \<Rightarrow> bool \<Rightarrow> string \<Rightarrow> string option \<Rightarrow> string \<Rightarrow> accounts \<Rightarrow> admin_identity result" where
  "authorize env owner method cookie csrf ac =
     (let a = admin env cookie ac in
      if \<not> ai_authenticated a then Inl (Problem 401 ''administrator login required'')
      else if owner \<and> ai_role a \<noteq> ''owner'' then Inl (Problem 403 ''owner role required'')
      else if method \<noteq> ''GET'' \<and> method \<noteq> ''HEAD'' \<and> csrf \<noteq> ai_csrf a then Inl (Problem 403 ''invalid CSRF token'')
      else Inr a)"

definition credentials_changed :: api_error where
  "credentials_changed = Problem 401 ''credentials changed; log in again''"

text \<open>\<open>createAdminSession\<close>: the verified credentials are checked again in the transaction.\<close>

definition create_admin_session ::
    "auth_environment \<Rightarrow> string \<Rightarrow> string \<Rightarrow> string \<Rightarrow> string \<Rightarrow> accounts \<Rightarrow> (string \<times> string) result \<times> accounts" where
  "create_admin_session env username hash role old ac =
     (let t = en_random env 0; csrf = en_random env 1 in
      case tbl_lookup us_name username (ac_users ac) of None \<Rightarrow> (Inl credentials_changed, ac)
      | Some u \<Rightarrow>
        if us_hash u \<noteq> hash \<or> us_role u \<noteq> role then (Inl credentials_changed, ac)
        else case tbl_insert ad_token \<lparr>ad_token = en_sha env t, ad_user = username, ad_csrf = csrf,
              ad_expires = seconds (en_clock env 2 + 12 * hour)\<rparr>
            (tbl_delete (\<lambda>s. ad_expires s \<le> seconds (en_clock env 1) \<or> ad_token s = en_sha env old) (ac_admins ac)) of
            None \<Rightarrow> (Inl (constraint_failed ''UNIQUE''), ac)
          | Some t' \<Rightarrow> (Inr (t, csrf), ac\<lparr>ac_admins := t'\<rparr>))"

definition logout :: "auth_environment \<Rightarrow> string option \<Rightarrow> accounts \<Rightarrow> accounts" where
  "logout env cookie ac = ac\<lparr>ac_admins := tbl_delete (\<lambda>s. ad_token s = en_sha env (token cookie)) (ac_admins ac)\<rparr>"

section \<open>Logging in\<close>

definition bad_login :: api_error where
  "bad_login = Problem 401 ''invalid username or password''"

record login_request =
  lq_source :: string
  lq_cookie :: "string option"
  lq_username :: string
  lq_password :: string

record login_state =
  ls_accounts :: accounts
  ls_windows :: windows
  ls_failures :: login_limiter

definition dummy_bcrypt :: string where
  "dummy_bcrypt = ''$2a$12$N9qo8uLOickgx2ZMRZoMyeIjZAgcfl7p92ldGxad68LJZdL17lhWy''"

definition source_login_key :: "string \<Rightarrow> string" where
  "source_login_key source = ''admin:login:source:'' @ source"

definition account_login_key :: "(string \<Rightarrow> string) \<Rightarrow> string \<Rightarrow> string" where
  "account_login_key lower name = ''admin:login:account:'' @ lower (trim_space name)"

text \<open>
  The part of \<open>login\<close> behind the limits. The clock readings 10 to 13 are those of the two limiters;
  the failed attempt is recorded for the source and the name.
\<close>

definition verify_login :: "auth_environment \<Rightarrow> login_request \<Rightarrow> login_state \<Rightarrow> (string \<times> admin_identity) result \<times> login_state" where
  "verify_login env q st =
     (let user = tbl_lookup us_name (lq_username q) (ac_users (ls_accounts st));
          hash = (case user of None \<Rightarrow> dummy_bcrypt | Some u \<Rightarrow> us_hash u);
          role = (case user of None \<Rightarrow> [] | Some u \<Rightarrow> us_role u);
          key = login_key (en_sha env) (en_lower env) (lq_source q) (lq_username q)
      in if \<not> en_matches env hash (lq_password q) \<or> role = [] then
           (case failed (en_clock env 13) key (ls_failures st) of
              None \<Rightarrow> (Inl (Fault ''nil pointer dereference''), st)
            | Some l \<Rightarrow> (Inl bad_login, st\<lparr>ls_failures := l\<rparr>))
         else case create_admin_session env (lq_username q) hash role (token (lq_cookie q)) (ls_accounts st) of
             (Inl e, ac) \<Rightarrow> (Inl e, st)
           | (Inr (t, csrf), ac) \<Rightarrow>
               (Inr (t, \<lparr>ai_authenticated = True, ai_username = lq_username q, ai_role = role, ai_csrf = csrf\<rparr>),
                st\<lparr>ls_accounts := ac, ls_failures := succeeded key (ls_failures st)\<rparr>))"

definition login :: "auth_environment \<Rightarrow> login_request \<Rightarrow> login_state \<Rightarrow> (string \<times> admin_identity) result \<times> login_state" where
  "login env q st =
     (case allow (en_clock env 10) (source_login_key (lq_source q)) 30 minute (ls_windows st) of
        (w1, wait, False) \<Rightarrow> (Inl (retry_after wait), st\<lparr>ls_windows := w1\<rparr>)
      | (w1, _, True) \<Rightarrow>
        (let st1 = st\<lparr>ls_windows := w1\<rparr>; name = lq_username q in
         if length name < 1 \<or> length name > 128 \<or> trim_space name \<noteq> name then (Inl bad_login, st1)
         else
           (let (l, wait) = blocked (en_clock env 11) (login_key (en_sha env) (en_lower env) (lq_source q) name)
                  (ls_failures st1);
                st2 = st1\<lparr>ls_failures := l\<rparr>
            in if wait > 0 then (Inl (retry_after wait), st2)
               else case allow (en_clock env 12) (account_login_key (en_lower env) name) 10 minute (ls_windows st2) of
                   (w2, wait2, pass) \<Rightarrow>
                     if \<not> pass then (Inl (retry_after wait2), st2\<lparr>ls_windows := w2\<rparr>)
                     else verify_login env q (st2\<lparr>ls_windows := w2\<rparr>))))"

end
