(* ===== verification/AuthTheorems.thy ===== *)
theory AuthTheorems
  imports Auth Tables
begin

text \<open>
  What the accounts guarantee: the tables stay consistent, a session exists only for the current
  credentials of its account, changing an account revokes its sessions, and a request passes
  \<open>authorize\<close> only with a live session, the role and the CSRF token.
\<close>

section \<open>The invariant of the account tables\<close>

interpretation user_table: keyed_table us_name "tbl_keys us_name" "tbl_lookup us_name" "tbl_insert us_name"
    "tbl_modify us_name" "tbl_remove us_name"
  by (rule list_table)

interpretation admin_table: keyed_table ad_token "tbl_keys ad_token" "tbl_lookup ad_token" "tbl_insert ad_token"
    "tbl_modify ad_token" "tbl_remove ad_token"
  by (rule list_table)

definition accounts_good :: "accounts \<Rightarrow> bool" where
  "accounts_good ac \<longleftrightarrow> tbl_keys us_name (ac_users ac) \<and> tbl_keys ad_token (ac_admins ac)
     \<and> ad_user ` set (ac_admins ac) \<subseteq> us_name ` set (ac_users ac)
     \<and> (\<forall>u \<in> set (ac_users ac). us_role u \<in> {''owner'', ''analyst''})"

definition saved_users :: "string \<Rightarrow> string \<Rightarrow> string \<Rightarrow> user_row list \<Rightarrow> user_row list" where
  "saved_users name hash role users = (case tbl_insert us_name \<lparr>us_name = name, us_hash = hash, us_role = role\<rparr> users of
     Some t \<Rightarrow> t | None \<Rightarrow> tbl_modify us_name name (\<lambda>r. r\<lparr>us_hash := hash, us_role := role\<rparr>) users)"

lemma set_user_Inr:
  assumes "set_user env name password role ac = (Inr u, ac')"
  shows "15 \<le> length password \<and> length password \<le> 72 \<and> role \<in> {''owner'', ''analyst''}
    \<and> ac' = ac\<lparr>ac_users := saved_users name (en_bcrypt env password) role (ac_users ac),
          ac_admins := tbl_delete (\<lambda>s. ad_user s = name) (ac_admins ac)\<rparr>"
  using assms by (auto simp: set_user_def saved_users_def min_admin_password_def Let_def split: if_splits)

lemma set_user_Inl: "set_user env name password role ac = (Inl e, ac') \<Longrightarrow> ac' = ac"
  by (auto simp: set_user_def Let_def split: if_splits)

lemma saved_users_keys: "tbl_keys us_name users \<Longrightarrow> tbl_keys us_name (saved_users name hash role users)"
  unfolding saved_users_def
  by (cases "tbl_insert us_name \<lparr>us_name = name, us_hash = hash, us_role = role\<rparr> users")
    (auto intro: user_table.insert_valid user_table.modify_valid)

lemma saved_users_lookup:
  "tbl_lookup us_name n (saved_users name hash role users) =
    (if n = name then Some \<lparr>us_name = name, us_hash = hash, us_role = role\<rparr> else tbl_lookup us_name n users)"
proof (cases "tbl_insert us_name \<lparr>us_name = name, us_hash = hash, us_role = role\<rparr> users")
  case None
  then obtain u where u: "tbl_lookup us_name name users = Some u"
    using user_table.insert_fresh [of "\<lparr>us_name = name, us_hash = hash, us_role = role\<rparr>" users] by auto
  then have "u\<lparr>us_hash := hash, us_role := role\<rparr> = \<lparr>us_name = name, us_hash = hash, us_role = role\<rparr>"
    using user_table.lookup_key [OF u] by (cases u) simp
  with None u show ?thesis by (simp add: saved_users_def user_table.lookup_modify)
next
  case (Some t)
  then show ?thesis using user_table.lookup_insert [OF Some] by (simp add: saved_users_def)
qed

lemma saved_users_role:
  assumes "tbl_lookup us_name n (saved_users name hash role users) = Some v"
  shows "us_role v = role \<or> tbl_lookup us_name n users = Some v"
proof (cases "n = name")
  case True
  with assms have "Some \<lparr>us_name = name, us_hash = hash, us_role = role\<rparr> = Some v"
    by (simp add: saved_users_lookup)
  from arg_cong [OF this, of "\<lambda>r. us_role (the r)"] show ?thesis by simp
next
  case False
  with assms show ?thesis by (simp add: saved_users_lookup)
qed

lemma row_lookup: "tbl_keys key t \<Longrightarrow> r \<in> set t \<longleftrightarrow> tbl_lookup key (key r) t = Some r"
  using tbl_lookup_unique [of key t r] tbl_lookup_Some [of key "key r" t r] by blast

lemma lookup_names: "n \<in> us_name ` set users \<longleftrightarrow> tbl_lookup us_name n users \<noteq> None"
  by (simp add: tbl_lookup_None)

lemma set_user_good:
  assumes "accounts_good ac" "set_user env name password role ac = (r, ac')"
  shows "accounts_good ac'"
proof (cases r)
  case (Inl e)
  with assms set_user_Inl show ?thesis by metis
next
  case (Inr u)
  from set_user_Inr [of env name password role ac u ac'] assms(2) Inr
  have role: "role \<in> {''owner'', ''analyst''}"
    and ac': "ac' = ac\<lparr>ac_users := saved_users name (en_bcrypt env password) role (ac_users ac),
          ac_admins := tbl_delete (\<lambda>s. ad_user s = name) (ac_admins ac)\<rparr>" by simp_all
  note g = assms(1) [unfolded accounts_good_def]
  have users: "us_role v \<in> {''owner'', ''analyst''}" if v: "v \<in> set (ac_users ac')" for v
  proof -
    have "tbl_keys us_name (ac_users ac')" using g by (simp add: ac' saved_users_keys)
    from tbl_lookup_unique [OF this v] have "tbl_lookup us_name (us_name v) (ac_users ac') = Some v" .
    then have "us_role v = role \<or> tbl_lookup us_name (us_name v) (ac_users ac) = Some v"
      by (simp add: ac' saved_users_role)
    then show ?thesis
    proof
      assume "us_role v = role"
      with role show ?thesis by simp
    next
      assume "tbl_lookup us_name (us_name v) (ac_users ac) = Some v"
      then have "v \<in> set (ac_users ac)" using tbl_lookup_Some by fast
      with g show ?thesis by blast
    qed
  qed
  have sess: "ad_user ` set (ac_admins ac') \<subseteq> us_name ` set (ac_users ac')"
  proof
    fix n assume "n \<in> ad_user ` set (ac_admins ac')"
    then have "n \<in> ad_user ` set (ac_admins ac)" by (auto simp: ac')
    then have "tbl_lookup us_name n (ac_users ac) \<noteq> None" using g lookup_names by blast
    then have "tbl_lookup us_name n (ac_users ac') \<noteq> None" by (simp add: ac' saved_users_lookup)
    then show "n \<in> us_name ` set (ac_users ac')" by (simp only: lookup_names not_False_eq_True)
  qed
  have "tbl_keys us_name (ac_users ac')" "tbl_keys ad_token (ac_admins ac')"
    using g by (simp_all add: ac' saved_users_keys tbl_delete_keys)
  with users sess show ?thesis by (simp add: accounts_good_def)
qed

section \<open>Sessions\<close>

text \<open>The session that the query of \<open>admin\<close> finds: live, of the cookie, of an account that exists.\<close>

definition session_of :: "auth_environment \<Rightarrow> string option \<Rightarrow> accounts \<Rightarrow> admin_row \<Rightarrow> user_row \<Rightarrow> bool" where
  "session_of env cookie ac s u \<longleftrightarrow> token cookie \<noteq> [] \<and> s \<in> set (ac_admins ac) \<and> ad_token s = en_sha env (token cookie)
     \<and> seconds (en_clock env 0) < ad_expires s \<and> u \<in> set (ac_users ac) \<and> us_name u = ad_user s"

definition identity_of :: "admin_row \<Rightarrow> user_row \<Rightarrow> admin_identity" where
  "identity_of s u = \<lparr>ai_authenticated = True, ai_username = us_name u, ai_role = us_role u, ai_csrf = ad_csrf s\<rparr>"

lemma identity_of_simps [simp]:
  "ai_authenticated (identity_of s u)" "ai_username (identity_of s u) = us_name u"
  "ai_role (identity_of s u) = us_role u" "ai_csrf (identity_of s u) = ad_csrf s"
  "\<not> ai_authenticated nobody"
  by (simp_all add: identity_of_def nobody_def)

lemma admin_cases:
  "admin env cookie ac = nobody \<or> (\<exists>s u. session_of env cookie ac s u \<and> admin env cookie ac = identity_of s u)"
proof (cases "find (\<lambda>s. ad_token s = en_sha env (token cookie) \<and> seconds (en_clock env 0) < ad_expires s
          \<and> tbl_lookup us_name (ad_user s) (ac_users ac) \<noteq> None) (ac_admins ac)")
  case None
  then show ?thesis by (simp add: admin_def)
next
  case (Some s)
  then have s: "s \<in> set (ac_admins ac)" "ad_token s = en_sha env (token cookie)" "seconds (en_clock env 0) < ad_expires s"
    by (auto simp: find_Some_iff)
  from Some obtain u where u: "tbl_lookup us_name (ad_user s) (ac_users ac) = Some u" by (auto simp: find_Some_iff)
  then have "u \<in> set (ac_users ac)" "us_name u = ad_user s" using tbl_lookup_Some by fast+
  with s have "token cookie \<noteq> [] \<Longrightarrow> session_of env cookie ac s u" by (simp add: session_of_def)
  moreover have "token cookie \<noteq> [] \<Longrightarrow> admin env cookie ac = identity_of s u"
    using Some u by (simp add: admin_def identity_of_def)
  moreover have "token cookie = [] \<Longrightarrow> admin env cookie ac = nobody" by (simp add: admin_def)
  ultimately show ?thesis by blast
qed

lemma admin_session_of:
  assumes g: "accounts_good ac" and s: "session_of env cookie ac s u"
  shows "admin env cookie ac = identity_of s u"
proof -
  have keys: "tbl_keys us_name (ac_users ac)" "tbl_keys ad_token (ac_admins ac)"
    using g by (simp_all add: accounts_good_def)
  note s' = s [unfolded session_of_def]
  have u: "tbl_lookup us_name (ad_user s) (ac_users ac) = Some u" using s' tbl_lookup_unique [OF keys(1), of u] by simp
  have "find (\<lambda>s. ad_token s = en_sha env (token cookie) \<and> seconds (en_clock env 0) < ad_expires s
          \<and> tbl_lookup us_name (ad_user s) (ac_users ac) \<noteq> None) (ac_admins ac) \<noteq> None"
    unfolding find_None_iff using s' u by (auto intro!: bexI [of _ s])
  then have "admin env cookie ac \<noteq> nobody \<or> admin env cookie ac = nobody \<and> False"
    using s' by (auto simp: admin_def nobody_def find_Some_iff split: option.splits)
  then obtain s2 u2 where 2: "session_of env cookie ac s2 u2" "admin env cookie ac = identity_of s2 u2"
    using admin_cases by blast
  note s2 = 2(1) [unfolded session_of_def]
  have "s2 = s" using s' s2 tbl_lookup_unique [OF keys(2), of s] tbl_lookup_unique [OF keys(2), of s2] by simp
  moreover have "u2 = u" using s' s2 calculation tbl_lookup_unique [OF keys(1), of u] tbl_lookup_unique [OF keys(1), of u2] by simp
  ultimately show ?thesis using 2 by simp
qed

lemma authorize_session:
  assumes "accounts_good ac"
  shows "authorize env owner method cookie csrf ac = Inr a \<longleftrightarrow>
    (\<exists>s u. session_of env cookie ac s u \<and> a = identity_of s u \<and> (owner \<longrightarrow> us_role u = ''owner'')
      \<and> (method \<in> {''GET'', ''HEAD''} \<or> csrf = ad_csrf s))"
proof
  assume r: "authorize env owner method cookie csrf ac = Inr a"
  then have "ai_authenticated (admin env cookie ac)" by (auto simp: authorize_def Let_def split: if_splits)
  then obtain s u where s: "session_of env cookie ac s u" "admin env cookie ac = identity_of s u"
    using admin_cases [of env cookie ac] by fastforce
  from r have "a = identity_of s u \<and> (owner \<longrightarrow> us_role u = ''owner'') \<and> (method \<in> {''GET'', ''HEAD''} \<or> csrf = ad_csrf s)"
    unfolding authorize_def s(2) by (auto simp: Let_def split: if_splits)
  with s show "\<exists>s u. session_of env cookie ac s u \<and> a = identity_of s u \<and> (owner \<longrightarrow> us_role u = ''owner'')
      \<and> (method \<in> {''GET'', ''HEAD''} \<or> csrf = ad_csrf s)" by blast
next
  assume "\<exists>s u. session_of env cookie ac s u \<and> a = identity_of s u \<and> (owner \<longrightarrow> us_role u = ''owner'')
      \<and> (method \<in> {''GET'', ''HEAD''} \<or> csrf = ad_csrf s)"
  then obtain s u where s: "session_of env cookie ac s u" and a: "a = identity_of s u"
    "owner \<longrightarrow> us_role u = ''owner''" "method \<in> {''GET'', ''HEAD''} \<or> csrf = ad_csrf s" by blast
  from a show "authorize env owner method cookie csrf ac = Inr a"
    unfolding authorize_def admin_session_of [OF assms s] by (auto simp: Let_def)
qed

text \<open>C20: A protected handler runs exactly for the owner of a live session of the cookie whose account
  exists, has the owner role where it is required, and sends the CSRF token of that session with every
  method but GET and HEAD; it then runs under the role the account has now.\<close>

theorem authorize_iff:
  assumes "accounts_good ac"
  shows "authorize env owner method cookie csrf ac = Inr a \<longleftrightarrow>
    (\<exists>s u. session_of env cookie ac s u \<and> a = identity_of s u \<and> (owner \<longrightarrow> us_role u = ''owner'')
      \<and> (method \<in> {''GET'', ''HEAD''} \<or> csrf = ad_csrf s))"
  using assms by (rule authorize_session)

section \<open>Logging in and revoking\<close>

lemma create_admin_session_Inr:
  assumes "create_admin_session env name hash role old ac = (Inr (t, csrf), ac')"
  obtains u admins where "tbl_lookup us_name name (ac_users ac) = Some u" "us_hash u = hash" "us_role u = role"
    "t = en_random env 0" "csrf = en_random env 1" "ac' = ac\<lparr>ac_admins := admins\<rparr>"
    "tbl_insert ad_token \<lparr>ad_token = en_sha env t, ad_user = name, ad_csrf = csrf,
        ad_expires = seconds (en_clock env 2 + 12 * hour)\<rparr>
      (tbl_delete (\<lambda>s. ad_expires s \<le> seconds (en_clock env 1) \<or> ad_token s = en_sha env old) (ac_admins ac)) = Some admins"
  using assms by (auto simp: create_admin_session_def Let_def split: option.splits if_splits)

lemma create_admin_session_Inl: "create_admin_session env name hash role old ac = (Inl e, ac') \<Longrightarrow> ac' = ac"
  by (auto simp: create_admin_session_def Let_def split: option.splits if_splits)

lemma create_admin_session_good:
  assumes g: "accounts_good ac" and "create_admin_session env name hash role old ac = (r, ac')"
  shows "accounts_good ac'"
proof (cases r)
  case (Inl e)
  with assms create_admin_session_Inl show ?thesis by metis
next
  case (Inr p)
  obtain t csrf where p: "p = (t, csrf)" by (cases p)
  from assms(2) [unfolded Inr p] show ?thesis
  proof (rule create_admin_session_Inr)
    fix u admins
    assume u: "tbl_lookup us_name name (ac_users ac) = Some u" and ac': "ac' = ac\<lparr>ac_admins := admins\<rparr>"
      and ins: "tbl_insert ad_token \<lparr>ad_token = en_sha env t, ad_user = name, ad_csrf = csrf,
          ad_expires = seconds (en_clock env 2 + 12 * hour)\<rparr>
        (tbl_delete (\<lambda>s. ad_expires s \<le> seconds (en_clock env 1) \<or> ad_token s = en_sha env old) (ac_admins ac)) = Some admins"
    from ins have "tbl_keys ad_token admins"
      by (rule admin_table.insert_valid [rotated]) (use g in \<open>simp add: accounts_good_def tbl_delete_keys\<close>)
    moreover have "name \<in> us_name ` set (ac_users ac)" using u lookup_names by blast
    then have "ad_user ` set admins \<subseteq> us_name ` set (ac_users ac)"
      using ins g by (auto simp: tbl_insert_Some accounts_good_def)
    ultimately show "accounts_good ac'" using g by (simp add: ac' accounts_good_def)
  qed
qed

lemma logout_good: "accounts_good ac \<Longrightarrow> accounts_good (logout env cookie ac)"
  by (auto simp: accounts_good_def logout_def tbl_delete_keys)

text \<open>Setting an account revokes its sessions: no cookie authenticates as that user any more, under
  any clock, until the user logs in again; the sessions of the other accounts are untouched.\<close>

theorem set_user_revokes:
  assumes g: "accounts_good ac" and set: "set_user env name password role ac = (Inr (), ac')"
  shows "\<not> (ai_authenticated (admin env2 cookie ac') \<and> ai_username (admin env2 cookie ac') = name)
    \<and> (ai_username (admin env2 cookie ac) = name \<or> admin env2 cookie ac' = admin env2 cookie ac)"
proof -
  from set_user_Inr [OF set] have ac': "ac' = ac\<lparr>ac_users := saved_users name (en_bcrypt env password) role (ac_users ac),
        ac_admins := tbl_delete (\<lambda>s. ad_user s = name) (ac_admins ac)\<rparr>" by simp
  have gone: "\<not> session_of env2 cookie ac' s u" if "us_name u = name" for s u
    using that by (auto simp: session_of_def ac')
  then have revoked: "\<not> (ai_authenticated (admin env2 cookie ac') \<and> ai_username (admin env2 cookie ac') = name)"
    using admin_cases [of env2 cookie ac'] by auto
  have g': "accounts_good ac'" using set_user_good [OF g set] .
  have same: "u \<in> set (ac_users ac') \<longleftrightarrow> u \<in> set (ac_users ac)" if u: "us_name u \<noteq> name" for u
  proof -
    have "u \<in> set (ac_users a) \<longleftrightarrow> tbl_lookup us_name (us_name u) (ac_users a) = Some u" if "accounts_good a" for a
      using that by (simp add: accounts_good_def row_lookup)
    from this [OF g] this [OF g'] u show ?thesis by (simp add: ac' saved_users_lookup)
  qed
  have iff: "session_of env2 cookie ac' s u \<longleftrightarrow> session_of env2 cookie ac s u" if "us_name u \<noteq> name" for s u
    using same [OF that] that by (auto simp: session_of_def ac')
  have "admin env2 cookie ac' = admin env2 cookie ac" if other: "ai_username (admin env2 cookie ac) \<noteq> name"
  proof (cases "\<exists>s u. session_of env2 cookie ac s u")
    case True
    then obtain s u where s: "session_of env2 cookie ac s u" by blast
    with other have "us_name u \<noteq> name" by (simp add: admin_session_of [OF g s])
    with s iff have "session_of env2 cookie ac' s u" by blast
    then show ?thesis by (simp add: admin_session_of [OF g'] admin_session_of [OF g s])
  next
    case False
    then have "\<not> session_of env2 cookie ac' s u" for s u using gone iff by (cases "us_name u = name") blast+
    with False admin_cases [of env2 cookie ac] admin_cases [of env2 cookie ac'] show ?thesis by metis
  qed
  with revoked show ?thesis by blast
qed

text \<open>The limits in front of the credentials leave the accounts alone.\<close>

definition login_gate :: "auth_environment \<Rightarrow> login_request \<Rightarrow> login_state \<Rightarrow> api_error option \<times> login_state" where
  "login_gate env q st =
     (case allow (en_clock env 10) (source_login_key (lq_source q)) 30 minute (ls_windows st) of
        (w1, wait, False) \<Rightarrow> (Some (retry_after wait), st\<lparr>ls_windows := w1\<rparr>)
      | (w1, _, True) \<Rightarrow>
        (let st1 = st\<lparr>ls_windows := w1\<rparr>; name = lq_username q in
         if length name < 1 \<or> length name > 128 \<or> trim_space name \<noteq> name then (Some bad_login, st1)
         else
           (let (l, wait) = blocked (en_clock env 11) (login_key (en_sha env) (en_lower env) (lq_source q) name)
                  (ls_failures st1);
                st2 = st1\<lparr>ls_failures := l\<rparr>
            in if wait > 0 then (Some (retry_after wait), st2)
               else case allow (en_clock env 12) (account_login_key (en_lower env) name) 10 minute (ls_windows st2) of
                   (w2, wait2, pass) \<Rightarrow>
                     (if \<not> pass then Some (retry_after wait2) else None, st2\<lparr>ls_windows := w2\<rparr>))))"

lemma login_gated:
  "login env q st = (case login_gate env q st of (Some e, st') \<Rightarrow> (Inl e, st') | (None, st') \<Rightarrow> verify_login env q st')"
  by (simp add: login_def login_gate_def Let_def split: prod.splits bool.splits)

lemma login_gate_accounts:
  "login_gate env q (st\<lparr>ls_accounts := ac\<rparr>) = (case login_gate env q st of (e, st') \<Rightarrow> (e, st'\<lparr>ls_accounts := ac\<rparr>))"
  by (simp add: login_gate_def Let_def split: prod.splits bool.splits)

lemma login_gate_same: "ls_accounts (snd (login_gate env q st)) = ls_accounts st"
  by (simp add: login_gate_def Let_def split: prod.splits bool.splits)

text \<open>The credentials that \<open>login\<close> checks: the current account and its password.\<close>

definition credentials :: "auth_environment \<Rightarrow> login_request \<Rightarrow> accounts \<Rightarrow> user_row option" where
  "credentials env q ac = (case tbl_lookup us_name (lq_username q) (ac_users ac) of
     Some u \<Rightarrow> if en_matches env (us_hash u) (lq_password q) then Some u else None
   | None \<Rightarrow> None)"

lemma roles_known: "accounts_good ac \<Longrightarrow> tbl_lookup us_name n (ac_users ac) = Some u \<Longrightarrow> us_role u \<noteq> []"
  using tbl_lookup_Some [of us_name n "ac_users ac" u] by (auto simp: accounts_good_def)

lemma verify_login_wrong:
  assumes "credentials env q (ls_accounts st) = None"
  shows "verify_login env q st =
    (case failed (en_clock env 13) (login_key (en_sha env) (en_lower env) (lq_source q) (lq_username q)) (ls_failures st) of
       None \<Rightarrow> (Inl (Fault ''nil pointer dereference''), st)
     | Some l \<Rightarrow> (Inl bad_login, st\<lparr>ls_failures := l\<rparr>))"
  using assms by (auto simp: verify_login_def credentials_def Let_def split: option.splits if_splits)

lemma verify_login_right:
  assumes g: "accounts_good (ls_accounts st)" and u: "credentials env q (ls_accounts st) = Some u"
  shows "verify_login env q st =
    (case create_admin_session env (lq_username q) (us_hash u) (us_role u) (token (lq_cookie q)) (ls_accounts st) of
       (Inl e, ac) \<Rightarrow> (Inl e, st)
     | (Inr (t, csrf), ac) \<Rightarrow>
         (Inr (t, \<lparr>ai_authenticated = True, ai_username = lq_username q, ai_role = us_role u, ai_csrf = csrf\<rparr>),
          st\<lparr>ls_accounts := ac, ls_failures := succeeded (login_key (en_sha env) (en_lower env) (lq_source q) (lq_username q))
            (ls_failures st)\<rparr>))"
proof -
  from u have "tbl_lookup us_name (lq_username q) (ac_users (ls_accounts st)) = Some u"
    and "en_matches env (us_hash u) (lq_password q)"
    by (auto simp: credentials_def split: option.splits if_splits)
  moreover have "us_role u \<noteq> []" using roles_known [OF g] calculation(1) .
  ultimately show ?thesis by (simp add: verify_login_def Let_def split: sum.split prod.split)
qed

text \<open>C22: A login with wrong credentials tells nothing about the accounts: for any two account tables
  neither of which accepts the password for the name, be the name known or not, the response and the
  new state of both limiters are the same, and the accounts do not change.\<close>

theorem login_hides_accounts:
  assumes "credentials env q ac1 = None" "credentials env q ac2 = None"
  shows "\<exists>r st'. login env q (st\<lparr>ls_accounts := ac1\<rparr>) = (r, st'\<lparr>ls_accounts := ac1\<rparr>)
    \<and> login env q (st\<lparr>ls_accounts := ac2\<rparr>) = (r, st'\<lparr>ls_accounts := ac2\<rparr>) \<and> \<not> ok r"
proof -
  obtain e st1 where gate: "login_gate env q st = (e, st1)" by (cases "login_gate env q st")
  define key where "key = login_key (en_sha env) (en_lower env) (lq_source q) (lq_username q)"
  define out :: "(string \<times> admin_identity) result \<times> login_state" where "out = (case e of Some e \<Rightarrow> (Inl e, st1)
    | None \<Rightarrow> (case failed (en_clock env 13) key (ls_failures st1) of
        None \<Rightarrow> (Inl (Fault ''nil pointer dereference''), st1)
      | Some l \<Rightarrow> (Inl bad_login, st1\<lparr>ls_failures := l\<rparr>)))"
  have "login env q (st\<lparr>ls_accounts := ac\<rparr>) = (fst out, snd out\<lparr>ls_accounts := ac\<rparr>)" if "credentials env q ac = None" for ac
    using verify_login_wrong [of env q "st1\<lparr>ls_accounts := ac\<rparr>"] that
    by (cases e) (simp_all add: login_gated login_gate_accounts gate out_def key_def split: option.split)
  moreover have "\<not> ok (fst out)" by (cases e) (simp_all add: out_def split: option.split)
  ultimately show ?thesis using assms by blast
qed

text \<open>C21: A successful login had the password of the account as it is now, and the cookie it sets
  authenticates every later request as that user, with the role and the CSRF token of the response,
  until the session expires.\<close>

theorem login_authenticates:
  assumes g: "accounts_good (ls_accounts st)"
    and login: "login env q st = (Inr (t, a), st')"
    and fresh: "token (Some (en_random env 0)) = en_random env 0" "en_random env 0 \<noteq> []"
    and later: "en_sha env2 = en_sha env" "seconds (en_clock env2 0) < seconds (en_clock env 2 + 12 * hour)"
  shows "\<exists>u. credentials env q (ls_accounts st) = Some u \<and> ai_username a = us_name u \<and> ai_role a = us_role u
    \<and> admin env2 (Some t) (ls_accounts st') = a"
proof -
  obtain e st1 where gate: "login_gate env q st = (e, st1)" by (cases "login_gate env q st")
  have ac1: "ls_accounts st1 = ls_accounts st" using login_gate_same [of env q st] gate by simp
  have v: "verify_login env q st1 = (Inr (t, a), st')"
    using login gate by (simp add: login_gated split: option.splits)
  then obtain u where u: "credentials env q (ls_accounts st1) = Some u"
    using verify_login_wrong [of env q st1]
    by (cases "credentials env q (ls_accounts st1)") (auto split: option.splits)
  obtain csrf ac' where c: "create_admin_session env (lq_username q) (us_hash u) (us_role u) (token (lq_cookie q))
        (ls_accounts st) = (Inr (t, csrf), ac')"
    and a: "a = \<lparr>ai_authenticated = True, ai_username = lq_username q, ai_role = us_role u, ai_csrf = csrf\<rparr>"
    and st': "ls_accounts st' = ac'"
    using v verify_login_right [OF _ u] g ac1 by (auto split: prod.splits sum.splits)
  have name: "us_name u = lq_username q" "u \<in> set (ac_users (ls_accounts st))"
    using u ac1 tbl_lookup_Some [of us_name "lq_username q"] by (auto simp: credentials_def split: option.splits if_splits)
  from c have "session_of env2 (Some t) ac' \<lparr>ad_token = en_sha env t, ad_user = lq_username q, ad_csrf = csrf,
      ad_expires = seconds (en_clock env 2 + 12 * hour)\<rparr> u"
    by (rule create_admin_session_Inr) (use fresh later name in \<open>auto simp: session_of_def tbl_insert_Some\<close>)
  from admin_session_of [OF create_admin_session_good [OF g c] this]
  have "admin env2 (Some t) (ls_accounts st') = a" by (simp add: a st' identity_of_def name)
  with u ac1 a name show ?thesis by auto
qed

text \<open>In a consistent state a login never dereferences a missing entry of the failure map, and the
  consistency of the accounts and of the failure map is kept.\<close>

lemma login_safe_step:
  assumes g: "accounts_good (ls_accounts st)" and l: "login_ok (ls_failures st)"
    and clock: "seen_before (en_clock env 13) (ls_failures st)"
    and login: "login env q st = (r, st')"
  shows "accounts_good (ls_accounts st') \<and> login_ok (ls_failures st') \<and> (\<forall>t. r \<noteq> Inl (Fault t))"
proof -
  obtain e st1 where gate: "login_gate env q st = (e, st1)" by (cases "login_gate env q st")
  have ac1: "ls_accounts st1 = ls_accounts st" using login_gate_same [of env q st] gate by simp
  have l1: "login_ok (ls_failures st1)" "seen_before (en_clock env 13) (ls_failures st1)"
    and e1: "\<And>x t. e = Some x \<Longrightarrow> x \<noteq> Fault t"
    using gate l clock
    by (auto simp: login_gate_def Let_def bad_login_def retry_after_def blocked_ok blocked_def login_remove_seen login_remove_ok
        split: prod.splits bool.splits if_splits option.splits)
  show ?thesis
  proof (cases e)
    case (Some x)
    with login gate e1 ac1 g l1 show ?thesis by (auto simp: login_gated)
  next
    case None
    then have v: "verify_login env q st1 = (r, st')" using login gate by (simp add: login_gated)
    show ?thesis
    proof (cases "credentials env q (ls_accounts st1)")
      case None
      from failed_ok [OF l1, of "login_key (en_sha env) (en_lower env) (lq_source q) (lq_username q)"]
      obtain l' where "failed (en_clock env 13) (login_key (en_sha env) (en_lower env) (lq_source q) (lq_username q))
          (ls_failures st1) = Some l'" "login_ok l'" by blast
      with v verify_login_wrong [OF None] g ac1 show ?thesis by (auto simp: bad_login_def)
    next
      case (Some u)
      then have u: "\<And>t. create_admin_session env (lq_username q) (us_hash u) (us_role u) (token (lq_cookie q)) (ls_accounts st)
          \<noteq> (Inl (Fault t), ac)" for ac
        by (auto simp: create_admin_session_def credentials_changed_def constraint_failed_def Let_def split: option.splits if_splits)
      obtain c ac' where c: "create_admin_session env (lq_username q) (us_hash u) (us_role u) (token (lq_cookie q)) (ls_accounts st)
          = (c, ac')" by fastforce
      from v verify_login_right [OF _ Some] g ac1 c u create_admin_session_good [OF g c] l1 show ?thesis
        by (auto simp: succeeded_ok split: sum.splits)
    qed
  qed
qed

end
