(* ===== verification/Site.thy ===== *)
theory Site
  imports Purging Drafts AuthTheorems
begin

text \<open>
  The whole service as one state machine: the database, the rate limiter and the login limiter in
  memory, the drafts, the accounts, and the purges that wait for the cleanup of the database file. A
  step is one request of a participant or an administrator, or one command of the command line;
  the two transactions of a purge are two steps, with anything in between. A restart of the process
  loses the limiters and nothing else.
\<close>

section \<open>State and steps\<close>

record site =
  si_server :: server
  si_drafts :: drafts
  si_accounts :: accounts
  si_failures :: login_limiter
  si_purging :: "string list"

definition site_db :: "site \<Rightarrow> database" where
  "site_db x = sv_db (si_server x)"

definition with_db :: "site \<Rightarrow> database \<Rightarrow> site" where
  "with_db x db = x\<lparr>si_server := (si_server x)\<lparr>sv_db := db\<rparr>\<rparr>"

definition site_login :: "site \<Rightarrow> login_state" where
  "site_login x = \<lparr>ls_accounts = si_accounts x, ls_windows = sv_windows (si_server x), ls_failures = si_failures x\<rparr>"

definition with_login :: "site \<Rightarrow> login_state \<Rightarrow> site" where
  "with_login x st = x\<lparr>si_accounts := ls_accounts st, si_failures := ls_failures st,
     si_server := (si_server x)\<lparr>sv_windows := ls_windows st\<rparr>\<rparr>"

text \<open>The clock of the login limiter does not run back: \<open>time.Now\<close> reads a monotonic clock.\<close>

inductive site_step :: "(string \<Rightarrow> string) \<Rightarrow> site \<Rightarrow> site \<Rightarrow> bool" for sha where
  site_participant: "participant_step sha (si_server x) sv \<Longrightarrow> site_step sha x (x\<lparr>si_server := sv\<rparr>)"
| site_source: "limit_public_source now path source (sv_windows (si_server x)) = (w, e) \<Longrightarrow>
    site_step sha x (x\<lparr>si_server := (si_server x)\<lparr>sv_windows := w\<rparr>\<rparr>)"
| site_import: "import_bundle sha i now b (site_db x) = (r, db) \<Longrightarrow> site_step sha x (with_db x db)"
| site_publish: "en_sha env = sha \<Longrightarrow> publish env i revision (si_drafts x) (site_db x) = (r, db) \<Longrightarrow>
    site_step sha x (with_db x db)"
| site_remove_study: "remove_study i (site_db x) = (r, db) \<Longrightarrow> site_step sha x (with_db x db)"
| site_create_draft: "create_draft env b (si_drafts x) = (r, ds) \<Longrightarrow> site_step sha x (x\<lparr>si_drafts := ds\<rparr>)"
| site_update_draft: "update_draft env i revision b (si_drafts x) = (r, ds) \<Longrightarrow> site_step sha x (x\<lparr>si_drafts := ds\<rparr>)"
| site_create_run: "en_sha env = sha \<Longrightarrow> create_run env q (site_db x) = (r, db) \<Longrightarrow> site_step sha x (with_db x db)"
| site_update_run: "update_run env i u (site_db x) = (r, db) \<Longrightarrow> site_step sha x (with_db x db)"
| site_invite: "create_invitation env origin i hours (site_db x) = (r, db) \<Longrightarrow> site_step sha x (with_db x db)"
| site_purge_delete: "purge_delete i (site_db x) = (Inr u, db) \<Longrightarrow>
    site_step sha x ((with_db x db)\<lparr>si_purging := i # si_purging x\<rparr>)"
| site_purge_mark: "i \<in> set (si_purging x) \<Longrightarrow>
    site_step sha x ((with_db x (purge_mark now i (site_db x)))\<lparr>si_purging := remove1 i (si_purging x)\<rparr>)"
| site_purge_failed: "i \<in> set (si_purging x) \<Longrightarrow> site_step sha x (x\<lparr>si_purging := remove1 i (si_purging x)\<rparr>)"
| site_set_user: "set_user env name password role (si_accounts x) = (r, ac) \<Longrightarrow> site_step sha x (x\<lparr>si_accounts := ac\<rparr>)"
| site_log_in: "seen_before (en_clock env 13) (si_failures x) \<Longrightarrow> login env q (site_login x) = (r, st) \<Longrightarrow>
    site_step sha x (with_login x st)"
| site_restart: "site_step sha x (x\<lparr>si_server := (si_server x)\<lparr>sv_windows := []\<rparr>, si_failures := new_login_limiter\<rparr>)"
| site_log_out: "site_step sha x (x\<lparr>si_accounts := logout env cookie (si_accounts x)\<rparr>)"

inductive site_reach :: "(string \<Rightarrow> string) \<Rightarrow> site \<Rightarrow> site \<Rightarrow> bool" for sha x where
  site_start: "site_reach sha x x"
| site_next: "site_reach sha x y \<Longrightarrow> site_step sha y z \<Longrightarrow> site_reach sha x z"

inductive_cases site_stepE: "site_step sha x y"

lemma with_db_simps [simp]: "site_db (with_db x db) = db" "si_purging (with_db x db) = si_purging x"
  "si_drafts (with_db x db) = si_drafts x" "si_accounts (with_db x db) = si_accounts x"
  "si_failures (with_db x db) = si_failures x" "sv_windows (si_server (with_db x db)) = sv_windows (si_server x)"
  by (simp_all add: with_db_def site_db_def)

lemma with_login_simps [simp]: "site_db (with_login x st) = site_db x" "si_purging (with_login x st) = si_purging x"
  "si_drafts (with_login x st) = si_drafts x" "si_accounts (with_login x st) = ls_accounts st"
  "si_failures (with_login x st) = ls_failures st" "sv_windows (si_server (with_login x st)) = ls_windows st"
  by (simp_all add: with_login_def site_db_def)

lemma site_db_updates [simp]: "site_db (x\<lparr>si_drafts := ds\<rparr>) = site_db x" "site_db (x\<lparr>si_accounts := ac\<rparr>) = site_db x"
  "site_db (x\<lparr>si_purging := l\<rparr>) = site_db x" "site_db (x\<lparr>si_server := sv\<rparr>) = sv_db sv"
  by (simp_all add: site_db_def)

section \<open>What a step keeps of runs and versions\<close>

text \<open>The columns of a run that nothing changes after its creation.\<close>

definition fixed_run :: "run_row \<Rightarrow> run_row \<Rightarrow> bool" where
  "fixed_run r q \<longleftrightarrow> rn_id q = rn_id r \<and> rn_slug q = rn_slug r \<and> rn_version q = rn_version r \<and> rn_mode q = rn_mode r
     \<and> rn_cap q = rn_cap r \<and> rn_recruitment q = rn_recruitment r \<and> rn_arms q = rn_arms r \<and> rn_tasks q = rn_tasks r
     \<and> rn_created q = rn_created r \<and> (purge_begun r \<longrightarrow> purge_begun q)"

lemma fixed_run_refl [simp]: "fixed_run r r"
  by (simp add: fixed_run_def)

lemma fixed_run_trans: "fixed_run r q \<Longrightarrow> fixed_run q p \<Longrightarrow> fixed_run r p"
  by (simp add: fixed_run_def)

definition runs_kept :: "database \<Rightarrow> database \<Rightarrow> bool" where
  "runs_kept db db' \<longleftrightarrow> (\<forall>r \<in> set (db_runs db). (\<exists>q \<in> set (db_runs db'). fixed_run r q)
     \<and> tbl_lookup vr_id (rn_version r) (db_versions db') = tbl_lookup vr_id (rn_version r) (db_versions db))"

lemma runs_kept_refl [simp]: "runs_kept db db"
  by (auto simp: runs_kept_def intro: fixed_run_refl)

lemma runs_kept_trans:
  assumes "runs_kept db db1" "runs_kept db1 db2"
  shows "runs_kept db db2"
  unfolding runs_kept_def
proof (intro ballI conjI)
  fix r assume "r \<in> set (db_runs db)"
  then obtain q where q: "q \<in> set (db_runs db1)" "fixed_run r q"
    and v: "tbl_lookup vr_id (rn_version r) (db_versions db1) = tbl_lookup vr_id (rn_version r) (db_versions db)"
    using assms(1) unfolding runs_kept_def by blast
  from assms(2) q(1) obtain p where p: "p \<in> set (db_runs db2)" "fixed_run q p"
    and w: "tbl_lookup vr_id (rn_version q) (db_versions db2) = tbl_lookup vr_id (rn_version q) (db_versions db1)"
    unfolding runs_kept_def by blast
  show "\<exists>q \<in> set (db_runs db2). fixed_run r q" using p q fixed_run_trans by blast
  show "tbl_lookup vr_id (rn_version r) (db_versions db2) = tbl_lookup vr_id (rn_version r) (db_versions db)"
    using v w q(2) by (simp add: fixed_run_def)
qed

lemma runs_kept_runs:
  assumes "db_versions db' = db_versions db" "\<And>r. r \<in> set (db_runs db) \<Longrightarrow> \<exists>q \<in> set (db_runs db'). fixed_run r q"
  shows "runs_kept db db'"
  using assms by (simp add: runs_kept_def)

lemma runs_kept_update:
  assumes "\<And>r. fixed_run r (g r)" "db_versions db' = db_versions db" "db_runs db' = tbl_update p g (db_runs db)"
  shows "runs_kept db db'"
proof (rule runs_kept_runs [OF assms(2)])
  fix r assume r: "r \<in> set (db_runs db)"
  then have "(if p r then g r else r) \<in> set (db_runs db')" by (auto simp: assms(3) tbl_update_def)
  moreover have "fixed_run r (if p r then g r else r)" by (simp add: assms(1))
  ultimately show "\<exists>q \<in> set (db_runs db'). fixed_run r q" by blast
qed

end
