(* ===== verification/SiteInv.thy ===== *)
theory SiteInv
  imports Site
begin

text \<open>
  The invariant of the whole service and its preservation by every step, with what each step keeps of
  the runs and of the versions they use.
\<close>

section \<open>Runs and versions\<close>

lemma participant_runs_kept:
  assumes "participant_frame db db'"
  shows "runs_kept db db'"
proof (rule runs_kept_runs)
  show "db_versions db' = db_versions db" using assms by (simp add: participant_frame_def)
  fix r assume r: "r \<in> set (db_runs db)"
  have "map run_core (db_runs db) = map run_core (db_runs db')" using assms by (simp add: participant_frame_def)
  from map_eq_member [OF this r] obtain q where q: "q \<in> set (db_runs db')" "run_core r = run_core q" by blast
  have "rn_slug (run_core p) = rn_slug p \<and> rn_mode (run_core p) = rn_mode p \<and> rn_cap (run_core p) = rn_cap p
      \<and> rn_arms (run_core p) = rn_arms p \<and> rn_tasks (run_core p) = rn_tasks p \<and> rn_created (run_core p) = rn_created p" for p
    by (simp add: run_core_def)
  from this [of r] this [of q] q(2) run_core_fields [of q r] have "fixed_run r q" by (simp add: fixed_run_def)
  with q(1) show "\<exists>q \<in> set (db_runs db'). fixed_run r q" by blast
qed

lemma insert_version_runs_kept:
  assumes ok: "versions_ok db" and ins: "insert_version_with_policy sha rid now snap p db = Inr (i, db')"
  shows "runs_kept db db'"
proof -
  have "db' = db \<or> (\<exists>v. db' = db\<lparr>db_versions := db_versions db @ [v]\<rparr> \<and> vr_id v \<notin> vr_id ` set (db_versions db))"
    using ins by (auto simp: insert_version_with_policy_def Let_def tbl_insert_Some
        split: sum.splits option.splits if_splits)
  then show ?thesis
  proof (elim disjE exE conjE)
    fix v assume db': "db' = db\<lparr>db_versions := db_versions db @ [v]\<rparr>" and v: "vr_id v \<notin> vr_id ` set (db_versions db)"
    have "tbl_lookup vr_id (rn_version r) (db_versions db @ [v]) = tbl_lookup vr_id (rn_version r) (db_versions db)"
      if r: "r \<in> set (db_runs db)" for r
    proof -
      have "rn_version r \<in> vr_id ` set (db_versions db)" using ok r by (auto simp: versions_ok_def)
      then have "vr_id v \<noteq> rn_version r" using v by metis
      moreover have "tbl_insert vr_id v (db_versions db) = Some (db_versions db @ [v])" using v by (simp add: tbl_insert_Some)
      ultimately show ?thesis using tbl_lookup_insert [of vr_id v "db_versions db"] by simp
    qed
    then show "runs_kept db db'" by (auto simp: runs_kept_def db' intro: fixed_run_refl)
  qed simp
qed

lemma remove_study_runs_kept:
  assumes k: "tbl_keys vr_id (db_versions db)" and "remove_study i db = (r, db')"
  shows "runs_kept db db'"
proof (cases "db' = db")
  case False
  then have none: "runs_of i db = 0" and db': "db' = db\<lparr>db_versions := tbl_delete (\<lambda>v. vr_id v = i) (db_versions db)\<rparr>"
    using assms by (auto simp: remove_study_def split: if_splits option.splits)
  have "rn_version r \<noteq> i" if "r \<in> set (db_runs db)" for r
    using none that by (auto simp: runs_of_def tbl_count_def filter_empty_conv)
  then have "tbl_lookup vr_id (rn_version r) (tbl_delete (\<lambda>v. vr_id v = i) (db_versions db))
      = tbl_lookup vr_id (rn_version r) (db_versions db)" if "r \<in> set (db_runs db)" for r
    using that tbl_remove_lookup [OF k, of "rn_version r" i] by (simp add: tbl_remove_def)
  then show ?thesis by (auto simp: runs_kept_def db' intro: fixed_run_refl)
qed simp

lemma create_run_kept:
  assumes "create_run env q db = (r, db')"
  shows "runs_kept db db'"
proof (cases r)
  case (Inl e)
  with assms create_run_Inl show ?thesis by (metis runs_kept_refl)
next
  case (Inr run)
  with assms create_run_Inr have "insert_run run db = Inr db'" by blast
  then have "db' = db\<lparr>db_runs := db_runs db @ [run]\<rparr>" by (simp add: insert_run_Inr)
  then show ?thesis by (auto simp: runs_kept_def intro: fixed_run_refl)
qed

lemma update_run_kept:
  assumes "update_run env i q db = (r, db')"
  shows "runs_kept db db'"
proof (cases "db' = db")
  case False
  then have "db' = db\<lparr>db_runs := tbl_update (\<lambda>r. rn_id r = i) (updated_run (en_clock env 0) q) (db_runs db)\<rparr>"
    using assms by (auto simp: update_run_def split: option.splits)
  then show ?thesis
    by (intro runs_kept_update [of "updated_run (en_clock env 0) q"])
      (simp_all add: updated_run_def fixed_run_def purge_begun_def Let_def)
qed simp

lemma create_invitation_kept:
  assumes "create_invitation env origin i hours db = (r, db')"
  shows "runs_kept db db'"
  using assms
  by (intro runs_kept_runs)
    (auto simp: create_invitation_def insert_invitation_def Let_def intro: fixed_run_refl
      split: if_splits sum.splits option.splits)

lemma purge_rows_kept: "runs_kept db (purge_rows i db)"
  by (rule runs_kept_update [of purged_row _ _ "\<lambda>r. rn_id r = i"])
    (simp_all add: purge_rows_tables fixed_run_def purged_row_def [abs_def] purge_begun_def)

lemma purge_mark_kept: "runs_kept db (purge_mark now i db)"
  by (rule runs_kept_update [of "\<lambda>r. r\<lparr>rn_purged_at := Some now, rn_purge_pending := False\<rparr>" _ _ "\<lambda>r. rn_id r = i"])
    (simp_all add: purge_mark_def fixed_run_def purge_begun_def)

section \<open>The invariant\<close>

text \<open>A purge that waits for its cleanup: its run exists and the purge has begun.\<close>

definition purging_ok :: "database \<Rightarrow> string list \<Rightarrow> bool" where
  "purging_ok db l \<longleftrightarrow> (\<forall>i \<in> set l. \<exists>r \<in> set (db_runs db). rn_id r = i \<and> purge_begun r)"

definition site_ok :: "(string \<Rightarrow> string) \<Rightarrow> site \<Rightarrow> bool" where
  "site_ok sha x \<longleftrightarrow> site_db_ok sha (site_db x) \<and> limiter_ok (sv_windows (si_server x)) \<and> accounts_good (si_accounts x)
     \<and> login_ok (si_failures x) \<and> tbl_keys dr_id (si_drafts x) \<and> purging_ok (site_db x) (si_purging x)"

lemma purging_ok_kept: "runs_kept db db' \<Longrightarrow> purging_ok db l \<Longrightarrow> purging_ok db' l"
  unfolding purging_ok_def runs_kept_def fixed_run_def by metis

lemma purging_ok_subset: "purging_ok db l \<Longrightarrow> set l' \<subseteq> set l \<Longrightarrow> purging_ok db l'"
  by (auto simp: purging_ok_def)

lemma site_db_parts:
  assumes "site_db_ok sha db"
  shows "keys_ok db" "versions_ok db" "tbl_keys vr_id (db_versions db)"
  using assms by (simp_all add: site_db_ok_def db_ok_def versions_ok_def)

text \<open>A step that changes the database only.\<close>

lemma site_ok_db:
  assumes "site_ok sha x" "site_db_ok sha db'" "runs_kept (site_db x) db'"
  shows "site_ok sha (with_db x db') \<and> runs_kept (site_db x) (site_db (with_db x db'))"
  using assms purging_ok_kept [OF assms(3)] by (simp add: site_ok_def)

lemma source_limiter_ok:
  assumes "limit_public_source now path source l = (w, e)" "limiter_ok l"
  shows "limiter_ok w"
  using assms allow_limiter_ok [OF assms(2)]
  by (auto simp: limit_public_source_def Let_def split: if_splits prod.splits)

lemma login_limiter_kept:
  assumes "login env q st = (r, st')" "limiter_ok (ls_windows st)"
  shows "limiter_ok (ls_windows st')"
proof -
  obtain e st1 where gate: "login_gate env q st = (e, st1)" by (cases "login_gate env q st")
  have "limiter_ok (ls_windows st1)"
    using gate assms(2)
    by (auto simp: login_gate_def Let_def intro: allow_limiter_ok allow_limiter_ok [OF allow_limiter_ok] split: prod.splits bool.splits if_splits)
  moreover have "ls_windows st' = ls_windows st1"
    using assms(1) gate
    by (auto simp: login_gated verify_login_def Let_def split: option.splits prod.splits sum.splits if_splits)
  ultimately show ?thesis by simp
qed

lemma create_draft_keys: "create_draft env b ds = (r, ds') \<Longrightarrow> tbl_keys dr_id ds \<Longrightarrow> tbl_keys dr_id ds'"
  by (auto simp: create_draft_def intro: draft_table.insert_valid split: option.splits)

lemma update_draft_keys: "update_draft env i n b ds = (r, ds') \<Longrightarrow> tbl_keys dr_id ds \<Longrightarrow> tbl_keys dr_id ds'"
  by (auto simp: update_draft_def intro: draft_table.modify_valid split: option.splits if_splits)

lemma import_bundle_kept: "versions_ok db \<Longrightarrow> import_bundle sha i now b db = (r, db') \<Longrightarrow> runs_kept db db'"
  using insert_version_runs_kept by (auto simp: import_bundle_def insert_version_def split: sum.splits prod.splits)

lemma publish_kept: "versions_ok db \<Longrightarrow> publish env i n ds db = (r, db') \<Longrightarrow> runs_kept db db'"
  using insert_version_runs_kept
  by (auto simp: publish_def insert_version_def split: option.splits sum.splits if_splits prod.splits)

lemma purge_delete_kept: "purge_delete i db = (r, db') \<Longrightarrow> runs_kept db db'"
  by (auto simp: purge_delete_def purge_rows_kept split: option.splits if_splits)

lemma purge_delete_begun:
  assumes "purge_delete i db = (Inr u, db')"
  shows "\<exists>r \<in> set (db_runs db'). rn_id r = i \<and> purge_begun r"
proof -
  obtain r where r: "tbl_lookup rn_id i (db_runs db) = Some r" and db': "db' = purge_rows i db"
    using assms by (auto simp: purge_delete_def split: option.splits if_splits)
  from tbl_lookup_Some [OF r] have "r \<in> set (db_runs db)" "rn_id r = i" by simp_all
  then have "purged_row r \<in> set (db_runs db')"
    by (auto simp: db' purge_rows_def Let_def tbl_update_def purged_row_def)
  with \<open>rn_id r = i\<close> show ?thesis by (intro bexI [of _ "purged_row r"]) (simp_all add: purged_row_def purge_begun_def)
qed

lemma purging_begun:
  assumes "site_ok sha x" "i \<in> set (si_purging x)" "r \<in> set (db_runs (site_db x))" "rn_id r = i"
  shows "purge_begun r"
proof -
  have "keys_ok (site_db x)" using assms(1) site_db_parts(1) unfolding site_ok_def by blast
  moreover obtain q where "q \<in> set (db_runs (site_db x))" "rn_id q = i" "purge_begun q"
    using assms(1,2) by (auto simp: site_ok_def purging_ok_def)
  ultimately show ?thesis using keys_ok_eq(1) assms(3,4) by blast
qed

theorem site_step_ok:
  assumes "site_step sha x y" "site_ok sha x"
  shows "site_ok sha y \<and> runs_kept (site_db x) (site_db y)"
proof -
  have db: "site_db_ok sha (site_db x)" "versions_ok (site_db x)" "tbl_keys vr_id (db_versions (site_db x))"
    using assms(2) site_db_parts by (auto simp: site_ok_def)
  note parts = assms(2) [unfolded site_ok_def]
  from assms(1) show ?thesis
  proof (cases rule: site_step.cases)
    case (site_participant sv)
    have ok: "server_ok sha (si_server x)" using parts by (simp add: server_ok_def site_db_def site_db_ok_def)
    have new: "site_db_ok sha (sv_db sv) \<and> server_ok sha sv"
      using participant_step_site [OF site_participant(2) ok] db(1) by (simp add: site_db_def)
    have kept: "runs_kept (site_db x) (sv_db sv)"
      using participant_step_frame [OF site_participant(2)] ok
      by (simp add: site_db_def server_ok_def participant_runs_kept)
    with new parts purging_ok_kept [OF kept] show ?thesis
      unfolding site_participant(1) by (simp add: site_ok_def server_ok_def)
  next
    case (site_source now path source w e)
    with parts source_limiter_ok [OF site_source(2)] show ?thesis by (simp add: site_ok_def site_db_def)
  next
    case (site_import i now b r db')
    show ?thesis unfolding site_import(1)
      by (rule site_ok_db [OF assms(2) import_bundle_ok [OF db(1) site_import(2)] import_bundle_kept [OF db(2) site_import(2)]])
  next
    case (site_publish env i revision r db')
    show ?thesis unfolding site_publish(1)
      by (rule site_ok_db [OF assms(2) _ publish_kept [OF db(2) site_publish(3)]])
        (use publish_ok [of env] site_publish(2,3) db(1) in blast)
  next
    case (site_remove_study i r db')
    show ?thesis unfolding site_remove_study(1)
      by (rule site_ok_db [OF assms(2) remove_study_ok [OF db(1) site_remove_study(2)]
          remove_study_runs_kept [OF db(3) site_remove_study(2)]])
  next
    case (site_create_draft env b r ds)
    with parts create_draft_keys [OF site_create_draft(2)] show ?thesis by (simp add: site_ok_def site_db_def)
  next
    case (site_update_draft env i revision b r ds)
    with parts update_draft_keys [OF site_update_draft(2)] show ?thesis by (simp add: site_ok_def site_db_def)
  next
    case (site_create_run env q r db')
    show ?thesis unfolding site_create_run(1)
      by (rule site_ok_db [OF assms(2) _ create_run_kept [OF site_create_run(3)]])
        (use create_run_ok [of sha] site_create_run(2,3) db(1) in blast)
  next
    case (site_update_run env i u r db')
    show ?thesis unfolding site_update_run(1)
      by (rule site_ok_db [OF assms(2) update_run_ok [OF db(1) site_update_run(2)] update_run_kept [OF site_update_run(2)]])
  next
    case (site_invite env origin i hours r db')
    show ?thesis unfolding site_invite(1)
      by (rule site_ok_db [OF assms(2) create_invitation_ok [OF db(1) site_invite(2)]
          create_invitation_kept [OF site_invite(2)]])
  next
    case (site_purge_delete i u db')
    have "site_ok sha (with_db x db') \<and> runs_kept (site_db x) (site_db (with_db x db'))"
      by (rule site_ok_db [OF assms(2) purge_delete_ok [OF db(1) site_purge_delete(2)] purge_delete_kept [OF site_purge_delete(2)]])
    with purge_delete_begun [OF site_purge_delete(2)] show ?thesis
      unfolding site_purge_delete(1) by (simp add: site_ok_def purging_ok_def)
  next
    case (site_purge_mark i now)
    have "site_ok sha (with_db x (purge_mark now i (site_db x)))
        \<and> runs_kept (site_db x) (site_db (with_db x (purge_mark now i (site_db x))))"
      by (rule site_ok_db [OF assms(2) purge_mark_ok [OF db(1)] purge_mark_kept])
        (rule purging_begun [OF assms(2) site_purge_mark(2)])
    with purging_ok_subset [OF _ set_remove1_subset] show ?thesis
      unfolding site_purge_mark(1) by (auto simp: site_ok_def)
  next
    case (site_purge_failed i)
    with parts purging_ok_subset [OF _ set_remove1_subset] show ?thesis by (simp add: site_ok_def)
  next
    case (site_set_user env name password role r ac)
    with parts set_user_good [OF _ site_set_user(2)] show ?thesis by (simp add: site_ok_def)
  next
    case (site_log_in env q r st)
    have "accounts_good (ls_accounts st) \<and> login_ok (ls_failures st)"
      using login_safe_step [of "site_login x" env q r st] site_log_in parts by (simp add: site_login_def)
    moreover have "limiter_ok (ls_windows st)"
      using login_limiter_kept [OF site_log_in(3)] parts by (simp add: site_login_def)
    ultimately show ?thesis unfolding site_log_in(1) using parts by (simp add: site_ok_def)
  next
    case site_restart
    with parts new_login_limiter_ok show ?thesis by (simp add: site_ok_def site_db_def limiter_ok_def)
  next
    case (site_log_out env cookie)
    with parts show ?thesis by (simp add: site_ok_def logout_good)
  qed
qed

lemma site_reach_ok:
  assumes "site_reach sha x y" "site_ok sha x"
  shows "site_ok sha y \<and> runs_kept (site_db x) (site_db y)"
  using assms by (induction) (auto dest: site_step_ok intro: runs_kept_trans)

end
