(* ===== verification/SiteTheorems.thy ===== *)
theory SiteTheorems
  imports SiteInv
begin

text \<open>
  What the service guarantees in every state that any mixture of participant requests, administrator
  requests and commands leads to, starting from a site without participants.
\<close>

section \<open>Where a site starts\<close>

text \<open>
  A site without participants: nobody has joined, no purge is under way and the limiters are empty.
  The empty database of a new installation is one; the studies, runs and accounts of an administrator
  may be there already.
\<close>

definition fresh_site :: "site \<Rightarrow> bool" where
  "fresh_site x \<longleftrightarrow> fresh_server (si_server x) \<and> versions_ok (site_db x) \<and> db_invitations (site_db x) = []
     \<and> (\<forall>r \<in> set (db_runs (site_db x)). run_life r) \<and> accounts_good (si_accounts x)
     \<and> si_failures x = new_login_limiter \<and> tbl_keys dr_id (si_drafts x) \<and> si_purging x = []"

definition empty_site :: site where
  "empty_site = \<lparr>si_server = \<lparr>sv_db = \<lparr>db_versions = [], db_runs = [], db_sessions = [], db_attempts = [], db_events = [],
       db_commands = [], db_invitations = []\<rparr>, sv_windows = []\<rparr>,
     si_drafts = [], si_accounts = \<lparr>ac_users = [], ac_admins = []\<rparr>, si_failures = new_login_limiter, si_purging = []\<rparr>"

lemma empty_site_fresh: "fresh_site empty_site"
  by (simp add: fresh_site_def empty_site_def fresh_server_def fresh_db_def site_db_def versions_ok_def accounts_good_def
      tbl_keys_def)

lemma fresh_site_ok: "fresh_site x \<Longrightarrow> site_ok sha x"
  by (simp add: fresh_site_def fresh_server_def site_ok_def site_db_ok_def site_db_def fresh_db_ok runs_life_ok_def
      invitations_ok_def limiter_ok_def new_login_limiter_ok purging_ok_def) (simp add: fresh_db_def tbl_keys_def)

lemma reachable_site_ok: "fresh_site x0 \<Longrightarrow> site_reach sha x0 x \<Longrightarrow> site_ok sha x"
  using site_reach_ok fresh_site_ok by blast

lemma reachable_db:
  assumes "fresh_site x0" "site_reach sha x0 x"
  shows "db_ok sha (site_db x)" "runs_life_ok (site_db x)" "versions_ok (site_db x)" "invitations_ok (site_db x)"
  using reachable_site_ok [OF assms] by (simp_all add: site_ok_def site_db_ok_def)

lemma participant_reach_site: "participant_reach sha (si_server x) sv \<Longrightarrow> site_reach sha x (x\<lparr>si_server := sv\<rparr>)"
proof (induction rule: participant_reach.induct)
  case reach_start
  then show ?case using site_start [of sha x] by simp
next
  case (reach_step sv1 sv2)
  from site_next [OF reach_step.IH site_participant] reach_step.hyps(2) show ?case by fastforce
qed

section \<open>Participant data\<close>

text \<open>C1: In every reachable state each run has at most its enrolment cap of sessions, and the byte
  counters that guard the storage limits are exact: the data bytes of a run are the sum over its
  sessions of the stored row and its event bytes, the event bytes of a session are the sum over its
  attempts, those of an attempt are the bytes of its log, and no counter exceeds its limit. This holds
  under any mixture with the operations of administrators, purges included.\<close>

theorem caps_and_accounts:
  assumes "fresh_site x0" "site_reach sha x0 x"
  shows "caps_and_counters (site_db x)"
  using db_ok_counters reachable_db(1) [OF assms] by blast

text \<open>C2: In every reachable state the stored log of every attempt is well-formed against the tree of its
  session and is accepted by the replay again, and the attempt's next sequence number is the one after
  its last stored event.\<close>

theorem stored_logs_replay:
  assumes "fresh_site x0" "site_reach sha x0 x"
    "a \<in> set (db_attempts (site_db x))" "s \<in> set (db_sessions (site_db x))" "at_session a = ss_id s"
    "session_study sha (site_db x) s f"
  shows "log_ok (session_index f s) (load_events (site_db x) (at_id a))
    \<and> ok (replay (session_index f s) (load_events (site_db x) (at_id a)))
    \<and> at_next_seq a = length (load_events (site_db x) (at_id a)) + 1"
  by (rule db_ok_log [OF reachable_db(1) [OF assms(1,2)] assms(3-6)])

text \<open>C3: Sessions progress task by task: in every reachable state a session has exactly one attempt for
  each finished task, at most one attempt for the current task and none for a later one, an attempt is
  for the task of the session's list at its index and is finished exactly when its task lies before the
  session's index, and a session is complete only when all its tasks are.\<close>

theorem sessions_progress:
  assumes "fresh_site x0" "site_reach sha x0 x" "s \<in> set (db_sessions (site_db x))"
  shows "ss_index s \<le> length (ss_tasks s)
    \<and> (\<forall>i < ss_index s. \<exists>!a. a \<in> set (db_attempts (site_db x)) \<and> at_session a = ss_id s \<and> at_index a = i)
    \<and> (\<forall>a \<in> set (db_attempts (site_db x)). at_session a = ss_id s \<longrightarrow>
         at_index a \<le> ss_index s \<and> at_task a = ss_tasks s ! at_index a
         \<and> (at_finished a \<noteq> None \<longleftrightarrow> at_index a < ss_index s))
    \<and> (ss_completed s \<noteq> None \<longrightarrow> ss_index s = length (ss_tasks s))
    \<and> (\<forall>a \<in> set (db_attempts (site_db x)). \<forall>b \<in> set (db_attempts (site_db x)).
         at_session a = ss_id s \<and> at_session b = ss_id s \<and> at_index a = at_index b \<longrightarrow> a = b)"
proof -
  note db = reachable_db(1) [OF assms(1,2)]
  then have k: "keys_ok (site_db x)" by (simp add: db_ok_def)
  have "\<forall>a \<in> set (db_attempts (site_db x)). \<forall>b \<in> set (db_attempts (site_db x)).
      at_session a = ss_id s \<and> at_session b = ss_id s \<and> at_index a = at_index b \<longrightarrow> a = b"
    using keys_ok_eq(4) [OF k] by auto
  with db_ok_progress [OF db assms(3)] show ?thesis by blast
qed

text \<open>C4: An invitation admits one participant: in every reachable state each session of a run that
  recruits by invitation has a used invitation of that run that names the session, so that the run has
  no more sessions than used invitations.\<close>

theorem invitations_single_use:
  assumes "fresh_site x0" "site_reach sha x0 x" "r \<in> set (db_runs (site_db x))" "rn_recruitment r = ''invitation''"
  shows "(\<forall>s \<in> set (db_sessions (site_db x)). ss_run s = rn_id r \<longrightarrow>
      (\<exists>i \<in> set (db_invitations (site_db x)). iv_used i \<noteq> None \<and> iv_run i = rn_id r \<and> iv_session i = Some (ss_id s)))
    \<and> tbl_count (\<lambda>s. ss_run s = rn_id r) (db_sessions (site_db x))
        \<le> tbl_count (\<lambda>i. iv_used i \<noteq> None \<and> iv_run i = rn_id r) (db_invitations (site_db x))"
proof -
  define ss where "ss = filter (\<lambda>s. ss_run s = rn_id r) (db_sessions (site_db x))"
  define invs where "invs = filter (\<lambda>i. iv_used i \<noteq> None \<and> iv_run i = rn_id r) (db_invitations (site_db x))"
  have has: "\<exists>i \<in> set invs. iv_session i = Some (ss_id s)" if "s \<in> set ss" for s
  proof -
    have "has_invitation (db_invitations (site_db x)) s"
      using reachable_db(4) [OF assms(1,2)] assms(3,4) that by (simp add: invitations_ok_def ss_def)
    with that show ?thesis by (auto simp: has_invitation_def ss_def invs_def)
  qed
  have "distinct (map ss_id ss)"
    using reachable_db(1) [OF assms(1,2)] by (simp add: db_ok_def keys_ok_def tbl_keys_def ss_def distinct_map_filter)
  then have "length ss = card (Some ` ss_id ` set ss)"
    using distinct_card [of "map ss_id ss"] by (simp add: card_image)
  also have "\<dots> \<le> card (iv_session ` set invs)"
  proof (rule card_mono)
    show "Some ` ss_id ` set ss \<subseteq> iv_session ` set invs"
    proof
      fix y assume "y \<in> Some ` ss_id ` set ss"
      then obtain s where "s \<in> set ss" "y = Some (ss_id s)" by blast
      with has [of s] show "y \<in> iv_session ` set invs" by (metis imageI)
    qed
  qed simp
  also have "\<dots> \<le> length invs" using card_image_le [of "set invs" iv_session] card_length [of invs] by simp
  finally have "tbl_count (\<lambda>s. ss_run s = rn_id r) (db_sessions (site_db x))
        \<le> tbl_count (\<lambda>i. iv_used i \<noteq> None \<and> iv_run i = rn_id r) (db_invitations (site_db x))"
    by (simp add: tbl_count_def ss_def invs_def)
  moreover have "\<forall>s \<in> set (db_sessions (site_db x)). ss_run s = rn_id r \<longrightarrow>
      (\<exists>i \<in> set (db_invitations (site_db x)). iv_used i \<noteq> None \<and> iv_run i = rn_id r \<and> iv_session i = Some (ss_id s))"
  proof (intro ballI impI)
    fix s assume "s \<in> set (db_sessions (site_db x))" "ss_run s = rn_id r"
    then have "s \<in> set ss" by (simp add: ss_def)
    from has [OF this] show "\<exists>i \<in> set (db_invitations (site_db x)). iv_used i \<noteq> None \<and> iv_run i = rn_id r
        \<and> iv_session i = Some (ss_id s)" unfolding invs_def by auto
  qed
  ultimately show ?thesis by blast
qed

section \<open>Runs\<close>

lemma refs_event_session:
  assumes "refs_ok db" "e \<in> set (db_events db)" "\<And>s. s \<in> set (db_sessions db) \<Longrightarrow> ss_run s \<noteq> i"
  shows "\<exists>a \<in> set (db_attempts db). \<exists>s \<in> set (db_sessions db). ev_attempt e = at_id a \<and> at_session a = ss_id s \<and> ss_run s \<noteq> i"
proof -
  have "ev_attempt e \<in> at_id ` set (db_attempts db)" using assms(1,2) by (simp add: refs_ok_def image_subset_iff)
  then obtain a where a: "a \<in> set (db_attempts db)" "ev_attempt e = at_id a" by blast
  have "at_session a \<in> ss_id ` set (db_sessions db)" using assms(1) a(1) by (simp add: refs_ok_def image_subset_iff)
  then obtain s where "s \<in> set (db_sessions db)" "at_session a = ss_id s" by blast
  with a assms(3) show ?thesis by blast
qed

text \<open>C18: In every reachable state the retention target of a run is exactly its closing time plus its
  retention days, whatever order of closing, reopening, suspending and changing the days led there,
  and a run that is not closed has neither; a run whose purge waits for the cleanup of the database is
  closed, and a purged run is not open.\<close>

theorem retention_target_exact:
  assumes "fresh_site x0" "site_reach sha x0 x" "r \<in> set (db_runs (site_db x))"
  shows "(if rn_status r = ''closed''
      then \<exists>t. rn_closed_at r = Some t \<and> rn_target_at r = Some (t + rn_retention_days r * day)
      else rn_closed_at r = None \<and> rn_target_at r = None)
    \<and> (rn_purge_pending r \<longrightarrow> rn_status r = ''closed'') \<and> (rn_purged_at r = None \<or> rn_status r \<noteq> ''open'')"
proof -
  have "run_life r" using reachable_db(2) [OF assms(1,2)] assms(3) by (simp add: runs_life_ok_def)
  then show ?thesis by (auto simp: run_life_def)
qed

text \<open>C16: Once the deletion of a purge has run, no request brings participant data of that run back: in
  every state reachable from there the run is not open, it has no sessions and no attempts, both its
  byte counters are zero, and every event and every command receipt that is stored belongs to a session
  of another run.\<close>

theorem purged_run_stays_empty:
  assumes "fresh_site x0" "site_reach sha x0 x" "purge_delete i (site_db x) = (Inr u, db)"
    "site_reach sha ((with_db x db)\<lparr>si_purging := i # si_purging x\<rparr>) y"
  shows "\<exists>r \<in> set (db_runs (site_db y)). rn_id r = i \<and> rn_data_bytes r = 0 \<and> rn_event_bytes r = 0
      \<and> rn_status r \<noteq> ''open''
    \<and> run_sessions i (site_db y) = {} \<and> run_attempts i (site_db y) = {}
    \<and> (\<forall>e \<in> set (db_events (site_db y)). \<exists>a \<in> set (db_attempts (site_db y)). \<exists>s \<in> set (db_sessions (site_db y)).
         ev_attempt e = at_id a \<and> at_session a = ss_id s \<and> ss_run s \<noteq> i)
    \<and> (\<forall>c \<in> set (db_commands (site_db y)). \<exists>s \<in> set (db_sessions (site_db y)). cm_session c = ss_id s \<and> ss_run s \<noteq> i)"
proof -
  have reach: "site_reach sha x0 ((with_db x db)\<lparr>si_purging := i # si_purging x\<rparr>)"
    by (rule site_next [OF assms(2) site_purge_delete [OF assms(3)]])
  have ok: "site_ok sha ((with_db x db)\<lparr>si_purging := i # si_purging x\<rparr>)" by (rule reachable_site_ok [OF assms(1) reach])
  from site_reach_ok [OF assms(4) ok] have y: "site_ok sha y" and kept: "runs_kept db (site_db y)" by simp_all
  from purge_delete_begun [OF assms(3)] obtain q where q: "q \<in> set (db_runs db)" "rn_id q = i" "purge_begun q" by blast
  with kept obtain r where r: "r \<in> set (db_runs (site_db y))" "fixed_run q r" unfolding runs_kept_def by blast
  with q have i: "rn_id r = i" "purge_begun r" by (simp_all add: fixed_run_def)
  have life: "runs_life_ok (site_db y)" and acc: "accounts_ok (site_db y)" and refs: "refs_ok (site_db y)"
    using y by (simp_all add: site_ok_def site_db_ok_def db_ok_def)
  have none: "ss_run s \<noteq> i" if "s \<in> set (db_sessions (site_db y))" for s
    using life r(1) i that by (auto simp: runs_life_ok_def)
  have "rn_data_bytes r = tbl_sum (\<lambda>s. ss_run s = rn_id r) (\<lambda>s. ss_storage_bytes s + ss_event_bytes s) (db_sessions (site_db y))"
    using acc r(1) unfolding accounts_ok_def run_account_ok_def by blast
  also have "\<dots> = 0" using none i(1) by (simp add: tbl_sum_none)
  finally have "rn_data_bytes r = 0" .
  moreover have "rn_event_bytes r = 0"
    using acc r(1) none i(1) by (auto simp: accounts_ok_def run_account_ok_def tbl_sum_none)
  moreover have "\<exists>s \<in> set (db_sessions (site_db y)). cm_session c = ss_id s \<and> ss_run s \<noteq> i"
    if "c \<in> set (db_commands (site_db y))" for c
  proof -
    have "cm_session c \<in> ss_id ` set (db_sessions (site_db y))" using refs that by (simp add: refs_ok_def image_subset_iff)
    then show ?thesis using none by blast
  qed
  moreover have "\<exists>a \<in> set (db_attempts (site_db y)). \<exists>s \<in> set (db_sessions (site_db y)).
      ev_attempt e = at_id a \<and> at_session a = ss_id s \<and> ss_run s \<noteq> i" if "e \<in> set (db_events (site_db y))" for e
    by (rule refs_event_session [OF refs that none])
  moreover have "rn_status r \<noteq> ''open''"
    using life r(1) i(2) by (auto simp: runs_life_ok_def run_life_def purge_begun_def)
  moreover have "run_sessions i (site_db y) = {}" using none by (auto simp: run_sessions_def)
  ultimately show ?thesis using r(1) i(1) by (intro bexI [of _ r]) (simp_all add: run_attempts_def)
qed

text \<open>C19: A run never changes its identity: whatever happens after its creation, it keeps its ID, slug,
  version, mode, cap, recruitment, blinding codes and creation time, and the frozen version it uses is
  neither changed nor removed.\<close>

theorem runs_frozen:
  assumes "fresh_site x0" "site_reach sha x0 x" "site_reach sha x y" "r \<in> set (db_runs (site_db x))"
  shows "(\<exists>q \<in> set (db_runs (site_db y)). rn_id q = rn_id r \<and> rn_slug q = rn_slug r \<and> rn_version q = rn_version r
      \<and> rn_mode q = rn_mode r \<and> rn_cap q = rn_cap r \<and> rn_recruitment q = rn_recruitment r
      \<and> rn_arms q = rn_arms r \<and> rn_tasks q = rn_tasks r \<and> rn_created q = rn_created r)
    \<and> tbl_lookup vr_id (rn_version r) (db_versions (site_db y)) = tbl_lookup vr_id (rn_version r) (db_versions (site_db x))
    \<and> tbl_lookup vr_id (rn_version r) (db_versions (site_db x)) \<noteq> None"
proof -
  have "runs_kept (site_db x) (site_db y)"
    using site_reach_ok [OF assms(3) reachable_site_ok [OF assms(1,2)]] by simp
  then obtain q where "q \<in> set (db_runs (site_db y))" "fixed_run r q"
    and v: "tbl_lookup vr_id (rn_version r) (db_versions (site_db y)) = tbl_lookup vr_id (rn_version r) (db_versions (site_db x))"
    using assms(4) unfolding runs_kept_def by blast
  then have "\<exists>q \<in> set (db_runs (site_db y)). rn_id q = rn_id r \<and> rn_slug q = rn_slug r \<and> rn_version q = rn_version r
      \<and> rn_mode q = rn_mode r \<and> rn_cap q = rn_cap r \<and> rn_recruitment q = rn_recruitment r
      \<and> rn_arms q = rn_arms r \<and> rn_tasks q = rn_tasks r \<and> rn_created q = rn_created r"
    by (intro bexI [of _ q]) (simp_all add: fixed_run_def)
  moreover have "rn_version r \<in> vr_id ` set (db_versions (site_db x))"
    using reachable_db(3) [OF assms(1,2)] assms(4) by (auto simp: versions_ok_def)
  then have "tbl_lookup vr_id (rn_version r) (db_versions (site_db x)) \<noteq> None" by (simp add: tbl_lookup_None)
  ultimately show ?thesis using v by blast
qed

text \<open>In every reachable state a login never dereferences a missing entry of the failure map, so
  that no sequence of failed logins stops the service.\<close>

theorem login_safe:
  assumes "fresh_site x0" "site_reach sha x0 x" "seen_before (en_clock env 13) (si_failures x)"
    "login env q (site_login x) = (r, st)"
  shows "(\<forall>t. r \<noteq> Inl (Fault t)) \<and> length (ll_failures (ls_failures st)) \<le> max_login_failures"
  using login_safe_step [of "site_login x" env q r st] reachable_site_ok [OF assms(1,2)] assms(3,4)
  by (simp add: site_ok_def site_login_def login_ok_def)

end
