(* ===== verification/Reports.thy ===== *)
theory Reports
  imports Participant Stamps
begin

text \<open>
  The reports of \<open>reports.go\<close>: the rows of assigned tasks, the summaries, the CSV and JSON exports and
  the owner's export of events. A rate or a median is the exact rational number; the code stores the
  nearest \<open>float64\<close>.
\<close>

section \<open>Rows of assigned tasks\<close>

record assigned_row =
  ar_run :: string
  ar_version :: string
  ar_hash :: string
  ar_mode :: string
  ar_difficulty :: string
  ar_session :: string
  ar_code :: string
  ar_task :: string
  ar_index :: nat
  ar_completed :: bool
  ar_experience :: string
  ar_familiarity :: string
  ar_shown :: bool
  ar_outcome :: string
  ar_correct :: "bool option"
  ar_navigation :: "int option"
  ar_elapsed :: "nat option"
  ar_observed :: int
  ar_quality :: string
  ar_epochs :: nat
  ar_policy :: policy
  ar_direct :: bool
  ar_backtracks :: nat

record health =
  he_enrolled :: nat
  he_completed :: nat
  he_incomplete :: nat
  he_last_event :: "time option"
  he_cap :: nat
  he_event_bytes :: nat
  he_data_bytes :: nat
  he_limit :: nat
  he_database_bytes :: nat
  he_active :: nat
  he_target :: "time option"
  he_overdue :: bool

text \<open>A loop that stops at the first error.\<close>

fun collect :: "'a result list \<Rightarrow> 'a list result" where
  "collect [] = Inr []"
| "collect (r # rs) = (case r of Inl e \<Rightarrow> Inl e
    | Inr x \<Rightarrow> (case collect rs of Inl e \<Rightarrow> Inl e | Inr xs \<Rightarrow> Inr (x # xs)))"

text \<open>The queries: the sessions of a run and their attempts, in the order of the clauses.\<close>

definition sessions_in_order :: "string \<Rightarrow> database \<Rightarrow> session_row list" where
  "sessions_in_order run db = oldest_first ss_created ss_id (filter (\<lambda>s. ss_run s = run) (db_sessions db))"

definition attempts_of :: "database \<Rightarrow> session_row \<Rightarrow> attempt_row list" where
  "attempts_of db s = sort_key at_index (filter (\<lambda>a. at_session a = ss_id s) (db_attempts db))"

text \<open>\<open>loadRunAttempts\<close>: a \<open>reportAttempt\<close> is the row with its decoded policy.\<close>

definition decode_attempt :: "attempt_row \<Rightarrow> (attempt_row \<times> policy) result" where
  "decode_attempt a = (case decode_policy (at_policy a) of Inl e \<Rightarrow> Inl e | Inr p \<Rightarrow> Inr (a, p))"

definition load_run_attempts :: "string \<Rightarrow> database \<Rightarrow> (attempt_row \<times> policy) list result" where
  "load_run_attempts run db = collect (map decode_attempt (concat (map (attempts_of db) (sessions_in_order run db))))"

text \<open>\<open>metricsForAttempt\<close>: the frozen columns of a finished attempt, or what the log shows so far.\<close>

definition frozen_metrics :: "attempt_row \<Rightarrow> attempt_metrics" where
  "frozen_metrics a = \<lparr>m_navigation = at_navigation a, m_observed = at_observed a, m_quality = at_quality a,
     m_epochs = at_epochs a, m_direct = at_direct a, m_backtracks = at_backtracks a\<rparr>"

definition metrics_for_attempt ::
    "database \<Rightarrow> attempt_row \<times> policy \<Rightarrow> frozen_snapshot \<Rightarrow> string \<Rightarrow> (string \<times> string) list \<Rightarrow> time
      \<Rightarrow> (attempt_metrics \<times> nat) result" where
  "metrics_for_attempt db ap f variant nodes observed_at =
     (let (a, p) = ap in
      if p \<noteq> f_policy f then Inl policy_mismatch
      else case resolve_policy p of Inl e \<Rightarrow> Inl e
      | Inr engine \<Rightarrow>
        if at_finished a \<noteq> None then
          (case at_server_elapsed a of
             None \<Rightarrow> Inl (Problem 409 ''final attempt has no frozen timing metrics'')
           | Some elapsed \<Rightarrow> Inr (frozen_metrics a, elapsed))
        else case pe_metrics engine (load_events db (at_id a)) (index_nodes (f_tree f variant) nodes) [] [] False of
            Inl e \<Rightarrow> Inl e
          | Inr m \<Rightarrow> Inr (m\<lparr>m_direct := False\<rparr>, server_elapsed (at_started a) observed_at))"

text \<open>A Go map index: a missing key reads as the empty text.\<close>

definition text_at :: "(string \<times> string) list \<Rightarrow> string \<Rightarrow> string" where
  "text_at m k = (case map_of m k of None \<Rightarrow> [] | Some v \<Rightarrow> v)"

definition difficulty_of :: "frozen_snapshot \<Rightarrow> string \<Rightarrow> string" where
  "difficulty_of f i = text_at (rev (map (\<lambda>t. (t_id t, t_difficulty t)) (cfg_tasks (f_config f)))) i"

text \<open>The row of a task that was not reached, and what an attempt changes in it.\<close>

definition unreached_row :: "run_row \<Rightarrow> frozen_snapshot \<Rightarrow> session_row \<Rightarrow> nat \<Rightarrow> string \<Rightarrow> assigned_row" where
  "unreached_row run f s i t = \<lparr>ar_run = rn_id run, ar_version = rn_version run, ar_hash = f_hash f, ar_mode = rn_mode run,
     ar_difficulty = difficulty_of f t, ar_session = ss_id s, ar_code = text_at (rn_arms run) (ss_variant s),
     ar_task = text_at (rn_tasks run) t, ar_index = i, ar_completed = (ss_completed s \<noteq> None),
     ar_experience = ss_experience s, ar_familiarity = ss_familiarity s, ar_shown = False, ar_outcome = ''unreached'',
     ar_correct = None, ar_navigation = None, ar_elapsed = None, ar_observed = 0, ar_quality = ''not_started'',
     ar_epochs = 0, ar_policy = f_policy f, ar_direct = False, ar_backtracks = 0\<rparr>"

definition reached_row :: "attempt_row \<Rightarrow> attempt_metrics \<Rightarrow> nat \<Rightarrow> assigned_row \<Rightarrow> assigned_row" where
  "reached_row a m elapsed r =
     (let r1 = r\<lparr>ar_shown := True, ar_outcome := ''unfinished'', ar_elapsed := Some elapsed,
            ar_navigation := m_navigation m, ar_observed := m_observed m, ar_quality := m_quality m,
            ar_epochs := m_epochs m, ar_direct := m_direct m, ar_backtracks := m_backtracks m\<rparr>
      in case at_outcome a of None \<Rightarrow> r1
         | Some out \<Rightarrow> r1\<lparr>ar_outcome := out,
             ar_correct := (if out = ''selected'' then Some (at_correct a = Some True) else None)\<rparr>)"

definition report_row ::
    "database \<Rightarrow> run_row \<Rightarrow> frozen_snapshot \<Rightarrow> (attempt_row \<times> policy) list \<Rightarrow> time \<Rightarrow> session_row \<Rightarrow> nat \<times> string
      \<Rightarrow> assigned_row result" where
  "report_row db run f attempts observed_at s it =
     (let (i, t) = it; r = unreached_row run f s i t
      in case find (\<lambda>(a, p). at_session a = ss_id s \<and> at_index a = i) (rev attempts) of
           None \<Rightarrow> Inr r
         | Some ap \<Rightarrow> (case metrics_for_attempt db ap f (ss_variant s) (ss_nodes s) observed_at of
               Inl e \<Rightarrow> Inl e
             | Inr (m, elapsed) \<Rightarrow> Inr (reached_row (fst ap) m elapsed r)))"

text \<open>\<open>SELECT MAX(e.received_at)\<close> over the events of the run, as a comparison of texts.\<close>

definition last_event :: "string \<Rightarrow> database \<Rightarrow> time option" where
  "last_event run db =
     (let sessions = ss_id ` {s \<in> set (db_sessions db). ss_run s = run};
          attempts = at_id ` {a \<in> set (db_attempts db). at_session a \<in> sessions};
          received = map ev_received (filter (\<lambda>e. ev_attempt e \<in> attempts) (db_events db))
      in if received = [] then None
         else Some (foldl (\<lambda>m t. if text_less m t then t else m) (hd received) (tl received)))"

text \<open>
  \<open>reportRows\<close>. The size of the database file and the number of active requests are arguments; the
  clock readings are those of the overdue check and of the observation.
\<close>

definition report_rows ::
    "environment \<Rightarrow> nat \<Rightarrow> nat \<Rightarrow> run_row \<Rightarrow> database \<Rightarrow> (assigned_row list \<times> health) result" where
  "report_rows env database_bytes active run db =
     (let overdue = (case rn_target_at run of None \<Rightarrow> False
            | Some t \<Rightarrow> rn_status run = ''closed'' \<and> text_le t (en_clock env 0));
          sessions = sessions_in_order (rn_id run) db
      in case load_run_attempts (rn_id run) db of Inl e \<Rightarrow> Inl e
      | Inr attempts \<Rightarrow>
        (case load_snapshot (en_sha env) db (rn_version run) of Inl e \<Rightarrow> Inl e
         | Inr f \<Rightarrow>
           (case collect (concat (map (\<lambda>s. map (report_row db run f attempts (en_clock env 1) s)
                 (enumerate 0 (ss_tasks s))) sessions)) of Inl e \<Rightarrow> Inl e
            | Inr rows \<Rightarrow> Inr (rows, \<lparr>he_enrolled = length sessions,
                he_completed = tbl_count (\<lambda>s. ss_completed s \<noteq> None) sessions,
                he_incomplete = tbl_count (\<lambda>s. ss_completed s = None) sessions,
                he_last_event = last_event (rn_id run) db, he_cap = rn_cap run, he_event_bytes = rn_event_bytes run,
                he_data_bytes = rn_data_bytes run, he_limit = max_run_event_data, he_database_bytes = database_bytes,
                he_active = active, he_target = rn_target_at run, he_overdue = overdue\<rparr>))))"

end
