(* ===== verification/SiteResults.thy ===== *)
theory SiteResults
  imports SiteTheorems Reports
begin

text \<open>
  The frozen results are what the scoring policy says of the stored log: in every reachable state the
  columns of a finished attempt are those that the metrics of its stored events and the answer set
  of its task give. Each operation either leaves the results alone or writes one by this rule.
\<close>

section \<open>The invariant\<close>

definition verdict :: "frozen_snapshot \<Rightarrow> session_row \<Rightarrow> attempt_row \<Rightarrow> event list \<Rightarrow> string \<Rightarrow> string \<Rightarrow> bool \<Rightarrow> bool" where
  "verdict f s a log n out c \<longleftrightarrow>
     (\<exists>m. event_metrics_v1 log (session_index f s) n out True = Inr m
        \<and> frozen_metrics a = m\<lparr>m_direct := c \<and> m_direct m\<rparr>)
     \<and> c = (out = ''selected'' \<and> correct_v1 (find_task f (at_task a)) (ss_variant s) (content_of (session_index f s) n))
     \<and> (out = ''selected'' \<longrightarrow> last_select log [] = n)"

definition result_ok :: "(string \<Rightarrow> string) \<Rightarrow> database \<Rightarrow> attempt_row \<Rightarrow> bool" where
  "result_ok sha db a \<longleftrightarrow> at_policy a = Some policy_v1 \<and> (case at_finished a of None \<Rightarrow> at_outcome a = None
     | Some t \<Rightarrow> (\<exists>out n c. at_outcome a = Some out \<and> out \<in> {''selected'', ''gave_up'', ''skipped''}
         \<and> at_selected a = Some n \<and> at_correct a = Some c
         \<and> at_server_elapsed a = Some (server_elapsed (at_started a) t)
         \<and> (\<forall>s f. s \<in> set (db_sessions db) \<longrightarrow> ss_id s = at_session a \<longrightarrow> session_study sha db s f \<longrightarrow>
              verdict f s a (load_events db (at_id a)) n out c)))"

definition results_ok :: "(string \<Rightarrow> string) \<Rightarrow> database \<Rightarrow> bool" where
  "results_ok sha db \<longleftrightarrow> (\<forall>a \<in> set (db_attempts db). result_ok sha db a)"

text \<open>The columns that a result consists of.\<close>

definition same_result :: "attempt_row \<Rightarrow> attempt_row \<Rightarrow> bool" where
  "same_result a b \<longleftrightarrow> at_id b = at_id a \<and> at_session b = at_session a \<and> at_task b = at_task a
     \<and> at_policy b = at_policy a \<and> at_started b = at_started a \<and> at_finished b = at_finished a \<and> at_outcome b = at_outcome a
     \<and> at_selected b = at_selected a \<and> at_correct b = at_correct a \<and> at_server_elapsed b = at_server_elapsed a
     \<and> frozen_metrics b = frozen_metrics a"

lemma same_result_refl [simp]: "same_result a a"
  by (simp add: same_result_def)

lemma verdict_same:
  "same_session s s' \<Longrightarrow> same_result a a' \<Longrightarrow> verdict f s' a' log n out c = verdict f s a log n out c"
  by (simp add: verdict_def same_session_def same_result_def session_index_def)

text \<open>A study of a session stays its study, because runs and the versions they use are kept.\<close>

lemma study_kept:
  assumes "runs_kept db db'" "keys_ok db'" "ss_run s \<in> rn_id ` set (db_runs db)" "session_study sha db' s f"
  shows "session_study sha db s f"
proof -
  obtain r where r: "r \<in> set (db_runs db)" "rn_id r = ss_run s" using assms(3) by auto
  with assms(1) obtain q where q: "q \<in> set (db_runs db')" "fixed_run r q"
    and v: "tbl_lookup vr_id (rn_version r) (db_versions db') = tbl_lookup vr_id (rn_version r) (db_versions db)"
    unfolding runs_kept_def by blast
  obtain p where p: "p \<in> set (db_runs db')" "rn_id p = ss_run s" "load_snapshot sha db' (rn_version p) = Inr f"
    using assms(4) by (auto simp: session_study_def)
  have "p = q" using keys_ok_eq(1) [OF assms(2) p(1) q(1)] p(2) q(2) r(2) by (simp add: fixed_run_def)
  then have "load_snapshot sha db (rn_version r) = Inr f"
    using p(3) q(2) load_snapshot_lookup [OF v, of sha] by (simp add: fixed_run_def)
  with r show ?thesis by (auto simp: session_study_def)
qed

lemma results_kept:
  assumes ok: "results_ok sha db" and refs: "refs_ok db" and kept: "runs_kept db db'" and keys: "keys_ok db'"
    and attempts: "\<And>b. b \<in> set (db_attempts db') \<Longrightarrow> result_ok sha db' b \<or> (\<exists>a \<in> set (db_attempts db). same_result a b
        \<and> (at_finished a \<noteq> None \<longrightarrow> load_events db' (at_id a) = load_events db (at_id a)))"
    and sessions: "\<And>q b. q \<in> set (db_sessions db') \<Longrightarrow> b \<in> set (db_attempts db') \<Longrightarrow> at_session b = ss_id q \<Longrightarrow>
        \<exists>s \<in> set (db_sessions db). same_session s q"
  shows "results_ok sha db'"
  unfolding results_ok_def
proof
  fix b assume b: "b \<in> set (db_attempts db')"
  from attempts [OF b] show "result_ok sha db' b"
  proof (elim disjE bexE conjE)
    fix a assume a: "a \<in> set (db_attempts db)" "same_result a b"
      and ev: "at_finished a \<noteq> None \<longrightarrow> load_events db' (at_id a) = load_events db (at_id a)"
    have r: "result_ok sha db a" using ok a(1) by (simp add: results_ok_def)
    show ?thesis
    proof (cases "at_finished a")
      case None
      with r a(2) show ?thesis by (simp add: result_ok_def same_result_def)
    next
      case (Some t)
      then obtain out n c where 1: "at_outcome a = Some out" "out \<in> {''selected'', ''gave_up'', ''skipped''}"
        "at_selected a = Some n" "at_correct a = Some c" "at_server_elapsed a = Some (server_elapsed (at_started a) t)" "at_policy a = Some policy_v1"
        and v: "\<And>s f. s \<in> set (db_sessions db) \<Longrightarrow> ss_id s = at_session a \<Longrightarrow> session_study sha db s f \<Longrightarrow>
              verdict f s a (load_events db (at_id a)) n out c"
        using r by (auto simp: result_ok_def)
      have "verdict f q b (load_events db' (at_id b)) n out c"
        if q: "q \<in> set (db_sessions db')" "ss_id q = at_session b" "session_study sha db' q f" for q f
      proof -
        obtain s where s: "s \<in> set (db_sessions db)" "same_session s q"
          using sessions [OF q(1) b] q(2) by auto
        have "ss_run q \<in> rn_id ` set (db_runs db)" using refs s by (auto simp: refs_ok_def same_session_def)
        from study_kept [OF kept keys this q(3)] have "session_study sha db s f"
          using s(2) by (simp add: session_study_def same_session_def)
        then have "verdict f s a (load_events db (at_id a)) n out c"
          by (intro v s(1)) (use a(2) s(2) q(2) in \<open>simp_all add: same_result_def same_session_def\<close>)
        then show ?thesis using verdict_same [OF s(2) a(2)] ev Some a(2) by (simp add: same_result_def)
      qed
      with 1 Some a(2) show ?thesis by (simp add: result_ok_def same_result_def)
    qed
  qed
qed

text \<open>An operation that does not touch sessions, attempts and events.\<close>

lemma results_untouched:
  assumes "results_ok sha db" "refs_ok db" "runs_kept db db'" "keys_ok db'"
    "db_attempts db' = db_attempts db" "db_sessions db' = db_sessions db" "db_events db' = db_events db"
  shows "results_ok sha db'"
proof (rule results_kept [OF assms(1-4)])
  fix b assume "b \<in> set (db_attempts db')"
  then show "result_ok sha db' b \<or> (\<exists>a \<in> set (db_attempts db). same_result a b
        \<and> (at_finished a \<noteq> None \<longrightarrow> load_events db' (at_id a) = load_events db (at_id a)))"
    using load_events_frame [OF assms(7)] by (intro disjI2 bexI [of _ b]) (simp_all add: assms(5))
next
  fix q assume "q \<in> set (db_sessions db')"
  then show "\<exists>s \<in> set (db_sessions db). same_session s q"
    by (intro bexI [of _ q]) (simp_all add: assms(6) same_session_def)
qed

section \<open>Participant requests\<close>

lemma runs_kept_same: "db_runs db' = db_runs db \<Longrightarrow> db_versions db' = db_versions db \<Longrightarrow> runs_kept db db'"
  by (auto simp: runs_kept_def intro: fixed_run_refl)

lemma results_commands:
  assumes "results_ok sha db" "db_ok sha db" "commands_only db db'"
  shows "results_ok sha db'"
proof -
  obtain cs where cs: "db' = db\<lparr>db_commands := cs\<rparr>" using assms(3) by (auto simp: commands_only_def)
  have "keys_ok db'" using commands_only_ok [OF assms(2,3)] by (simp add: db_ok_def)
  then show ?thesis
    using assms(1,2) by (intro results_untouched [of sha db db']) (simp_all add: cs db_ok_def runs_kept_same)
qed

lemma results_start:
  assumes "results_ok sha db" "db_ok sha db" "db_ok sha db'" "insert_attempt (new_attempt i s q t policy_v1) db = Inr db'"
  shows "results_ok sha db'"
proof (rule results_kept [OF assms(1)])
  have db': "db' = db\<lparr>db_attempts := db_attempts db @ [new_attempt i s q t policy_v1]\<rparr>" using assms(4) by (simp add: insert_attempt_Inr)
  show "refs_ok db" "keys_ok db'" using assms(2,3) by (simp_all add: db_ok_def)
  show "runs_kept db db'" by (simp add: db' runs_kept_same)
  fix b assume "b \<in> set (db_attempts db')"
  then consider "b \<in> set (db_attempts db)" | "b = new_attempt i s q t policy_v1" by (auto simp: db')
  then show "result_ok sha db' b \<or> (\<exists>a \<in> set (db_attempts db). same_result a b
        \<and> (at_finished a \<noteq> None \<longrightarrow> load_events db' (at_id a) = load_events db (at_id a)))"
  proof cases
    case 1
    then show ?thesis by (intro disjI2 bexI [of _ b]) (simp_all add: db' load_events_def)
  next
    case 2
    then show ?thesis by (simp add: result_ok_def new_attempt_def)
  qed
next
  fix q assume "q \<in> set (db_sessions db')"
  moreover have "db_sessions db' = db_sessions db" using assms(4) by (auto simp: insert_attempt_Inr)
  ultimately show "\<exists>s \<in> set (db_sessions db). same_session s q"
    by (intro bexI [of _ q]) (simp_all add: same_session_def)
qed

lemma results_enrolled:
  assumes "results_ok sha db" "db_ok sha db" "db_ok sha (enrolled_db run s rest invs db)"
    "runs_kept db (enrolled_db run s rest invs db)" "ss_id s \<notin> ss_id ` set (db_sessions db)"
  shows "results_ok sha (enrolled_db run s rest invs db)"
proof (rule results_kept [OF assms(1) _ assms(4)])
  show "refs_ok db" "keys_ok (enrolled_db run s rest invs db)" using assms(2,3) by (simp_all add: db_ok_def)
  fix b assume "b \<in> set (db_attempts (enrolled_db run s rest invs db))"
  then show "result_ok sha (enrolled_db run s rest invs db) b \<or> (\<exists>a \<in> set (db_attempts db). same_result a b
        \<and> (at_finished a \<noteq> None \<longrightarrow> load_events (enrolled_db run s rest invs db) (at_id a) = load_events db (at_id a)))"
    by (intro disjI2 bexI [of _ b]) (simp_all add: enrolled_db_def load_events_def)
next
  fix q b assume q: "q \<in> set (db_sessions (enrolled_db run s rest invs db))"
    and b: "b \<in> set (db_attempts (enrolled_db run s rest invs db))" "at_session b = ss_id q"
  have "at_session b \<in> at_session ` set (db_attempts db)" using b(1) by (simp add: enrolled_db_def)
  then have "ss_id q \<in> ss_id ` set (db_sessions db)" using assms(2) b(2) by (auto simp: db_ok_def refs_ok_def)
  with assms(5) have "q \<noteq> s" by metis
  with q show "\<exists>s \<in> set (db_sessions db). same_session s q"
    by (intro bexI [of _ q]) (simp_all add: enrolled_db_def same_session_def)
qed

lemma quiet_runs_kept: "quiet_frame db db' \<Longrightarrow> runs_kept db db'"
  by (intro participant_runs_kept quiet_frame_participant)

text \<open>Appending to a log: a finished attempt gets no new events.\<close>

lemma results_append:
  assumes res: "results_ok sha db" and ok: "db_ok sha db"
    and app: "append_events clock s f a incoming terminal db = Inr (log, a1, s1, db1)"
    and s: "s \<in> set (db_sessions db)" and a: "a \<in> set (db_attempts db)" "at_session a = ss_id s"
    and study: "session_study sha db s f"
  shows "results_ok sha db1"
proof -
  note parts = ok [unfolded db_ok_def]
  obtain run added db0 where "tbl_lookup rn_id (ss_run s) (db_runs db) = Some run"
    and ext: "extend_log (session_index f s) (at_finished a \<noteq> None \<or> at_index a \<noteq> ss_index s) (at_event_bytes a)
        (ss_storage_bytes s) (ss_event_bytes s) (rn_data_bytes run) (load_events db (at_id a)) incoming terminal
        = Inr (log, added)"
    and ins: "insert_events (at_id a) clock (drop (length (load_events db (at_id a))) log) db = Inr db0"
    and "a1 = count_attempt (length log + 1) added a" and "s1 = count_session added s"
    and db1: "db1 = db0\<lparr>db_attempts := tbl_update (\<lambda>r. at_id r = at_id a) (count_attempt (length log + 1) added) (db_attempts db0),
          db_sessions := tbl_update (\<lambda>r. ss_id r = ss_id s) (count_session added) (db_sessions db0),
          db_runs := tbl_update (\<lambda>r. rn_id r = ss_run s) (count_run added) (db_runs db0)\<rparr>"
    using append_events_Inr [OF app] by blast
  have "attempt_log_ok sha db a" using parts a by (simp add: logs_ok_def)
  then have saved: "log_ok (session_index f s) (load_events db (at_id a))"
    using s a study by (auto simp: attempt_log_ok_def)
  obtain new where new: "log = load_events db (at_id a) @ new" "at_finished a \<noteq> None \<longrightarrow> new = []"
    using extend_log_keeps [OF saved ext] by blast
  have "tbl_keys (\<lambda>e. (ev_attempt e, ev_seq e)) (db_events db)" using parts by (simp add: keys_ok_def)
  from insert_events_Inr [OF ins this] obtain rows where rows: "db0 = db\<lparr>db_events := db_events db @ rows\<rparr>"
    "map ev_event rows = new" "\<forall>r \<in> set rows. event_row_of (at_id a) r" using new(1) by auto
  have fr: "db_events db1 = db_events db @ rows"
    "db_attempts db1 = tbl_update (\<lambda>r. at_id r = at_id a) (count_attempt (length log + 1) added) (db_attempts db)"
    "db_sessions db1 = tbl_update (\<lambda>r. ss_id r = ss_id s) (count_session added) (db_sessions db)"
    by (simp_all add: db1 rows(1))
  have ok1: "db_ok sha db1" using append_ok [OF ok app s a study] by simp
  show ?thesis
  proof (rule results_kept [OF res])
    show "refs_ok db" "keys_ok db1" using parts ok1 by (simp_all add: db_ok_def)
    show "runs_kept db db1" by (rule quiet_runs_kept [OF quiet_append [OF app]])
    fix b assume "b \<in> set (db_attempts db1)"
    then obtain c where c: "c \<in> set (db_attempts db)"
      "b = (if at_id c = at_id a then count_attempt (length log + 1) added c else c)"
      by (auto simp: fr(2) tbl_update_set)
    have same: "same_result c b"
      by (simp add: c(2) same_result_def count_defs frozen_metrics_def)
    have "load_events db1 (at_id c) = load_events db (at_id c)" if fin: "at_finished c \<noteq> None"
    proof (cases "at_id c = at_id a")
      case True
      then have "c = a" using keys_ok_eq(3) c(1) a(1) parts by blast
      with new(2) rows(2) fin have "rows = []" by simp
      with fr(1) show ?thesis by (simp add: load_events_def)
    next
      case False
      then have "filter (\<lambda>e. ev_attempt e = at_id c) rows = []"
        using rows(3) by (auto simp: filter_empty_conv event_row_of_def)
      with fr(1) show ?thesis by (simp add: load_events_def)
    qed
    with same c(1) show "result_ok sha db1 b \<or> (\<exists>a \<in> set (db_attempts db). same_result a b
        \<and> (at_finished a \<noteq> None \<longrightarrow> load_events db1 (at_id a) = load_events db (at_id a)))" by blast
  next
    fix q assume "q \<in> set (db_sessions db1)"
    then obtain p where p: "p \<in> set (db_sessions db)" "q = (if ss_id p = ss_id s then count_session added p else p)"
      by (auto simp: fr(3) tbl_update_set)
    then show "\<exists>s \<in> set (db_sessions db). same_session s q"
      by (intro bexI [of _ p]) (simp_all add: same_session_def count_defs)
  qed
qed

text \<open>The update of \<open>finish\<close> writes a result by the rule.\<close>

lemma results_finish:
  assumes res: "results_ok sha db" and ok: "db_ok sha db" and ok': "db_ok sha db'"
    and a: "a \<in> set (db_attempts db)" and s: "s \<in> set (db_sessions db)" "at_session a = ss_id s"
    and study: "session_study sha db s f"
    and judged: "judge engine f s a (session_index f s) req (load_events db (at_id a)) = Inr correct"
    and engine: "resolve_policy p = Inr engine" and out: "fr_outcome req \<in> {''selected'', ''gave_up'', ''skipped''}"
    and m: "event_metrics_v1 (load_events db (at_id a)) (session_index f s) (fr_node req) (fr_outcome req) True = Inr m"
    and db': "db' = finish_update (at_id a) (finished_row req correct m now (server_elapsed (at_started a) now) pol)
        (ss_id s) n completed db" and pol: "pol = Some policy_v1"
  shows "results_ok sha db'"
proof (rule results_kept [OF res])
  define g where "g = finished_row req correct m now (server_elapsed (at_started a) now) pol"
  define h :: "session_row \<Rightarrow> session_row" where "h = (\<lambda>r. r\<lparr>ss_index := n, ss_completed := completed\<rparr>)"
  have fr: "db_events db' = db_events db" "db_runs db' = db_runs db" "db_versions db' = db_versions db"
    "db_attempts db' = tbl_update (\<lambda>r. at_id r = at_id a) g (db_attempts db)"
    "db_sessions db' = tbl_update (\<lambda>r. ss_id r = ss_id s) h (db_sessions db)"
    by (simp_all add: db' finish_update_def g_def h_def)
  have k: "keys_ok db" using ok by (simp add: db_ok_def)
  show "refs_ok db" "keys_ok db'" using ok ok' by (simp_all add: db_ok_def)
  show "runs_kept db db'" by (rule runs_kept_same [OF fr(2,3)])
  have sess: "\<exists>s \<in> set (db_sessions db). same_session s q" if q: "q \<in> set (db_sessions db')" for q
  proof -
    obtain p where "p \<in> set (db_sessions db)" "q = (if ss_id p = ss_id s then h p else p)"
      using q by (auto simp: fr(5) tbl_update_set)
    then show ?thesis by (intro bexI [of _ p]) (simp_all add: same_session_def h_def)
  qed
  then show "\<exists>s \<in> set (db_sessions db). same_session s q" if "q \<in> set (db_sessions db')" for q using that by blast
  have correct: "correct = (fr_outcome req = ''selected'' \<and> correct_v1 (find_task f (at_task a)) (ss_variant s)
        (content_of (session_index f s) (fr_node req)))"
    "fr_outcome req = ''selected'' \<longrightarrow> last_select (load_events db (at_id a)) [] = fr_node req"
    using judged engine by (auto simp: judge_def resolve_policy_Inr split: if_splits)
  fix b assume "b \<in> set (db_attempts db')"
  then obtain c where c: "c \<in> set (db_attempts db)" "b = (if at_id c = at_id a then g c else c)"
    by (auto simp: fr(4) tbl_update_set)
  show "result_ok sha db' b \<or> (\<exists>a \<in> set (db_attempts db). same_result a b
        \<and> (at_finished a \<noteq> None \<longrightarrow> load_events db' (at_id a) = load_events db (at_id a)))"
  proof (cases "at_id c = at_id a")
    case False
    with c show ?thesis using load_events_frame [OF fr(1)] by (intro disjI2 bexI [of _ c]) simp_all
  next
    case True
    then have "c = a" using keys_ok_eq(3) [OF k] c(1) a by blast
    with c(2) have b: "b = g a" by simp
    have "verdict f' q b (load_events db' (at_id b)) (fr_node req) (fr_outcome req) correct"
      if q: "q \<in> set (db_sessions db')" "ss_id q = at_session b" "session_study sha db' q f'" for q f'
    proof -
      obtain p where p: "p \<in> set (db_sessions db)" "same_session p q" using sess [OF q(1)] by blast
      have "at_session b = ss_id s" by (simp add: b g_def finished_row_def s(2))
      then have "ss_id p = ss_id s" using q(2) p(2) by (simp add: same_session_def)
      then have "p = s" using keys_ok_eq(2) [OF k p(1) s(1)] by simp
      then have pq: "ss_run q = ss_run s" "ss_variant q = ss_variant s" "ss_nodes q = ss_nodes s"
        using p(2) by (simp_all add: same_session_def)
      have "session_study sha db q f'" using q(3) session_study_frame [OF fr(2,3), of sha q f'] by simp
      then have "session_study sha db s f'" unfolding session_study_def pq(1) .
      with session_study_unique [OF k _ study] have f': "f' = f" by blast
      have idx: "session_index f q = session_index f s" by (simp add: session_index_def pq)
      have "load_events db' (at_id b) = load_events db (at_id a)"
        using load_events_frame [OF fr(1)] by (simp add: b g_def finished_row_def)
      moreover have "frozen_metrics b = m\<lparr>m_direct := correct \<and> m_direct m\<rparr>"
        by (simp add: b g_def finished_row_def frozen_metrics_def)
      moreover have "at_task b = at_task a" by (simp add: b g_def finished_row_def)
      ultimately show ?thesis using m correct by (simp add: verdict_def f' idx pq(2))
    qed
    then have "result_ok sha db' b"
      using out pol by (simp add: result_ok_def b g_def finished_row_def)
    then show ?thesis ..
  qed
qed

section \<open>The handlers\<close>

lemma results_finish_attempt:
  assumes res: "results_ok sha db" and ok: "db_ok sha db" and s: "s \<in> set (db_sessions db)"
    and st: "session_study sha db s f" and fin: "finish_attempt env req s f db = Inr (view, db3)"
    and out: "fr_outcome req \<in> {''selected'', ''gave_up'', ''skipped''}"
  shows "results_ok sha db3"
proof -
  obtain a engine log a1 s1 db1 correct m db2 where
    a: "load_attempt db (ss_id s) (fr_attempt req) = Inr a" "at_finished a = None" "at_index a = ss_index s"
    and pol: "resolve_policy (f_policy f) = Inr engine"
    and app: "append_events (\<lambda>k. en_clock env (k + 8)) s f a (fr_batch req) (Some (fr_outcome req, fr_node req)) db
        = Inr (log, a1, s1, db1)"
    and judged: "judge engine f s a1 (session_index f s) req log = Inr correct"
    and m: "event_metrics_v1 log (session_index f s) (fr_node req) (fr_outcome req) True = Inr m"
    and db2: "db2 = finish_update (at_id a1) (finished_row req correct m (en_clock env 1)
          (server_elapsed (at_started a1) (en_clock env 1)) (at_policy a1)) (ss_id s1) (ss_index s1 + 1)
          (completion (s1\<lparr>ss_index := ss_index s1 + 1\<rparr>) (en_clock env 1)) db1"
    and save: "save_receipt (en_clock env 2) (en_clock env 3) (en_clock env 4) (en_clock env 5) (ss_id s1)
        (fr_command req) ''finish'' (en_sha env (finish_json req)) (ss_index s1 + 1) [] db2 = Inr db3"
    using finish_attempt_Inr [OF fin] by blast
  have a': "a \<in> set (db_attempts db)" "at_session a = ss_id s" using load_attempt_Inr [OF a(1)] by simp_all
  note app_ok = append_ok [OF ok app s a' st]
  have idx: "session_index f s1 = session_index f s" "ss_variant s1 = ss_variant s"
    using app_ok by (simp_all add: same_session_def session_index_def)
  have ok2: "db_ok sha db2"
    unfolding db2
  proof (rule finish_update_ok)
    show "db_ok sha db1" "a1 \<in> set (db_attempts db1)" "s1 \<in> set (db_sessions db1)"
      "at_session a1 = ss_id s1" "at_index a1 = ss_index s1" "at_finished a1 = None"
      using app_ok a a' by (simp_all add: same_attempt_def same_session_def)
  qed (simp_all add: finished_row_def same_attempt_def completion_def)
  have "results_ok sha db2"
  proof (rule results_finish [OF results_append [OF res ok app s a' st] _ ok2])
    show "db_ok sha db1" "a1 \<in> set (db_attempts db1)" "s1 \<in> set (db_sessions db1)" "at_session a1 = ss_id s1"
      "session_study sha db1 s1 f" using app_ok a' by (simp_all add: same_attempt_def same_session_def)
    have events: "load_events db1 (at_id a1) = log" using app_ok by (simp add: same_attempt_def)
    show "judge engine f s1 a1 (session_index f s1) req (load_events db1 (at_id a1)) = Inr correct"
      using judged unfolding judge_def events idx .
    show "event_metrics_v1 (load_events db1 (at_id a1)) (session_index f s1) (fr_node req) (fr_outcome req) True = Inr m"
      using m by (simp add: events idx)
    show "at_policy a1 = Some policy_v1" using app_ok load_attempt_Inr [OF a(1)] by simp
  qed (use pol out db2 in simp_all)
  then show ?thesis using save_receipt_commands [OF save ok2] results_commands ok2 by blast
qed

lemma results_participant:
  assumes step: "participant_step sha sv sv'" and ok: "server_ok sha sv" and res: "results_ok sha (sv_db sv)"
  shows "results_ok sha (sv_db sv')"
proof -
  have db: "db_ok sha (sv_db sv)" using ok by (simp add: server_ok_def)
  have db': "db_ok sha (sv_db sv')" using participant_step_ok [OF step ok] by (simp add: server_ok_def)
  have kept: "runs_kept (sv_db sv) (sv_db sv')" by (rule participant_runs_kept [OF participant_step_frame [OF step db]])
  from step show ?thesis
  proof (cases rule: participant_step.cases)
    case (step_join env req r)
    from step_join(2) show ?thesis
    proof (cases rule: join_cases)
      case (joined w tok run f engine s db1 view)
      from joined(7) show ?thesis
      proof (elim disjE conjE)
        assume enr: "enrol env engine f run (en_identity env (rn_id run) tok) req (sv_db sv) = Inr (s, db1)"
        from enrol_Inr [OF enr] obtain rest invs where
          e: "ss_id s \<notin> ss_id ` set (db_sessions (sv_db sv))" "db1 = enrolled_db run s rest invs (sv_db sv)" by blast
        with results_enrolled [OF res db] db' kept joined(10) show ?thesis by simp
      qed (use res joined(10) in simp)
    qed (use res in simp_all)
  next
    case (step_session env slug cookie r)
    with res session_unchanged show ?thesis by metis
  next
    case (step_start env req r)
    show ?thesis
    proof (cases "\<exists>e. r = Inl e")
      case True
      with step_start(2) res start_handler.rollback show ?thesis by metis
    next
      case False
      then have "command_frame env (sr_slug req) (sr_cookie req) (sr_command req) ''start'' (en_sha env (sr_task req))
          (start_task env req) sv = (r, sv')"
        using step_start(2) by (auto simp: start_frame split: option.splits if_splits)
      then show ?thesis
      proof (cases rule: command_frame_cases)
        case (executed tok s f run identity w db1 view db2)
        have c: "commands_only (sv_db sv) db1" by (rule receipt_commands [OF executed(4) db])
        have ok1: "db_ok sha db1" by (rule commands_only_ok [OF db c])
        have s: "s \<in> set (db_sessions db1)" using owned_Inr [OF executed(2)] c by (auto simp: commands_only_def)
        from start_task_Inr [OF executed(6)] obtain db3 where "ss_index s < length (ss_tasks s)"
          and ins: "insert_attempt (new_attempt (en_random env 0) s (ss_tasks s ! ss_index s) (en_clock env 1) (f_policy f)) db1 = Inr db3"
          and save: "save_receipt (en_clock env 2) (en_clock env 3) (en_clock env 4) (en_clock env 5) (ss_id s)
            (sr_command req) ''start'' (en_sha env (sr_task req)) (ss_index s) (en_random env 0) db3 = Inr db2" by blast
        have ok3: "db_ok sha db3" by (rule start_ok [OF ok1 ins s]) fact
        have "f_policy f = policy_v1"
          using owned_Inr [OF executed(2)] by (auto simp: load_snapshot_def decode_policy_Inr split: option.splits sum.splits if_splits)
        with results_start [OF results_commands [OF res db c] ok1 ok3] ins have "results_ok sha db3" by simp
        with save_receipt_commands [OF save ok3] results_commands ok3 executed(8) show ?thesis by auto
      qed (use res in simp_all)
    qed
  next
    case (step_events env req n)
    from step_events(2) show ?thesis
    proof (cases rule: events_cases)
      case (appended tok s f run identity w a log a1 s1 db1)
      have "results_ok sha db1"
        using owned_Inr [OF appended(2)] owned_study [OF appended(2)] load_attempt_Inr [OF appended(5)] step_events(1)
        by (intro results_append [OF res db appended(7)]) simp_all
      then show ?thesis using appended(9) by simp
    qed (use res in simp_all)
  next
    case (step_finish env req r)
    show ?thesis
    proof (cases "\<exists>e. r = Inl e")
      case True
      with step_finish(2) res finish_handler.rollback show ?thesis by metis
    next
      case False
      then have fr: "command_frame env (fr_slug req) (fr_cookie req) (fr_command req) ''finish'' (en_sha env (finish_json req))
          (finish_attempt env req) sv = (r, sv')" and out: "fr_outcome req \<in> {''selected'', ''gave_up'', ''skipped''}"
        using step_finish(2) by (auto simp: finish_frame split: option.splits if_splits)
      from fr show ?thesis
      proof (cases rule: command_frame_cases)
        case (executed tok s f run identity w db1 view db2)
        have c: "commands_only (sv_db sv) db1" by (rule receipt_commands [OF executed(4) db])
        have ok1: "db_ok sha db1" by (rule commands_only_ok [OF db c])
        have s: "s \<in> set (db_sessions db1)" using owned_Inr [OF executed(2)] c by (auto simp: commands_only_def)
        have study: "session_study sha db1 s f"
          using owned_study [OF executed(2)] step_finish(1) c by (auto simp: commands_only_def session_study_def load_snapshot_def)
        from results_finish_attempt [OF results_commands [OF res db c] ok1 s study executed(6) out] executed(8)
        show ?thesis by simp
      qed (use res in simp_all)
    qed
  qed
qed

section \<open>The whole site\<close>

definition untouched :: "database \<Rightarrow> database \<Rightarrow> bool" where
  "untouched db db' \<longleftrightarrow> db_attempts db' = db_attempts db \<and> db_sessions db' = db_sessions db \<and> db_events db' = db_events db"

lemma untouched_refl [simp]: "untouched db db"
  by (simp add: untouched_def)

lemma untouched_insert_version: "insert_version_with_policy sha rid now snap p db = Inr (i, db') \<Longrightarrow> untouched db db'"
  by (auto simp: insert_version_with_policy_def untouched_def Let_def split: sum.splits option.splits if_splits)

lemma untouched_operations:
  "import_bundle sha rid now b db = (r1, db') \<Longrightarrow> untouched db db'"
  "publish env i n ds db = (r2, db') \<Longrightarrow> untouched db db'"
  "remove_study i db = (r3, db') \<Longrightarrow> untouched db db'"
  "create_run env q db = (r4, db') \<Longrightarrow> untouched db db'"
  "update_run env i u db = (r3, db') \<Longrightarrow> untouched db db'"
  "create_invitation env origin i hours db = (r5, db') \<Longrightarrow> untouched db db'"
  "untouched db (purge_mark now i db)"
proof -
  show "import_bundle sha rid now b db = (r1, db') \<Longrightarrow> untouched db db'"
    using untouched_insert_version by (auto simp: import_bundle_def insert_version_def split: sum.splits prod.splits)
  show "publish env i n ds db = (r2, db') \<Longrightarrow> untouched db db'"
    using untouched_insert_version
    by (auto simp: publish_def insert_version_def split: option.splits sum.splits if_splits prod.splits)
  show "remove_study i db = (r3, db') \<Longrightarrow> untouched db db'"
    by (auto simp: remove_study_def untouched_def split: if_splits option.splits)
  show "create_run env q db = (r4, db') \<Longrightarrow> untouched db db'"
    by (auto simp: create_run_def insert_run_def untouched_def Let_def split: option.splits sum.splits if_splits)
  show "update_run env i u db = (r3, db') \<Longrightarrow> untouched db db'"
    by (auto simp: update_run_def untouched_def split: option.splits)
  show "create_invitation env origin i hours db = (r5, db') \<Longrightarrow> untouched db db'"
    by (auto simp: create_invitation_def insert_invitation_def untouched_def Let_def split: if_splits sum.splits option.splits)
  show "untouched db (purge_mark now i db)" by (simp add: purge_mark_def untouched_def)
qed

lemma results_purge_delete:
  assumes res: "results_ok sha db" and ok: "db_ok sha db" and ok': "db_ok sha db'"
    and d: "purge_delete i db = (r, db')"
  shows "results_ok sha db'"
proof (cases "db' = db")
  case False
  then have db': "db' = purge_rows i db" using d by (auto simp: purge_delete_def split: option.splits if_splits)
  show ?thesis
  proof (rule results_kept [OF res])
    show "refs_ok db" "keys_ok db'" using ok ok' by (simp_all add: db_ok_def)
    show "runs_kept db db'" by (rule purge_delete_kept [OF d])
    fix b assume "b \<in> set (db_attempts db')"
    then have b: "b \<in> set (db_attempts db)" "at_session b \<notin> run_sessions i db" by (auto simp: db' purge_rows_tables)
    have "at_id b \<notin> run_attempts i db" using attempt_of_run [OF _ b(1)] b(2) ok by (simp add: db_ok_def)
    from purge_rows_events(1) [OF this] b(1)
    show "result_ok sha db' b \<or> (\<exists>a \<in> set (db_attempts db). same_result a b
        \<and> (at_finished a \<noteq> None \<longrightarrow> load_events db' (at_id a) = load_events db (at_id a)))"
      by (intro disjI2 bexI [of _ b]) (simp_all add: db')
  next
    fix q assume "q \<in> set (db_sessions db')"
    then show "\<exists>s \<in> set (db_sessions db). same_session s q"
      by (intro bexI [of _ q]) (auto simp: db' purge_rows_tables same_session_def)
  qed
qed (use res in simp)

lemma results_site_step:
  assumes step: "site_step sha x y" and ok: "site_ok sha x" and res: "results_ok sha (site_db x)"
  shows "results_ok sha (site_db y)"
proof -
  have kept: "runs_kept (site_db x) (site_db y)" and ok': "site_ok sha y" using site_step_ok [OF step ok] by simp_all
  have db: "db_ok sha (site_db x)" "db_ok sha (site_db y)"
    using ok ok' by (simp_all add: site_ok_def site_db_ok_def)
  have calm: "results_ok sha (site_db y)" if "untouched (site_db x) (site_db y)"
    using that db by (intro results_untouched [OF res _ kept]) (simp_all add: untouched_def db_ok_def)
  from step show ?thesis
  proof (cases rule: site_step.cases)
    case (site_participant sv)
    have "server_ok sha (si_server x)" using ok db(1) by (simp add: server_ok_def site_db_def site_ok_def)
    from results_participant [OF site_participant(2) this] res show ?thesis
      by (simp add: site_participant(1) site_db_def)
  next
    case (site_purge_delete i u db')
    show ?thesis using results_purge_delete [OF res db(1) _ site_purge_delete(2)] db(2) by (simp add: site_purge_delete(1))
  next
    case (site_source now path source w e)
    then show ?thesis by (intro calm) (simp add: site_db_def)
  next
    case site_restart
    then show ?thesis by (intro calm) (simp add: site_db_def)
  qed (intro calm; auto intro: untouched_operations)+
qed

lemma frozen_metrics_columns:
  "at_navigation a = m_navigation (frozen_metrics a)" "at_observed a = m_observed (frozen_metrics a)"
  "at_quality a = m_quality (frozen_metrics a)" "at_epochs a = m_epochs (frozen_metrics a)"
  "at_backtracks a = m_backtracks (frozen_metrics a)" "at_direct a = m_direct (frozen_metrics a)"
  by (simp_all add: frozen_metrics_def)

lemma results_reachable:
  assumes "fresh_site x0" "site_reach sha x0 x"
  shows "results_ok sha (site_db x)"
  using assms(2,1)
proof (induction)
  case site_start
  then show ?case by (simp add: results_ok_def fresh_site_def fresh_server_def fresh_db_def site_db_def)
next
  case (site_next y z)
  with results_site_step reachable_site_ok show ?case by blast
qed

text \<open>C12: The frozen result of a finished attempt can be computed again from what is stored: in every
  reachable state its columns are the metrics of its stored events for the selected node and the
  outcome, it counts as correct exactly when the outcome is a selection of a node that is in the
  answer set of its task for the participant's variant, the last select event of the log is that
  node, its server time is the time between start and end, and an unfinished attempt has no outcome.\<close>

theorem results_reproducible:
  assumes "fresh_site x0" "site_reach sha x0 x" "a \<in> set (db_attempts (site_db x))"
    "s \<in> set (db_sessions (site_db x))" "at_session a = ss_id s" "session_study sha (site_db x) s f"
  shows "(case at_finished a of None \<Rightarrow> at_outcome a = None
    | Some t \<Rightarrow> (\<exists>out n c m. at_outcome a = Some out \<and> out \<in> {''selected'', ''gave_up'', ''skipped''}
        \<and> at_selected a = Some n \<and> at_correct a = Some c \<and> at_server_elapsed a = Some (server_elapsed (at_started a) t)
        \<and> event_metrics_v1 (load_events (site_db x) (at_id a)) (session_index f s) n out True = Inr m
        \<and> at_navigation a = m_navigation m \<and> at_observed a = m_observed m \<and> at_quality a = m_quality m
        \<and> at_epochs a = m_epochs m \<and> at_backtracks a = m_backtracks m \<and> at_direct a = (c \<and> m_direct m)
        \<and> c = (out = ''selected''
            \<and> correct_v1 (find_task f (at_task a)) (ss_variant s) (content_of (session_index f s) n))
        \<and> (out = ''selected'' \<longrightarrow> last_select (load_events (site_db x) (at_id a)) [] = n)))"
proof (cases "at_finished a")
  case None
  with results_reachable [OF assms(1,2)] assms(3) show ?thesis by (auto simp: results_ok_def result_ok_def)
next
  case (Some t)
  with results_reachable [OF assms(1,2)] assms(3) obtain out n c where
    r: "at_outcome a = Some out" "out \<in> {''selected'', ''gave_up'', ''skipped''}" "at_selected a = Some n"
      "at_correct a = Some c" "at_server_elapsed a = Some (server_elapsed (at_started a) t)"
    and v: "verdict f s a (load_events (site_db x) (at_id a)) n out c"
    using assms(4-6) by (fastforce simp: results_ok_def result_ok_def)
  from v obtain m where m: "event_metrics_v1 (load_events (site_db x) (at_id a)) (session_index f s) n out True = Inr m"
    "frozen_metrics a = m\<lparr>m_direct := c \<and> m_direct m\<rparr>" by (auto simp: verdict_def)
  have columns: "at_navigation a = m_navigation m" "at_observed a = m_observed m" "at_quality a = m_quality m"
    "at_epochs a = m_epochs m" "at_backtracks a = m_backtracks m" "at_direct a = (c \<and> m_direct m)"
    unfolding frozen_metrics_columns m(2) by simp_all
  have scored: "c = (out = ''selected''
            \<and> correct_v1 (find_task f (at_task a)) (ss_variant s) (content_of (session_index f s) n))"
    "out = ''selected'' \<longrightarrow> last_select (load_events (site_db x) (at_id a)) [] = n"
    using v unfolding verdict_def by blast+
  show ?thesis
    unfolding Some option.case
    by (rule exI [of _ out], rule exI [of _ n], rule exI [of _ c], rule exI [of _ m])
      (intro conjI r(1-5) m(1) columns scored)
qed

end
