(* ===== verification/Summaries.thy ===== *)
theory Summaries
  imports Complex_Main Reports
begin

text \<open>
  \<open>summarize\<close> and \<open>results\<close>: the counters of one arm, or of one task in one arm, in a single pass over
  the rows, and what they add up to.
\<close>

record summary =
  su_code :: string
  su_task :: string
  su_participants :: nat
  su_completed :: nat
  su_assigned :: nat
  su_shown :: nat
  su_correct :: nat
  su_incorrect :: nat
  su_gave_up :: nat
  su_skipped :: nat
  su_unfinished :: nat
  su_unreached :: nat
  su_yield :: rat
  su_rate :: rat
  su_median :: "rat option"
  su_direct :: nat
  su_backtracks :: nat
  su_interrupted :: nat

text \<open>The state of the loop: the summary so far, the sets of sessions, and the times.\<close>

record summary_state =
  st_summary :: summary
  st_participants :: "string list"
  st_completed :: "string list"
  st_times :: "int list"

definition count_outcome :: "assigned_row \<Rightarrow> summary \<Rightarrow> summary" where
  "count_outcome r s =
     (if ar_outcome r = ''selected'' then
        (if ar_correct r = Some True then s\<lparr>su_correct := Suc (su_correct s)\<rparr>
         else s\<lparr>su_incorrect := Suc (su_incorrect s)\<rparr>)
      else if ar_outcome r = ''gave_up'' then s\<lparr>su_gave_up := Suc (su_gave_up s)\<rparr>
      else if ar_outcome r = ''skipped'' then s\<lparr>su_skipped := Suc (su_skipped s)\<rparr>
      else if ar_outcome r = ''unfinished'' then s\<lparr>su_unfinished := Suc (su_unfinished s)\<rparr>
      else if ar_outcome r = ''unreached'' then s\<lparr>su_unreached := Suc (su_unreached s)\<rparr>
      else s)"

definition timed :: "assigned_row \<Rightarrow> bool" where
  "timed r \<longleftrightarrow> ar_quality r = ''complete'' \<and> ar_navigation r \<noteq> None
     \<and> (ar_outcome r = ''selected'' \<or> ar_outcome r = ''gave_up'')"

definition count_row :: "assigned_row \<Rightarrow> summary \<Rightarrow> summary" where
  "count_row r s =
     (let s1 = s\<lparr>su_assigned := Suc (su_assigned s), su_shown := su_shown s + (if ar_shown r then 1 else 0)\<rparr>;
          s2 = count_outcome r s1
      in s2\<lparr>su_interrupted := su_interrupted s2 + (if ar_quality r = ''interrupted'' then 1 else 0),
            su_direct := su_direct s2 + (if ar_direct r then 1 else 0),
            su_backtracks := su_backtracks s2 + ar_backtracks r\<rparr>)"

definition summary_row :: "string \<Rightarrow> string \<Rightarrow> summary_state \<Rightarrow> assigned_row \<Rightarrow> summary_state" where
  "summary_row code task st r =
     (if ar_code r \<noteq> code \<or> (task \<noteq> [] \<and> ar_task r \<noteq> task) then st
      else \<lparr>st_summary = count_row r (st_summary st),
        st_participants = List.insert (ar_session r) (st_participants st),
        st_completed = (if ar_completed r then List.insert (ar_session r) (st_completed st) else st_completed st),
        st_times = (if timed r then st_times st @ [the (ar_navigation r)] else st_times st)\<rparr>)"

definition empty_summary :: "string \<Rightarrow> string \<Rightarrow> summary" where
  "empty_summary code task = \<lparr>su_code = code, su_task = task, su_participants = 0, su_completed = 0, su_assigned = 0,
     su_shown = 0, su_correct = 0, su_incorrect = 0, su_gave_up = 0, su_skipped = 0, su_unfinished = 0, su_unreached = 0,
     su_yield = 0, su_rate = 0, su_median = None, su_direct = 0, su_backtracks = 0, su_interrupted = 0\<rparr>"

definition median :: "int list \<Rightarrow> rat option" where
  "median values =
     (if values = [] then None
      else let ts = sort values; n = length ts; m = of_int (ts ! (n div 2))
           in Some (if even n then (of_int (ts ! (n div 2 - 1)) + m) / 2 else m))"

definition summarize :: "string \<Rightarrow> string \<Rightarrow> assigned_row list \<Rightarrow> summary" where
  "summarize code task rows =
     (let st = foldl (summary_row code task)
            \<lparr>st_summary = empty_summary code task, st_participants = [], st_completed = [], st_times = []\<rparr> rows;
          s = st_summary st
      in s\<lparr>su_participants := length (st_participants st), su_completed := length (st_completed st),
           su_yield := (if su_assigned s > 0 then of_nat (su_correct s) / of_nat (su_assigned s) else 0),
           su_rate := (if su_shown s > 0 then of_nat (su_correct s) / of_nat (su_shown s) else 0),
           su_median := median (st_times st)\<rparr>)"

definition sorted_values :: "(string \<times> string) list \<Rightarrow> string list" where
  "sorted_values m = sort (map snd m)"

text \<open>\<open>results\<close>: the health of the run, a summary for each arm, and one for each arm and task.\<close>

definition results ::
    "environment \<Rightarrow> nat \<Rightarrow> nat \<Rightarrow> string \<Rightarrow> database \<Rightarrow> (health \<times> summary list \<times> summary list) result" where
  "results env database_bytes active i db =
     (case load_run rn_id i db of Inl e \<Rightarrow> Inl e
      | Inr a \<Rightarrow> (case report_rows env database_bytes active a db of Inl e \<Rightarrow> Inl e
        | Inr (rows, h) \<Rightarrow> Inr (h, map (\<lambda>arm. summarize arm [] rows) (sorted_values (rn_arms a)),
            concat (map (\<lambda>arm. map (\<lambda>task. summarize arm task rows) (sorted_values (rn_tasks a)))
              (sorted_values (rn_arms a))))))"

section \<open>The pass and the counts\<close>

definition picked :: "string \<Rightarrow> string \<Rightarrow> assigned_row \<Rightarrow> bool" where
  "picked code task r \<longleftrightarrow> ar_code r = code \<and> (task = [] \<or> ar_task r = task)"

text \<open>What the loop computes, as counts over the rows that belong to the summary.\<close>

definition counts_ok :: "assigned_row list \<Rightarrow> summary \<Rightarrow> bool" where
  "counts_ok rs s \<longleftrightarrow> su_assigned s = length rs
     \<and> su_shown s = length (filter ar_shown rs)
     \<and> su_correct s = length (filter (\<lambda>r. ar_outcome r = ''selected'' \<and> ar_correct r = Some True) rs)
     \<and> su_incorrect s = length (filter (\<lambda>r. ar_outcome r = ''selected'' \<and> ar_correct r \<noteq> Some True) rs)
     \<and> su_gave_up s = length (filter (\<lambda>r. ar_outcome r = ''gave_up'') rs)
     \<and> su_skipped s = length (filter (\<lambda>r. ar_outcome r = ''skipped'') rs)
     \<and> su_unfinished s = length (filter (\<lambda>r. ar_outcome r = ''unfinished'') rs)
     \<and> su_unreached s = length (filter (\<lambda>r. ar_outcome r = ''unreached'') rs)
     \<and> su_direct s = length (filter ar_direct rs)
     \<and> su_interrupted s = length (filter (\<lambda>r. ar_quality r = ''interrupted'') rs)
     \<and> su_backtracks s = sum_list (map ar_backtracks rs)"

lemma count_row_ok: "counts_ok rs s \<Longrightarrow> counts_ok (rs @ [r]) (count_row r s)"
  by (simp add: counts_ok_def count_row_def count_outcome_def Let_def)

definition state_ok :: "assigned_row list \<Rightarrow> summary_state \<Rightarrow> bool" where
  "state_ok rs st \<longleftrightarrow> counts_ok rs (st_summary st)
     \<and> set (st_participants st) = ar_session ` set rs \<and> distinct (st_participants st)
     \<and> set (st_completed st) = ar_session ` {r \<in> set rs. ar_completed r} \<and> distinct (st_completed st)
     \<and> st_times st = map (\<lambda>r. the (ar_navigation r)) (filter timed rs)"

lemma summary_row_ok:
  assumes "state_ok rs st"
  shows "state_ok (rs @ filter (picked code task) [r]) (summary_row code task st r)"
proof (cases "picked code task r")
  case True
  with assms count_row_ok [of rs "st_summary st" r] show ?thesis
    by (auto simp: state_ok_def summary_row_def picked_def)
next
  case False
  then show ?thesis using assms by (auto simp: summary_row_def picked_def)
qed

lemma summary_fold_ok:
  "state_ok rs st \<Longrightarrow> state_ok (rs @ filter (picked code task) rows) (foldl (summary_row code task) st rows)"
proof (induction rows arbitrary: rs st)
  case (Cons r rows)
  from Cons.IH [OF summary_row_ok [OF Cons.prems, of code task r]] show ?case by (cases "picked code task r") simp_all
qed simp

lemma summarize_ok:
  defines "rs code task rows \<equiv> filter (picked code task) rows"
  shows "counts_ok (rs code task rows) (summarize code task rows)
    \<and> su_participants (summarize code task rows) = card (ar_session ` set (rs code task rows))
    \<and> su_completed (summarize code task rows) = card (ar_session ` {r \<in> set (rs code task rows). ar_completed r})
    \<and> su_median (summarize code task rows) = median (map (\<lambda>r. the (ar_navigation r)) (filter timed (rs code task rows)))"
proof -
  have "state_ok [] \<lparr>st_summary = empty_summary code task, st_participants = [], st_completed = [], st_times = []\<rparr>"
    by (simp add: state_ok_def counts_ok_def empty_summary_def)
  from summary_fold_ok [OF this, of code task rows]
  show ?thesis
    by (auto simp: rs_def summarize_def Let_def state_ok_def counts_ok_def distinct_card [symmetric])
qed

lemma summary_fold_keeps:
  "su_code (st_summary (foldl (summary_row code task) st rows)) = su_code (st_summary st)
    \<and> su_task (st_summary (foldl (summary_row code task) st rows)) = su_task (st_summary st)"
  by (induction rows arbitrary: st) (simp_all add: summary_row_def count_row_def count_outcome_def Let_def)

lemma summarize_keeps [simp]: "su_code (summarize code task rows) = code" "su_task (summarize code task rows) = task"
  by (simp_all add: summarize_def Let_def summary_fold_keeps empty_summary_def)

section \<open>The median\<close>

lemma count_below:
  fixes ts :: "int list"
  assumes "sorted ts" "k \<le> length ts" "\<And>i. k \<le> i \<Longrightarrow> i < length ts \<Longrightarrow> \<not> P (ts ! i)"
  shows "length (filter P ts) \<le> k"
proof -
  have "length (filter P ts) = card {i. i < length ts \<and> P (ts ! i)}" by (rule length_filter_conv_card)
  also have "\<dots> \<le> card {..<k}" using assms(3) by (intro card_mono) (auto simp: not_le [symmetric])
  finally show ?thesis by simp
qed

lemma count_above:
  fixes ts :: "int list"
  assumes "sorted ts" "k \<le> length ts" "\<And>i. i < k \<Longrightarrow> \<not> P (ts ! i)"
  shows "length (filter P ts) \<le> length ts - k"
proof -
  have "length (filter P ts) = card {i. i < length ts \<and> P (ts ! i)}" by (rule length_filter_conv_card)
  also have "\<dots> \<le> card {k..<length ts}" using assms(3) by (intro card_mono) (auto simp: not_less [symmetric])
  finally show ?thesis by simp
qed

lemma median_middle:
  assumes "median values = Some m"
  shows "of_int (sort values ! ((length values - 1) div 2)) \<le> m \<and> m \<le> of_int (sort values ! (length values div 2))"
proof -
  define ts where "ts = sort values"
  define n where "n = length ts"
  have ne: "0 < n" using assms by (cases "values = []") (auto simp: median_def n_def ts_def)
  have m: "m = (if even n then (of_int (ts ! (n div 2 - 1)) + of_int (ts ! (n div 2))) / 2 else of_int (ts ! (n div 2)))"
    using assms ne by (auto simp: median_def Let_def n_def ts_def split: if_splits)
  show ?thesis
  proof (cases "even n")
    case True
    then have k: "(n - 1) div 2 = n div 2 - 1" using ne by (auto elim!: evenE)
    have "ts ! (n div 2 - 1) \<le> ts ! (n div 2)"
      by (rule sorted_nth_mono) (use ne in \<open>simp_all add: ts_def n_def\<close>)
    then have "of_int (ts ! (n div 2 - 1)) \<le> (of_int (ts ! (n div 2)) :: rat)" by simp
    with m True k show ?thesis by (simp add: n_def ts_def field_simps)
  next
    case False
    then have "(n - 1) div 2 = n div 2" by (auto elim!: oddE)
    with m False show ?thesis by (simp add: n_def ts_def)
  qed
qed

text \<open>The median time of a summary splits the times: at most half of them lie below it and at most
  half above; it does not depend on the order of the rows, and there is one exactly when some time is.\<close>

theorem median_splits:
  "(median values = None \<longleftrightarrow> values = []) \<and> (mset other = mset values \<longrightarrow> median other = median values)
    \<and> (\<forall>m. median values = Some m \<longrightarrow> 2 * length (filter (\<lambda>v. of_int v < m) values) \<le> length values
        \<and> 2 * length (filter (\<lambda>v. m < of_int v) values) \<le> length values)"
proof (intro conjI impI allI)
  show "median values = None \<longleftrightarrow> values = []" by (simp add: median_def Let_def)
  assume "mset other = mset values"
  then have "sort other = sort values" "length other = length values" "other = [] \<longleftrightarrow> values = []"
    by (auto simp: properties_for_sort dest: mset_eq_length)
  then show "median other = median values" by (simp add: median_def Let_def)
next
  fix m assume m: "median values = Some m"
  define ts where "ts = sort values"
  have s: "sorted ts" and n: "length ts = length values" and ms: "mset ts = mset values" by (simp_all add: ts_def)
  have ne: "0 < length ts" using m by (cases "values = []") (auto simp: median_def n)
  have len: "length (filter P ts) = length (filter P values)" for P
    using ms by (metis mset_filter size_mset)
  have mid: "of_int (ts ! ((length ts - 1) div 2)) \<le> m" "m \<le> of_int (ts ! (length ts div 2))"
    using median_middle [OF m] by (simp_all add: ts_def)
  have "length (filter (\<lambda>v. of_int v < m) ts) \<le> length ts div 2"
  proof (rule count_below [OF s])
    fix i assume "length ts div 2 \<le> i" "i < length ts"
    then have "ts ! (length ts div 2) \<le> ts ! i" by (rule sorted_nth_mono [OF s])
    then have "(of_int (ts ! (length ts div 2)) :: rat) \<le> of_int (ts ! i)" by simp
    with mid(2) show "\<not> of_int (ts ! i) < m" by linarith
  qed simp
  then show "2 * length (filter (\<lambda>v. of_int v < m) values) \<le> length values" by (simp add: len n)
  have "length (filter (\<lambda>v. m < of_int v) ts) \<le> length ts - Suc ((length ts - 1) div 2)"
  proof (rule count_above [OF s])
    fix i assume "i < Suc ((length ts - 1) div 2)"
    then have "ts ! i \<le> ts ! ((length ts - 1) div 2)" using ne div_le_dividend [of "length ts - 1" 2] by (intro sorted_nth_mono [OF s]) linarith+
    then have "(of_int (ts ! i) :: rat) \<le> of_int (ts ! ((length ts - 1) div 2))" by simp
    with mid(1) show "\<not> m < of_int (ts ! i)" by linarith
  qed (use ne div_le_dividend [of "length ts - 1" 2] in linarith)
  then show "2 * length (filter (\<lambda>v. m < of_int v) values) \<le> length values" using ne by (simp add: len n)
qed

end
