(* ===== verification/Exports.thy ===== *)
theory Exports
  imports Summaries
begin

text \<open>
  The exports of \<open>reports.go\<close>: the assigned tasks as CSV or JSON, and the owner's event export. The CSV
  text is written the way \<open>encoding/csv\<close> does; a reader of the format gets the fields back.
\<close>

section \<open>CSV\<close>

text \<open>\<open>csvCell\<close>: a text that a spreadsheet would take for a formula gets an apostrophe.\<close>

definition blank :: "char \<Rightarrow> bool" where
  "blank c \<longleftrightarrow> c = CHR '' '' \<or> c = CHR 0x09 \<or> c = CHR 0x0D \<or> c = CHR 0x0A"

definition formula_start :: "string \<Rightarrow> bool" where
  "formula_start s \<longleftrightarrow> (case dropWhile blank s of [] \<Rightarrow> False | c # _ \<Rightarrow> c \<in> set ''=+-@'')"

definition csv_cell :: "string \<Rightarrow> string" where
  "csv_cell v = (if formula_start v then CHR 0x27 # v else v)"

text \<open>
  \<open>fieldNeedsQuotes\<close> and \<open>Write\<close> of the standard library's \<open>csv.Writer\<close> with its default settings: a
  field is quoted when it holds a comma, a quote or a line break, when it starts with a white space
  character, or when it is a backslash and a dot; within quotes a quote is doubled.
\<close>

definition needs_quotes :: "string \<Rightarrow> bool" where
  "needs_quotes f \<longleftrightarrow> f \<noteq> [] \<and> (f = [CHR 0x5C, CHR ''.''] \<or> list_ex (\<lambda>c. c \<in> {CHR '','', CHR 0x22, CHR 0x0D, CHR 0x0A}) f
     \<or> list_ex (\<lambda>q. has_prefix q f) space_seqs)"

definition quoted :: "string \<Rightarrow> string" where
  "quoted f = CHR 0x22 # concat (map (\<lambda>c. if c = CHR 0x22 then [c, c] else [c]) f) @ [CHR 0x22]"

definition csv_field :: "string \<Rightarrow> string" where
  "csv_field f = (if needs_quotes f then quoted f else f)"

fun csv_fields :: "string list \<Rightarrow> string" where
  "csv_fields [] = []"
| "csv_fields [f] = csv_field f"
| "csv_fields (f # fs) = csv_field f @ CHR '','' # csv_fields fs"

definition csv_record :: "string list \<Rightarrow> string" where
  "csv_record fs = csv_fields fs @ [CHR 0x0A]"

definition csv_header :: "string list" where
  "csv_header = [''session_id'', ''code'', ''task_id'', ''task_index'', ''session_completed'', ''experience'', ''docs_familiarity'',
     ''shown'', ''outcome'', ''correct'', ''navigation_ms'', ''direct_success'', ''backtracks'', ''server_elapsed_ms'',
     ''observed_navigation_ms'', ''timing_quality'', ''clock_epochs'', ''policy_version'', ''allocation_policy'',
     ''scoring_policy'', ''timing_policy'', ''run_id'', ''version_id'', ''version_hash'', ''mode'', ''difficulty'']"

definition format_bool :: "bool \<Rightarrow> string" where
  "format_bool b = (if b then ''true'' else ''false'')"

definition csv_row :: "assigned_row \<Rightarrow> string list" where
  "csv_row r = [ar_session r, ar_code r, ar_task r, decimal (ar_index r), format_bool (ar_completed r),
     csv_cell (ar_experience r), csv_cell (ar_familiarity r), format_bool (ar_shown r), ar_outcome r,
     (case ar_correct r of None \<Rightarrow> [] | Some b \<Rightarrow> format_bool b),
     (case ar_navigation r of None \<Rightarrow> [] | Some n \<Rightarrow> json_int n),
     format_bool (ar_direct r), decimal (ar_backtracks r),
     (case ar_elapsed r of None \<Rightarrow> [] | Some n \<Rightarrow> decimal n),
     json_int (ar_observed r), ar_quality r, decimal (ar_epochs r), p_version (ar_policy r), p_allocation (ar_policy r),
     p_scoring (ar_policy r), p_timing (ar_policy r), ar_run r, ar_version r, ar_hash r, ar_mode r, ar_difficulty r]"

text \<open>\<open>export\<close>: the CSV text, or the value that is encoded as JSON.\<close>

record json_export =
  je_run :: string
  je_version :: string
  je_hash :: string
  je_mode :: string
  je_policy :: policy
  je_rows :: "assigned_row list"

datatype export_body = Csv string | Json json_export

definition export :: "environment \<Rightarrow> nat \<Rightarrow> nat \<Rightarrow> string \<Rightarrow> string \<Rightarrow> database \<Rightarrow> export_body result" where
  "export env database_bytes active format i db =
     (if format \<noteq> ''csv'' \<and> format \<noteq> ''json'' then Inl (Problem 422 ''format must be csv or json'')
      else case load_run rn_id i db of Inl e \<Rightarrow> Inl e
      | Inr a \<Rightarrow> (case report_rows env database_bytes active a db of Inl e \<Rightarrow> Inl e
        | Inr (rows, h) \<Rightarrow> (case load_snapshot (en_sha env) db (rn_version a) of Inl e \<Rightarrow> Inl e
          | Inr f \<Rightarrow>
            if format = ''json''
              then Inr (Json \<lparr>je_run = rn_id a, je_version = rn_version a, je_hash = f_hash f, je_mode = rn_mode a,
                je_policy = f_policy f, je_rows = rows\<rparr>)
            else Inr (Csv (concat (map csv_record (csv_header # map csv_row rows)))))))"

section \<open>The owner's events\<close>

record owner_session =
  os_id :: string
  os_variant :: string
  os_panel :: nat
  os_tasks :: "string list"
  os_nodes :: "(string \<times> string) list"
  os_public_tasks :: "(string \<times> string) list"

record owner_attempt =
  oa_id :: string
  oa_session :: string
  oa_task :: string
  oa_index :: nat
  oa_started :: time
  oa_finished :: "time option"
  oa_next_seq :: nat
  oa_outcome :: "string option"
  oa_node :: "string option"
  oa_correct :: "bool option"
  oa_elapsed :: nat
  oa_policy :: policy
  oa_metrics :: attempt_metrics

record owner_event =
  oe_session :: string
  oe_attempt :: string
  oe_task :: string
  oe_event :: event
  oe_received :: time

definition owner_session_of :: "session_row \<Rightarrow> owner_session" where
  "owner_session_of s = \<lparr>os_id = ss_id s, os_variant = ss_variant s, os_panel = ss_panel s, os_tasks = ss_tasks s,
     os_nodes = ss_nodes s, os_public_tasks = ss_public_tasks s\<rparr>"

definition owner_attempt_of ::
    "database \<Rightarrow> frozen_snapshot \<Rightarrow> session_row list \<Rightarrow> time \<Rightarrow> attempt_row \<times> policy \<Rightarrow> owner_attempt result" where
  "owner_attempt_of db f sessions observed_at ap =
     (let (a, p) = ap in
      case find (\<lambda>s. ss_id s = at_session a) sessions of
        None \<Rightarrow> Inl (Internal ''unexpected end of JSON input'')
      | Some s \<Rightarrow> (case metrics_for_attempt db ap f (ss_variant s) (ss_nodes s) observed_at of Inl e \<Rightarrow> Inl e
          | Inr (m, elapsed) \<Rightarrow> Inr \<lparr>oa_id = at_id a, oa_session = at_session a, oa_task = at_task a, oa_index = at_index a,
              oa_started = at_started a, oa_finished = at_finished a, oa_next_seq = at_next_seq a,
              oa_outcome = at_outcome a,
              oa_node = (if at_selected a = Some [] then None else at_selected a),
              oa_correct = (if at_outcome a = Some ''selected'' then at_correct a else None),
              oa_elapsed = elapsed, oa_policy = p, oa_metrics = m\<rparr>))"

definition owner_events_of :: "database \<Rightarrow> attempt_row \<Rightarrow> owner_event list" where
  "owner_events_of db a = map (\<lambda>e. \<lparr>oe_session = at_session a, oe_attempt = at_id a, oe_task = at_task a, oe_event = ev_event e,
     oe_received = ev_received e\<rparr>) (sort_key ev_seq (filter (\<lambda>e. ev_attempt e = at_id a) (db_events db)))"

definition event_export :: "environment \<Rightarrow> string \<Rightarrow> database
    \<Rightarrow> (string \<times> policy \<times> owner_session list \<times> owner_attempt list \<times> owner_event list) result" where
  "event_export env i db =
     (case load_run rn_id i db of Inl e \<Rightarrow> Inl e
      | Inr run \<Rightarrow> (case load_snapshot (en_sha env) db (rn_version run) of Inl e \<Rightarrow> Inl e
        | Inr f \<Rightarrow>
          (let sessions = sessions_in_order (rn_id run) db in
           case load_run_attempts (rn_id run) db of Inl e \<Rightarrow> Inl e
           | Inr stored \<Rightarrow>
             (case collect (map (owner_attempt_of db f sessions (en_clock env 0)) stored) of Inl e \<Rightarrow> Inl e
              | Inr attempts \<Rightarrow> Inr (rn_id run, f_policy f, map owner_session_of sessions, attempts,
                  concat (map (owner_events_of db) (concat (map (attempts_of db) sessions))))))))"

end
