(* ===== verification/ExportTheorems.thy ===== *)
theory ExportTheorems
  imports Exports
begin

text \<open>
  A reader of the CSV format gets from the export the fields of the report, and no cell that a
  participant filled in starts a formula.
\<close>

section \<open>A reader of CSV\<close>

fun read_quoted :: "string \<Rightarrow> (string \<times> string) option" where
  "read_quoted [] = None"
| "read_quoted [c] = (if c = CHR 0x22 then Some ([], []) else None)"
| "read_quoted (c # d # cs) =
     (if c \<noteq> CHR 0x22 then map_option (\<lambda>(f, r). (c # f, r)) (read_quoted (d # cs))
      else if d = CHR 0x22 then map_option (\<lambda>(f, r). (d # f, r)) (read_quoted cs)
      else Some ([], d # cs))"

definition plain :: "char \<Rightarrow> bool" where
  "plain c \<longleftrightarrow> c \<noteq> CHR '','' \<and> c \<noteq> CHR 0x0A"

definition read_field :: "string \<Rightarrow> (string \<times> string) option" where
  "read_field s = (case s of [] \<Rightarrow> Some ([], [])
     | c # cs \<Rightarrow> if c = CHR 0x22 then read_quoted cs else Some (takeWhile plain s, dropWhile plain s))"

text \<open>One record, and then all of them; every round reads a character, so the length is enough fuel.\<close>

fun read_record :: "nat \<Rightarrow> string \<Rightarrow> (string list \<times> string) option" where
  "read_record 0 s = None"
| "read_record (Suc n) s =
     (case read_field s of None \<Rightarrow> None
      | Some (f, []) \<Rightarrow> None
      | Some (f, c # rest) \<Rightarrow>
          if c = CHR '','' then map_option (\<lambda>(fs, r). (f # fs, r)) (read_record n rest)
          else if c = CHR 0x0A then Some ([f], rest) else None)"

fun read_records :: "nat \<Rightarrow> string \<Rightarrow> string list list option" where
  "read_records n [] = Some []"
| "read_records 0 (c # s) = None"
| "read_records (Suc n) (c # s) =
     (case read_record (Suc (length s)) (c # s) of None \<Rightarrow> None
      | Some (fs, rest) \<Rightarrow> map_option ((#) fs) (read_records n rest))"

definition read_csv :: "string \<Rightarrow> string list list option" where
  "read_csv s = read_records (length s) s"

section \<open>Reading back what was written\<close>

lemma read_quoted_back:
  "c \<noteq> CHR 0x22 \<Longrightarrow>
    read_quoted (concat (map (\<lambda>c. if c = CHR 0x22 then [c, c] else [c]) f) @ CHR 0x22 # c # rest) = Some (f, c # rest)"
proof (induction f)
  case (Cons d f)
  obtain e es where rest: "concat (map (\<lambda>c. if c = CHR 0x22 then [c, c] else [c]) f) @ CHR 0x22 # c # rest = e # es"
    by (cases "concat (map (\<lambda>c. if c = CHR 0x22 then [c, c] else [c]) f) @ CHR 0x22 # c # rest") auto
  with Cons show ?case by simp
qed simp

lemma read_field_back:
  assumes "c = CHR '','' \<or> c = CHR 0x0A"
  shows "read_field (csv_field f @ c # rest) = Some (f, c # rest)"
proof (cases "needs_quotes f")
  case True
  have "c \<noteq> CHR 0x22" using assms by auto
  with read_quoted_back [OF this] True show ?thesis by (simp add: csv_field_def quoted_def read_field_def)
next
  case False
  then have f: "f = [] \<or> (\<forall>d \<in> set f. plain d \<and> d \<noteq> CHR 0x22)"
    by (auto simp: needs_quotes_def plain_def list_ex_iff)
  have c: "\<not> plain c" using assms by (auto simp: plain_def)
  have q: "c \<noteq> CHR 0x22" using assms by auto
  show ?thesis
  proof (cases f)
    case Nil
    with c q False show ?thesis by (simp add: csv_field_def read_field_def)
  next
    case (Cons d ds)
    with f have d: "d \<noteq> CHR 0x22" "\<forall>e \<in> set f. plain e" by auto
    then have "takeWhile plain (f @ c # rest) = f" "dropWhile plain (f @ c # rest) = c # rest" using c by simp_all
    with d(1) False Cons show ?thesis by (simp add: csv_field_def read_field_def)
  qed
qed

lemma csv_fields_Cons: "fs \<noteq> [] \<Longrightarrow> csv_fields (f # fs) = csv_field f @ CHR '','' # csv_fields fs"
  by (cases fs) auto

lemma read_record_back:
  "fs \<noteq> [] \<Longrightarrow> length fs \<le> n \<Longrightarrow> read_record n (csv_record fs @ rest) = Some (fs, rest)"
proof (induction fs arbitrary: n)
  case (Cons f fs)
  then obtain m where n: "n = Suc m" by (cases n) auto
  show ?case
  proof (cases "fs = []")
    case True
    then show ?thesis using read_field_back [of "CHR 0x0A" f rest] by (simp add: csv_record_def n)
  next
    case False
    have "csv_record (f # fs) @ rest = csv_field f @ CHR '','' # (csv_record fs @ rest)"
      by (simp add: csv_record_def csv_fields_Cons [OF False])
    with Cons False n read_field_back [of "CHR '',''" f "csv_record fs @ rest"] show ?thesis by simp
  qed
qed simp

lemma length_csv_fields: "length fs \<le> Suc (length (csv_fields fs))"
proof (induction fs)
  case (Cons f fs)
  then show ?case by (cases "fs = []") (simp_all add: csv_fields_Cons)
qed simp

lemma read_records_back:
  "\<forall>fs \<in> set rs. fs \<noteq> [] \<Longrightarrow> length rs \<le> n \<Longrightarrow> read_records n (concat (map csv_record rs)) = Some rs"
proof (induction rs arbitrary: n)
  case (Cons fs rs)
  then obtain m where n: "n = Suc m" by (cases n) auto
  obtain c s where body: "csv_record fs @ concat (map csv_record rs) = c # s"
    by (cases "csv_record fs @ concat (map csv_record rs)") (auto simp: csv_record_def)
  have "length fs \<le> length (csv_record fs)" using length_csv_fields [of fs] by (simp add: csv_record_def)
  also have "\<dots> \<le> Suc (length s)" using arg_cong [OF body, of length] by simp
  finally have "read_record (Suc (length s)) (c # s) = Some (fs, concat (map csv_record rs))"
    unfolding body [symmetric] by (intro read_record_back) (use Cons.prems(1) in simp_all)
  with Cons n body show ?case by simp
qed simp

lemma read_csv_back:
  assumes "\<forall>fs \<in> set rs. fs \<noteq> []"
  shows "read_csv (concat (map csv_record rs)) = Some rs"
proof -
  have "length rs \<le> length (concat (map csv_record rs))" by (induction rs) (auto simp: csv_record_def)
  then show ?thesis unfolding read_csv_def by (rule read_records_back [OF assms])
qed

lemma csv_cell_inert: "\<not> formula_start (csv_cell v)"
  by (simp add: csv_cell_def formula_start_def blank_def)

text \<open>C15: A CSV reader gets from the export exactly the header and the fields of the report's rows, whatever
  commas, quotes and line breaks the texts hold, and no cell that participants fill in starts a
  spreadsheet formula.\<close>

theorem csv_export_reads_back:
  assumes "export env database_bytes active format i db = Inr (Csv text)"
  shows "\<exists>run rows h. load_run rn_id i db = Inr run \<and> report_rows env database_bytes active run db = Inr (rows, h)
    \<and> read_csv text = Some (csv_header # map csv_row rows)
    \<and> (\<forall>r \<in> set rows. \<not> formula_start (csv_row r ! 5) \<and> \<not> formula_start (csv_row r ! 6))"
proof -
  obtain run rows h where r: "load_run rn_id i db = Inr run" "report_rows env database_bytes active run db = Inr (rows, h)"
    and body: "text = concat (map csv_record (csv_header # map csv_row rows))"
    using assms by (auto simp: export_def split: if_splits)
  have "read_csv text = Some (csv_header # map csv_row rows)"
    unfolding body by (rule read_csv_back) (simp add: csv_header_def csv_row_def)
  moreover have "csv_row r ! 5 = csv_cell (ar_experience r)" "csv_row r ! 6 = csv_cell (ar_familiarity r)" for r
    by (simp_all add: csv_row_def)
  ultimately show ?thesis using r csv_cell_inert by fastforce
qed

end
