(* ===== verification/ReportTheorems.thy ===== *)
theory ReportTheorems
  imports SiteResults ExportTheorems
begin

text \<open>
  The reports of a reachable site: they can always be computed, every assigned task of every session
  is exactly one row, and the counters of a summary partition its rows.
\<close>

section \<open>The rows\<close>

lemma collect_Inr: "collect rs = Inr xs \<longleftrightarrow> rs = map Inr xs"
  by (induction rs arbitrary: xs) (auto split: sum.splits)

lemma collect_all: "\<forall>r \<in> set rs. ok r \<Longrightarrow> \<exists>xs. collect rs = Inr xs"
proof (induction rs)
  case (Cons r rs)
  then show ?case by (cases r) auto
qed simp

lemma load_run_attempts_Inr:
  "load_run_attempts run db = Inr l \<longleftrightarrow>
    (\<forall>a \<in> set l. snd a = policy_v1 \<and> at_policy (fst a) = Some policy_v1)
    \<and> map fst l = concat (map (attempts_of db) (sessions_in_order run db))"
proof -
  have d: "decode_attempt a = Inr (b, p) \<longleftrightarrow> b = a \<and> p = policy_v1 \<and> at_policy a = Some policy_v1" for a b p
    by (auto simp: decode_attempt_def decode_policy_Inr split: sum.splits)
  have "map decode_attempt as = map Inr l \<longleftrightarrow>
      (\<forall>a \<in> set l. snd a = policy_v1 \<and> at_policy (fst a) = Some policy_v1) \<and> map fst l = as" for as
  proof (induction "as" arbitrary: l)
    case (Cons a "as")
    show ?case
    proof (cases l)
      case (Cons b l')
      obtain c p where "b = (c, p)" by (cases b)
      with Cons.IH [of l'] Cons d show ?thesis by auto
    qed simp
  qed auto
  then show ?thesis by (simp add: load_run_attempts_def collect_Inr)
qed

lemma find_member: "find P xs = Some x \<Longrightarrow> x \<in> set xs \<and> P x"
  by (induction xs) (auto split: if_splits)

text \<open>The attempt that a row shows: with unique rows, the one of the session at the index.\<close>

lemma find_attempt:
  assumes k: "keys_ok db" and s: "s \<in> set (sessions_in_order run db)" and l: "load_run_attempts run db = Inr l"
  shows "(case find (\<lambda>(a, p). at_session a = ss_id s \<and> at_index a = i) (rev l) of
      None \<Rightarrow> (\<forall>a \<in> set (db_attempts db). at_session a = ss_id s \<longrightarrow> at_index a \<noteq> i)
    | Some (a, p) \<Rightarrow> p = policy_v1 \<and> a \<in> set (db_attempts db) \<and> at_session a = ss_id s \<and> at_index a = i)"
proof (cases "find (\<lambda>(a, p). at_session a = ss_id s \<and> at_index a = i) (rev l)")
  case None
  have "at_index a \<noteq> i" if "a \<in> set (db_attempts db)" "at_session a = ss_id s" for a
  proof -
    have "a \<in> set (attempts_of db s)" using that by (simp add: attempts_of_def)
    then have "a \<in> set (map fst l)" using l s unfolding load_run_attempts_Inr by auto
    then show ?thesis using None that(2) by (auto simp: find_None_iff)
  qed
  with None show ?thesis by simp
next
  case (Some ap)
  obtain a p where ap: "ap = (a, p)" by (cases ap)
  from Some have "(a, p) \<in> set l" "at_session a = ss_id s \<and> at_index a = i"
    using find_member [OF Some] by (simp_all add: ap)
  moreover from this(1) have "a \<in> set (map fst l)" by force
  then have "a \<in> set (db_attempts db)" using l unfolding load_run_attempts_Inr by (auto simp: attempts_of_def)
  ultimately show ?thesis using Some ap l unfolding load_run_attempts_Inr by fastforce
qed

text \<open>What one row says, given the progress of the session and the results of its attempts.\<close>

definition row_ok :: "session_row \<Rightarrow> nat \<Rightarrow> assigned_row \<Rightarrow> bool" where
  "row_ok s i r \<longleftrightarrow> ar_session r = ss_id s \<and> ar_index r = i \<and> ar_completed r = (ss_completed s \<noteq> None)
     \<and> ar_shown r = (ar_outcome r \<noteq> ''unreached'')
     \<and> ar_outcome r \<in> (if i < ss_index s then {''selected'', ''gave_up'', ''skipped''}
          else if i = ss_index s then {''unfinished'', ''unreached''} else {''unreached''})"

lemma report_row_ok:
  assumes ok: "db_ok sha db" and res: "results_ok sha db" and s: "s \<in> set (sessions_in_order run db)"
    and l: "load_run_attempts run db = Inr l" and f: "f_policy f = policy_v1"
  shows "\<exists>r. report_row db a f l t s (i, task) = Inr r \<and> row_ok s i r"
proof -
  have k: "keys_ok db" using ok by (simp add: db_ok_def)
  have s': "s \<in> set (db_sessions db)" using s by (simp add: sessions_in_order_def)
  note progress = db_ok_progress [OF ok s']
  note found = find_attempt [OF k s l, of i]
  show ?thesis
  proof (cases "find (\<lambda>(a, p). at_session a = ss_id s \<and> at_index a = i) (rev l)")
    case None
    then have "\<not> i < ss_index s" using found progress by fastforce
    with None show ?thesis by (simp add: report_row_def unreached_row_def row_ok_def)
  next
    case (Some ap)
    obtain b p where ap: "ap = (b, p)" by (cases ap)
    with found Some have b: "p = policy_v1" "b \<in> set (db_attempts db)" "at_session b = ss_id s" "at_index b = i" by simp_all
    have le: "i \<le> ss_index s" and fin: "at_finished b \<noteq> None \<longleftrightarrow> i < ss_index s" using progress b(2-4) by blast+
    have r: "result_ok sha db b" using res b(2) by (simp add: results_ok_def)
    have "\<exists>m e. metrics_for_attempt db ap f (ss_variant s) (ss_nodes s) t = Inr (m, e)"
    proof (cases "at_finished b")
      case None
      have "\<exists>m. event_metrics_v1 (load_events db (at_id b)) idx [] [] False = Inr m" for idx
        by (simp add: event_metrics_v1_def Let_def)
      with None show ?thesis by (auto simp: metrics_for_attempt_def ap b(1) f resolve_policy_def split: sum.split)
    next
      case (Some u)
      with r show ?thesis by (auto simp: metrics_for_attempt_def ap b(1) f resolve_policy_def result_ok_def)
    qed
    then obtain m e where m: "metrics_for_attempt db ap f (ss_variant s) (ss_nodes s) t = Inr (m, e)" by blast
    have row: "report_row db a f l t s (i, task) = Inr (reached_row b m e (unreached_row a f s i task))"
      by (simp add: report_row_def Some m) (simp add: ap)
    have "row_ok s i (reached_row b m e (unreached_row a f s i task))"
    proof (cases "at_finished b")
      case None
      then have "at_outcome b = None" "i = ss_index s" using r fin le by (auto simp: result_ok_def)
      then show ?thesis by (simp add: row_ok_def reached_row_def unreached_row_def Let_def)
    next
      case (Some u)
      then obtain out where "at_outcome b = Some out" "out \<in> {''selected'', ''gave_up'', ''skipped''}" "i < ss_index s"
        using r fin by (auto simp: result_ok_def)
      then show ?thesis by (auto simp: row_ok_def reached_row_def unreached_row_def Let_def)
    qed
    with row show ?thesis by blast
  qed
qed

lemma collect_related:
  "\<forall>x \<in> set xs. \<exists>r. F x = Inr r \<and> Q x r \<Longrightarrow> \<exists>rs. collect (map F xs) = Inr rs \<and> list_all2 Q xs rs"
proof (induction xs)
  case (Cons x xs)
  then obtain r rs where "F x = Inr r" "Q x r" "collect (map F xs) = Inr rs" "list_all2 Q xs rs" by auto
  then show ?case by (intro exI [of _ "r # rs"]) simp
qed simp

text \<open>The assigned tasks of a run, in the order of the report.\<close>

definition assigned :: "string \<Rightarrow> database \<Rightarrow> (session_row \<times> nat \<times> string) list" where
  "assigned run db = concat (map (\<lambda>s. map (Pair s) (enumerate 0 (ss_tasks s))) (sessions_in_order run db))"

lemma assigned_map: "concat (map (\<lambda>s. map (F s) (enumerate 0 (ss_tasks s))) (sessions_in_order run db)) =
    map (\<lambda>x. F (fst x) (snd x)) (assigned run db)"
  by (simp add: assigned_def map_concat comp_def)

lemma assigned_keys: "map (\<lambda>x. (ss_id (fst x), fst (snd x))) (assigned run db) =
    concat (map (\<lambda>s. map (Pair (ss_id s)) [0..<length (ss_tasks s)]) (sessions_in_order run db))"
proof -
  have "map (\<lambda>it. (ss_id s, fst it)) (enumerate 0 (ss_tasks s)) = map (Pair (ss_id s)) [0..<length (ss_tasks s)]" for s :: session_row
    by (rule nth_equalityI) (simp_all add: nth_enumerate_eq)
  then show ?thesis using assigned_map [of "\<lambda>s it. (ss_id s, fst it)" run db] by simp
qed

definition row_of :: "session_row list \<Rightarrow> session_row \<times> nat \<times> string \<Rightarrow> assigned_row \<Rightarrow> bool" where
  "row_of ss x r \<longleftrightarrow> fst x \<in> set ss \<and> row_ok (fst x) (fst (snd x)) r"

lemma report_rows_ok:
  assumes ok: "db_ok sha db" and res: "results_ok sha db" and f: "load_snapshot (en_sha env) db (rn_version run) = Inr f"
  shows "\<exists>rows h. report_rows env k n run db = Inr (rows, h)
    \<and> list_all2 (row_of (sessions_in_order (rn_id run) db)) (assigned (rn_id run) db) rows
    \<and> he_enrolled h = tbl_count (\<lambda>s. ss_run s = rn_id run) (db_sessions db)
    \<and> he_completed h + he_incomplete h = he_enrolled h"
proof -
  define ss where "ss = sessions_in_order (rn_id run) db"
  have pol: "f_policy f = policy_v1"
    using f by (auto simp: load_snapshot_def decode_policy_Inr split: option.splits sum.splits if_splits)
  have "\<forall>a \<in> set (concat (map (attempts_of db) ss)). ok (decode_attempt a)"
    using res by (auto simp: attempts_of_def results_ok_def result_ok_def decode_attempt_def decode_policy_def check_policy_def policy_v1_def)
  then obtain l where l: "load_run_attempts (rn_id run) db = Inr l"
    unfolding load_run_attempts_def ss_def [symmetric] using collect_all [of "map decode_attempt (concat (map (attempts_of db) ss))"]
    by auto
  have "\<forall>x \<in> set (assigned (rn_id run) db). \<exists>r. report_row db run f l (en_clock env 1) (fst x) (snd x) = Inr r \<and> row_of ss x r"
  proof
    fix x assume "x \<in> set (assigned (rn_id run) db)"
    then obtain s i t where x: "x = (s, i, t)" "s \<in> set (sessions_in_order (rn_id run) db)"
      unfolding assigned_def by auto
    from report_row_ok [OF ok res x(2) l pol] x(2)
    show "\<exists>r. report_row db run f l (en_clock env 1) (fst x) (snd x) = Inr r \<and> row_of ss x r"
      by (simp add: x(1) row_of_def ss_def)
  qed
  from collect_related [OF this] obtain rows where rows:
    "collect (map (\<lambda>x. report_row db run f l (en_clock env 1) (fst x) (snd x)) (assigned (rn_id run) db)) = Inr rows"
    "list_all2 (row_of ss) (assigned (rn_id run) db) rows" by blast
  have n: "length ss = tbl_count (\<lambda>s. ss_run s = rn_id run) (db_sessions db)"
    by (simp add: ss_def sessions_in_order_def oldest_first_def tbl_count_def)
  have c: "tbl_count (\<lambda>s. ss_completed s \<noteq> None) ss + tbl_count (\<lambda>s. ss_completed s = None) ss = length ss"
    using sum_length_filter_compl [of "\<lambda>s. ss_completed s \<noteq> None" ss] by (simp add: tbl_count_def)
  define h where "h = \<lparr>he_enrolled = length ss, he_completed = tbl_count (\<lambda>s. ss_completed s \<noteq> None) ss,
      he_incomplete = tbl_count (\<lambda>s. ss_completed s = None) ss, he_last_event = last_event (rn_id run) db,
      he_cap = rn_cap run, he_event_bytes = rn_event_bytes run, he_data_bytes = rn_data_bytes run,
      he_limit = max_run_event_data, he_database_bytes = k, he_active = n, he_target = rn_target_at run,
      he_overdue = (case rn_target_at run of None \<Rightarrow> False
        | Some t \<Rightarrow> rn_status run = ''closed'' \<and> text_le t (en_clock env 0))\<rparr>"
  have "report_rows env k n run db = Inr (rows, h)"
    unfolding report_rows_def Let_def assigned_map by (simp only: l f rows(1) sum.case h_def ss_def)
  moreover have "he_enrolled h = length ss" "he_completed h + he_incomplete h = length ss"
    using c by (simp_all add: h_def)
  ultimately show ?thesis using rows(2) n ss_def by metis
qed

lemma report_rows_progress:
  assumes "fresh_site x0" "site_reach sha x0 x" "en_sha env = sha"
    "load_snapshot sha (site_db x) (rn_version run) = Inr f"
  shows "\<exists>rows h. report_rows env k n run (site_db x) = Inr (rows, h)
    \<and> map (\<lambda>r. (ar_session r, ar_index r)) rows =
        concat (map (\<lambda>s. map (Pair (ss_id s)) [0..<length (ss_tasks s)]) (sessions_in_order (rn_id run) (site_db x)))
    \<and> (\<forall>r \<in> set rows. \<exists>s \<in> set (db_sessions (site_db x)). ss_run s = rn_id run \<and> row_ok s (ar_index r) r)
    \<and> he_enrolled h = tbl_count (\<lambda>s. ss_run s = rn_id run) (db_sessions (site_db x))
    \<and> he_completed h + he_incomplete h = he_enrolled h"
proof -
  define ss where "ss = sessions_in_order (rn_id run) (site_db x)"
  obtain rows h where r: "report_rows env k n run (site_db x) = Inr (rows, h)"
    and rel: "list_all2 (row_of ss) (assigned (rn_id run) (site_db x)) rows"
    and h: "he_enrolled h = tbl_count (\<lambda>s. ss_run s = rn_id run) (db_sessions (site_db x))"
      "he_completed h + he_incomplete h = he_enrolled h"
    using report_rows_ok [OF reachable_db(1) [OF assms(1,2)] results_reachable [OF assms(1,2)], of env run f k n] assms(3,4)
    unfolding ss_def by blast
  have "map (\<lambda>x. (ss_id (fst x), fst (snd x))) (assigned (rn_id run) (site_db x)) = map (\<lambda>r. (ar_session r, ar_index r)) rows"
    using rel by (induction) (auto simp: row_ok_def row_of_def)
  then have keys: "map (\<lambda>r. (ar_session r, ar_index r)) rows =
        concat (map (\<lambda>s. map (Pair (ss_id s)) [0..<length (ss_tasks s)]) (sessions_in_order (rn_id run) (site_db x)))"
    by (simp only: assigned_keys)
  have "\<forall>r \<in> set rows. \<exists>s \<in> set ss. row_ok s (ar_index r) r"
    using rel by (induction) (auto simp: row_of_def row_ok_def)
  then have "\<forall>r \<in> set rows. \<exists>s \<in> set (db_sessions (site_db x)). ss_run s = rn_id run \<and> row_ok s (ar_index r) r"
    unfolding ss_def sessions_in_order_def by fastforce
  with r keys h show ?thesis by (intro exI [of _ rows] exI [of _ h]) simp
qed

text \<open>C13: The report of a run can be computed in every reachable state in which its frozen version loads,
  and it has exactly one row for each task assigned to each session of the run, in the order of
  enrolment and of the tasks. A row before the session's current task shows a finished outcome, the
  row of the current task is unfinished or unreached, and every later row is unreached; a row is shown
  exactly when it is not unreached; the enrolled sessions are those of the run and split into complete
  and incomplete ones.\<close>

theorem report_matches_progress:
  assumes "fresh_site x0" "site_reach sha x0 x" "en_sha env = sha"
    "load_snapshot sha (site_db x) (rn_version run) = Inr f"
  shows "\<exists>rows h. report_rows env k n run (site_db x) = Inr (rows, h)
    \<and> map (\<lambda>r. (ar_session r, ar_index r)) rows =
        concat (map (\<lambda>s. map (Pair (ss_id s)) [0..<length (ss_tasks s)]) (sessions_in_order (rn_id run) (site_db x)))
    \<and> (\<forall>r \<in> set rows. \<exists>s \<in> set (db_sessions (site_db x)). ss_run s = rn_id run \<and> row_ok s (ar_index r) r)
    \<and> he_enrolled h = tbl_count (\<lambda>s. ss_run s = rn_id run) (db_sessions (site_db x))
    \<and> he_completed h + he_incomplete h = he_enrolled h"
  using assms by (rule report_rows_progress)

text \<open>The rows of a summary, and what its parts add up to.\<close>

lemma row_outcomes:
  assumes "row_ok s i r"
  shows "ar_outcome r \<in> {''selected'', ''gave_up'', ''skipped'', ''unfinished'', ''unreached''}"
    "ar_shown r = (ar_outcome r \<noteq> ''unreached'')"
  using assms by (auto simp: row_ok_def split: if_splits)

lemma outcome_parts:
  assumes "\<And>r. r \<in> set rs \<Longrightarrow> ar_outcome r \<in> {''selected'', ''gave_up'', ''skipped'', ''unfinished'', ''unreached''}"
    "\<And>r. r \<in> set rs \<Longrightarrow> ar_shown r = (ar_outcome r \<noteq> ''unreached'')"
  shows "length (filter (\<lambda>r. ar_outcome r = ''selected'' \<and> ar_correct r = Some True) rs)
      + length (filter (\<lambda>r. ar_outcome r = ''selected'' \<and> ar_correct r \<noteq> Some True) rs)
      + length (filter (\<lambda>r. ar_outcome r = ''gave_up'') rs) + length (filter (\<lambda>r. ar_outcome r = ''skipped'') rs)
      + length (filter (\<lambda>r. ar_outcome r = ''unfinished'') rs) + length (filter (\<lambda>r. ar_outcome r = ''unreached'') rs) = length rs"
    "length (filter ar_shown rs) + length (filter (\<lambda>r. ar_outcome r = ''unreached'') rs) = length rs"
  using assms by (induction rs) auto

lemma summary_sums:
  assumes "counts_ok rs s" "\<And>r. r \<in> set rs \<Longrightarrow> \<exists>q i. row_ok q i r"
    "su_yield s = (if su_assigned s > 0 then of_nat (su_correct s) / of_nat (su_assigned s) else 0)"
    "su_rate s = (if su_shown s > 0 then of_nat (su_correct s) / of_nat (su_shown s) else 0)"
  shows "su_correct s + su_incorrect s + su_gave_up s + su_skipped s + su_unfinished s + su_unreached s = su_assigned s
    \<and> su_shown s + su_unreached s = su_assigned s
    \<and> su_yield s * of_nat (su_assigned s) = of_nat (su_correct s) \<and> su_rate s * of_nat (su_shown s) = of_nat (su_correct s)"
proof -
  have o: "ar_outcome r \<in> {''selected'', ''gave_up'', ''skipped'', ''unfinished'', ''unreached''}"
    "ar_shown r = (ar_outcome r \<noteq> ''unreached'')" if "r \<in> set rs" for r
    using assms(2) [OF that] row_outcomes by blast+
  note parts = outcome_parts [of rs, OF o]
  have "su_correct s \<le> su_assigned s" "su_correct s \<le> su_shown s" using assms(1) parts by (auto simp: counts_ok_def)
  then show ?thesis using assms(1,3,4) parts by (auto simp: counts_ok_def)
qed

text \<open>C14: Every summary of the results counts the rows of the report that belong to its arm, or to its task
  in its arm: each of correct, incorrect, given up, skipped, unfinished and unreached is the number of these
  rows with that outcome, so that the six of them add up to assigned and all but the unreached were shown;
  participants and completed are the numbers of sessions of these rows and of the complete ones among them,
  the two rates are correct over assigned and correct over shown, and the median is that of the times of the
  rows that were selected or given up with complete timing.\<close>

theorem summary_partitions:
  assumes "fresh_site x0" "site_reach sha x0 x" "en_sha env = sha"
    "results env k n i (site_db x) = Inr (h, arms, tasks)" "s \<in> set (arms @ tasks)"
  shows "\<exists>run rows rs. load_run rn_id i (site_db x) = Inr run \<and> report_rows env k n run (site_db x) = Inr (rows, h)
    \<and> rs = filter (\<lambda>r. ar_code r = su_code s \<and> (su_task s = [] \<or> ar_task r = su_task s)) rows
    \<and> su_assigned s = length rs \<and> su_shown s = length (filter ar_shown rs)
    \<and> su_correct s = length (filter (\<lambda>r. ar_outcome r = ''selected'' \<and> ar_correct r = Some True) rs)
    \<and> su_incorrect s = length (filter (\<lambda>r. ar_outcome r = ''selected'' \<and> ar_correct r \<noteq> Some True) rs)
    \<and> su_gave_up s = length (filter (\<lambda>r. ar_outcome r = ''gave_up'') rs)
    \<and> su_skipped s = length (filter (\<lambda>r. ar_outcome r = ''skipped'') rs)
    \<and> su_unfinished s = length (filter (\<lambda>r. ar_outcome r = ''unfinished'') rs)
    \<and> su_unreached s = length (filter (\<lambda>r. ar_outcome r = ''unreached'') rs)
    \<and> su_participants s = card (ar_session ` set rs) \<and> su_completed s = card (ar_session ` {r \<in> set rs. ar_completed r})
    \<and> su_median s = median (map (\<lambda>r. the (ar_navigation r)) (filter (\<lambda>r. ar_quality r = ''complete''
         \<and> ar_navigation r \<noteq> None \<and> (ar_outcome r = ''selected'' \<or> ar_outcome r = ''gave_up'')) rs))
    \<and> su_correct s + su_incorrect s + su_gave_up s + su_skipped s + su_unfinished s + su_unreached s = su_assigned s
    \<and> su_shown s + su_unreached s = su_assigned s \<and> su_completed s \<le> su_participants s \<and> su_participants s \<le> su_assigned s
    \<and> su_yield s * of_nat (su_assigned s) = of_nat (su_correct s) \<and> su_rate s * of_nat (su_shown s) = of_nat (su_correct s)"
proof -
  obtain run rows where r: "load_run rn_id i (site_db x) = Inr run" "report_rows env k n run (site_db x) = Inr (rows, h)"
    and all: "arms = map (\<lambda>arm. summarize arm [] rows) (sorted_values (rn_arms run))"
      "tasks = concat (map (\<lambda>arm. map (\<lambda>task. summarize arm task rows) (sorted_values (rn_tasks run)))
        (sorted_values (rn_arms run)))"
    using assms(4) by (auto simp: results_def split: sum.splits)
  then obtain code task where s: "s = summarize code task rows" using assms(5) by auto
  obtain f where f: "load_snapshot sha (site_db x) (rn_version run) = Inr f"
    using r(2) assms(3) by (auto simp: report_rows_def Let_def split: sum.splits)
  define rs where "rs = filter (\<lambda>r. ar_code r = su_code s \<and> (su_task s = [] \<or> ar_task r = su_task s)) rows"
  have rs: "filter (picked code task) rows = rs" by (simp add: rs_def s picked_def [abs_def])
  note c = summarize_ok [of code task rows, unfolded rs, folded s]
  have "\<forall>r \<in> set rows. \<exists>q \<in> set (db_sessions (site_db x)). ss_run q = rn_id run \<and> row_ok q (ar_index r) r"
    using report_rows_progress [OF assms(1-3) f, of k n] r(2) by auto
  then have "\<exists>q i. row_ok q i r" if "r \<in> set rs" for r
    using that unfolding rs_def by fastforce
  note sums = summary_sums [OF c [THEN conjunct1] this]
  have rates: "su_yield s = (if su_assigned s > 0 then of_nat (su_correct s) / of_nat (su_assigned s) else 0)"
    "su_rate s = (if su_shown s > 0 then of_nat (su_correct s) / of_nat (su_shown s) else 0)"
    by (simp_all add: s summarize_def Let_def)
  have "card (ar_session ` {r \<in> set rs. ar_completed r}) \<le> card (ar_session ` set rs)" by (intro card_mono) auto
  moreover have "card (ar_session ` set rs) \<le> length rs"
    using card_image_le [of "set rs" ar_session] card_length [of rs] by simp
  ultimately show ?thesis
    using sums [OF _ rates] c r
    by (intro exI [of _ run] exI [of _ rows] exI [of _ rs]) (simp add: rs_def [symmetric] counts_ok_def timed_def [abs_def])
qed

end
