(* ===== verification/Examples.thy ===== *)
theory Examples
  imports ParticipantTheorems LoginLimit
begin

text \<open>
  Concrete instances. Every theorem with hypotheses is applied here to concrete data on which they
  hold, with the definitions evaluated by the simplifier.
\<close>

section \<open>A study with one page\<close>

definition sample_tree :: "node list" where
  "sample_tree = [Node ''a'' ''A'' ''p'' []]"

definition sample_text :: string where
  "sample_text = ''- [A](page:a/p)'' @ [newline]"

lemma sample_lines: "scan_lines max_tree_bytes sample_text = ([''- [A](page:a/p)''], False)"
  by (simp add: sample_text_def scan_lines.simps max_tree_bytes_def newline_def drop_cr_def)

lemma sample_parse: "parse_tree sample_text = Inr sample_tree"
proof -
  have "valid_utf8 sample_text" by code_simp
  moreover have "length sample_text = 16" by (simp add: sample_text_def)
  moreover have "case parse_lines parse_init [''- [A](page:a/p)''] of Inl e \<Rightarrow> False
      | Inr st \<Rightarrow> ps_entries st \<noteq> [] \<and> (case build 0 (ps_entries st) of
          Inl e \<Rightarrow> False | Inr (nodes, _) \<Rightarrow> nodes = sample_tree)"
    by code_simp
  ultimately show ?thesis
    unfolding parse_tree_def sample_lines by (auto simp: max_tree_bytes_def split: sum.splits)
qed

theorem parse_tree_sound_witness:
  "parse_tree sample_text = Inr sample_tree \<and> wf_tree sample_tree
   \<and> flatten 0 sample_tree = List.map_filter menu_placement (fst (scan_lines max_tree_bytes sample_text))"
  using parse_tree_sound [OF sample_parse] sample_parse by simp

theorem parse_tree_render_witness:
  "render sample_tree = sample_text \<and> parse_tree (render sample_tree) = Inr sample_tree"
proof
  show r: "render sample_tree = sample_text" by code_simp
  have "wf_tree sample_tree" "labels_utf8 sample_tree" by code_simp+
  then show "parse_tree (render sample_tree) = Inr sample_tree"
    by (rule parse_tree_render) (simp add: r sample_text_def max_tree_bytes_def)
qed

definition sample_task :: "string \<Rightarrow> string \<Rightarrow> task" where
  "sample_task i band = \<lparr>t_id = i, t_prompt = ''Find'', t_difficulty = band,
     t_answers = [(''x'', [''p'']), (''y'', [''p''])]\<rparr>"

definition sample_bundle :: study_bundle where
  "sample_bundle = \<lparr>b_config = \<lparr>schema_version = 1, cfg_slug = ''s'', cfg_title = ''T'', cfg_instructions = [],
     tasks_per_session = 3,
     cfg_variants = [\<lparr>v_id = ''x'', v_name = ''X'', v_tree = ''x.md''\<rparr>, \<lparr>v_id = ''y'', v_name = ''Y'', v_tree = ''x.md''\<rparr>],
     cfg_tasks = [sample_task ''t'' ''easy'', sample_task ''u'' ''medium'', sample_task ''v'' ''hard''],
     cfg_panels = [[''t'', ''u'', ''v'']], cfg_provenance = []\<rparr>, b_trees = [(''x.md'', sample_text)]\<rparr>"

lemma sample_variants: "check_variants sample_bundle [] (cfg_variants (b_config sample_bundle)) =
    Inr [(''y'', sample_tree), (''x'', sample_tree)]"
proof -
  have "map_of (b_trees sample_bundle) ''x.md'' = Some sample_text" by (simp add: sample_bundle_def)
  moreover have "is_identifier ''x''" "is_identifier ''y''" "safe_tree_name ''x.md''"
    "trim_space ''X'' = ''X''" "trim_space ''Y'' = ''Y''" by code_simp+
  ultimately show ?thesis
    by (simp add: sample_bundle_def check_variant_def sample_parse)
qed

lemma sample_valid: "\<exists>s. validate (\<lambda>t. ''h'') sample_bundle = Inr s"
proof -
  define c where "c = b_config sample_bundle"
  define trees where "trees = [(''y'', sample_tree), (''x'', sample_tree)]"
  have "check_config c = None"
  proof -
    have "is_identifier ''s''" "trim_space ''T'' = ''T''" by code_simp+
    then show ?thesis by (simp add: check_config_def c_def sample_bundle_def)
  qed
  moreover have "check_unused sample_bundle = None" by code_simp
  moreover have "check_tasks c trees [] (cfg_tasks c) = None"
  proof -
    have "is_identifier ''t''" "is_identifier ''u''" "is_identifier ''v''" "trim_space ''Find'' = ''Find''"
      by code_simp+
    moreover have "check_answer_sets trees (sample_task i band) (cfg_variants c) = None" for i band
      unfolding trees_def c_def sample_task_def sample_tree_def sample_bundle_def by code_simp
    ultimately show ?thesis
      unfolding c_def sample_bundle_def
      by (simp add: check_task_def difficulties_def sample_task_def del: check_answer_sets.simps)
  qed
  moreover have "check_panels c 1 (cfg_panels c) = None" unfolding c_def by code_simp
  moreover have "check_exposure c = None" unfolding c_def by code_simp
  moreover have "length (bundle_json sample_bundle) \<le> max_bundle_bytes"
  proof -
    have "length (bundle_json sample_bundle) = 490" by code_simp
    then show ?thesis by (simp add: max_bundle_bytes_def)
  qed
  ultimately show ?thesis
    using sample_variants by (simp add: validate_def c_def trees_def Let_def not_less)
qed


theorem validated_balance_witness:
  "\<exists>s. validate (\<lambda>t. ''h'') sample_bundle = Inr s \<and>
    (\<exists>n > 0. (\<forall>t \<in> set (cfg_tasks (b_config sample_bundle)). exposure (b_config sample_bundle) (t_id t) = n)
    \<and> int (n * length (cfg_tasks (b_config sample_bundle)))
        = int (length (cfg_panels (b_config sample_bundle))) * tasks_per_session (b_config sample_bundle)
    \<and> (\<forall>band \<in> set difficulties.
         3 * length (filter (\<lambda>t. t_difficulty t = band) (cfg_tasks (b_config sample_bundle)))
           = length (cfg_tasks (b_config sample_bundle))))"
proof -
  obtain s where s: "validate (\<lambda>t. ''h'') sample_bundle = Inr s" using sample_valid by blast
  from s validated_balance [OF s] show ?thesis by blast
qed

section \<open>Limits\<close>

theorem rate_limit_quota_witness:
  "passed ''k'' [] [\<lparr>r_now = 3, r_key = ''k'', r_limit = 1, r_window = 10\<rparr>,
      \<lparr>r_now = 4, r_key = ''k'', r_limit = 1, r_window = 10\<rparr>] \<le> 1"
proof -
  have "passed ''k'' [] [\<lparr>r_now = 3, r_key = ''k'', r_limit = 1, r_window = 10\<rparr>,
      \<lparr>r_now = 4, r_key = ''k'', r_limit = 1, r_window = 10\<rparr>] \<le> (if live 2 [] ''k'' = None then 1 else 2 * 1)"
    by (rule rate_limit_quota [where W = 10]) (auto simp: limiter_ok_def)
  then show ?thesis by (simp add: live_def)
qed

theorem replay_spares_participant_witness:
  "live 5 (fst (limit_participant 5 ''r'' ''i'' ''start'' True [])) (participant_key ''start'' ''i'') = None"
proof -
  have "limiter_ok []" by (simp add: limiter_ok_def)
  from replay_spares_participant [OF this, of 5 "''r''" "''i''" "''start''" "''start''" "''i''"]
  show ?thesis by (simp add: live_def)
qed

section \<open>Shuffling and allocation\<close>

theorem shuffle_uniform_witness:
  "\<exists>!rs. draws 1 rs \<and> shuffle rs [''a'', ''b''] = Some [''b'', ''a'']"
proof -
  have d: "distinct [''a'', ''b'']" and m: "mset [''b'', ''a''] = mset [''a'', ''b'']" by simp_all
  from shuffle_uniform [OF d, THEN conjunct2, rule_format, OF m] show ?thesis by simp
qed

section \<open>A tree of two levels and a log\<close>

definition sample_forest :: "node list" where
  "sample_forest = [Node ''a'' ''A'' [] [Node ''b'' ''B'' ''p'' []]]"

definition sample_ids :: "(string \<times> string) list" where
  "sample_ids = [(''a'', ''m''), (''b'', ''n'')]"

definition sample_index :: node_index where
  "sample_index = index_nodes sample_forest sample_ids"

lemma sample_good_ids: "good_ids sample_ids sample_forest"
  by code_simp

theorem index_nodes_exact_witness:
  "map_of (index_nodes sample_forest sample_ids) ''n''
     = Some \<lparr>in_node = Node ''b'' ''B'' ''p'' [], in_parent = ''m''\<rparr>"
  unfolding index_nodes_exact [OF sample_good_ids] by (simp add: sample_forest_def sample_ids_def str_get_def)

theorem public_tree_matches_index_witness:
  "pn_id ` set (public_nodes (nodes_for sample_forest sample_ids)) = {''m'', ''n''}
    \<and> {x. indexed (index_nodes sample_forest sample_ids) x} = {''m'', ''n''}"
proof -
  have "pn_id ` set (public_nodes (nodes_for sample_forest sample_ids)) = {''m'', ''n''}" by code_simp
  with public_tree_matches_index [OF sample_good_ids] show ?thesis by simp
qed

definition sample_event :: "int \<Rightarrow> string \<Rightarrow> string \<Rightarrow> int \<Rightarrow> string \<Rightarrow> event" where
  "sample_event k ty nd t oc = \<lparr>e_id = ''e'' @ decimal (nat k), e_seq = k, e_type = ty, e_node = nd, e_elapsed = t,
     e_epoch = EpochString ''P'', e_visible = Some True, e_outcome = oc\<rparr>"

definition sample_log :: "event list" where
  "sample_log = [sample_event 1 ''tree_shown'' [] 0 [], sample_event 2 ''enter'' ''m'' 3 [],
     sample_event 3 ''select'' ''n'' 5 [], sample_event 4 ''submit'' ''n'' 9 ''selected'']"

lemma sample_log_ok: "log_ok sample_index sample_log"
proof -
  have "map e_seq sample_log = map (\<lambda>i. int i + 1) [0..<length sample_log]" by code_simp
  moreover have "distinct (map e_id sample_log)" by code_simp
  moreover have "length sample_log \<le> max_events_per_attempt" by (simp add: sample_log_def max_events_per_attempt_def)
  moreover have "\<forall>e \<in> set sample_log. event_ok sample_index e" by code_simp
  moreover have "e_type (hd sample_log) = ''tree_shown''" by code_simp
  ultimately show ?thesis by (simp add: log_ok_def)
qed

lemma sample_extend: "extend_log sample_index False 0 0 0 0 [] sample_log (Some (''selected'', ''n'')) =
    Inr (sample_log, bytes_of sample_log)"
proof -
  have "check_batch sample_log (Some (''selected'', ''n'')) = None" by code_simp
  moreover obtain st where "absorb sample_index False True sample_log (absorb_start []) = Inr st"
    "ab_saved st = sample_log" "ab_added st = bytes_of sample_log"
  proof -
    have "case absorb sample_index False True sample_log (absorb_start []) of Inl e \<Rightarrow> False
      | Inr st \<Rightarrow> ab_saved st = sample_log \<and> ab_added st = bytes_of sample_log" by code_simp
    then show thesis using that by (auto split: sum.splits)
  qed
  moreover have "bytes_of sample_log < 1000" by code_simp
  moreover have "ok (replay sample_index sample_log)" by code_simp
  ultimately show ?thesis
    by (auto simp: extend_log_Inr check_budgets_None event_limits elim: okE)
qed

theorem extend_log_sound_witness:
  "\<exists>new. sample_log = [] @ new \<and> log_ok sample_index sample_log \<and> bytes_of sample_log = bytes_of new
    \<and> (\<forall>e \<in> set sample_log. on_log sample_log e) \<and> ok (replay sample_index sample_log)"
  using extend_log_sound [OF log_ok_Nil sample_extend] by blast

theorem extend_log_idempotent_witness:
  "extend_log sample_index True (bytes_of sample_log) 0 (bytes_of sample_log) (bytes_of sample_log)
     sample_log sample_log (Some (''selected'', ''n'')) = Inr (sample_log, 0)"
  using extend_log_idempotent [OF log_ok_Nil sample_extend, of True] by simp

lemma sample_replay: "\<exists>rp. replay sample_index sample_log = Inr rp \<and> rp_current rp = ''m''"
proof -
  have "case replay sample_index sample_log of Inl e \<Rightarrow> False | Inr rp \<Rightarrow> rp_current rp = ''m''" by code_simp
  then show ?thesis by (auto split: sum.splits)
qed

theorem replay_refines_walk_witness:
  "\<exists>path. nav_run sample_index [] sample_log path \<and> ancestors_of sample_index ''m'' = Some path"
proof -
  obtain rp where rp: "replay sample_index sample_log = Inr rp" "rp_current rp = ''m''"
    using sample_replay by blast
  from replay_refines_walk [OF sample_log_ok rp(1)] rp(2) show ?thesis by simp
qed

theorem extend_log_returns_witness:
  "extend_log (index_nodes sample_forest sample_ids) False 0 0 0 0 [] sample_log None
     \<noteq> Inl (Fault ''the ancestors of a node form a cycle'')"
  by (rule extend_log_returns [OF sample_good_ids])

theorem replay_pages_contiguous_witness:
  "distinct (remdups_adj (map page sample_log)) \<and> clock_ok sample_log"
proof -
  obtain rp where "replay sample_index sample_log = Inr rp" using sample_replay by blast
  from replay_pages_contiguous [OF sample_log_ok this] show ?thesis by simp
qed

lemma sample_metrics: "\<exists>m. event_metrics_v1 sample_log sample_index ''n'' ''selected'' True = Inr m
    \<and> m_navigation m = Some 9 \<and> m_direct m"
proof -
  have "case event_metrics_v1 sample_log sample_index ''n'' ''selected'' True of Inl e \<Rightarrow> False
    | Inr m \<Rightarrow> m_navigation m = Some 9 \<and> m_direct m" by code_simp
  then show ?thesis by (auto split: sum.splits)
qed

theorem navigation_time_complete_witness:
  "\<exists>m. event_metrics_v1 sample_log sample_index ''n'' ''selected'' True = Inr m
    \<and> m_navigation m = Some 9 \<and> m_quality m = ''complete'' \<and> m_epochs m = 1
    \<and> 9 = e_elapsed (last sample_log) - e_elapsed (hd sample_log)"
proof -
  obtain m where m: "event_metrics_v1 sample_log sample_index ''n'' ''selected'' True = Inr m"
    "m_navigation m = Some 9" using sample_metrics by blast
  from navigation_time_complete [OF sample_log_ok m] m show ?thesis by blast
qed

theorem observed_time_bounds_witness:
  "\<exists>m. event_metrics_v1 sample_log sample_index ''n'' ''selected'' True = Inr m \<and> 0 \<le> m_observed m
    \<and> m_observed m < 2 ^ 63"
proof -
  obtain rp where rp: "replay sample_index sample_log = Inr rp" using sample_replay by blast
  obtain m where m: "event_metrics_v1 sample_log sample_index ''n'' ''selected'' True = Inr m"
    using sample_metrics by blast
  from observed_time_bounds [OF sample_log_ok rp m] m show ?thesis by blast
qed

theorem direct_attempt_walk_witness:
  "\<exists>m. event_metrics_v1 sample_log sample_index ''n'' ''selected'' True = Inr m \<and> m_direct m
    \<and> ancestors_of sample_index ''m''
        = Some (rev (map e_node (filter (\<lambda>e. e_type e = ''enter'') sample_log)))"
proof -
  obtain rp where rp: "replay sample_index sample_log = Inr rp" "rp_current rp = ''m''"
    using sample_replay by blast
  obtain m where m: "event_metrics_v1 sample_log sample_index ''n'' ''selected'' True = Inr m" "m_direct m"
    using sample_metrics by blast
  from direct_attempt_walk [OF sample_log_ok rp(1) m(1)] m rp(2) show ?thesis by auto
qed

end
