(* ===== verification/ParticipantExamples.thy ===== *)
theory ParticipantExamples
  imports Examples
begin

text \<open>
  A participant's visit, from enrolment to the finished task, executed on a concrete database: the
  witness that the reachability theorems of \<open>ParticipantTheorems\<close> are about real sequences.
\<close>

section \<open>The run\<close>

definition demo_config :: config where
  "demo_config = \<lparr>schema_version = 1, cfg_slug = ''s'', cfg_title = ''T'', cfg_instructions = [],
     tasks_per_session = 3,
     cfg_variants = [\<lparr>v_id = ''x'', v_name = ''X'', v_tree = ''x.md''\<rparr>],
     cfg_tasks = [\<lparr>t_id = ''t'', t_prompt = ''Find'', t_difficulty = ''easy'', t_answers = [(''x'', [''p''])]\<rparr>],
     cfg_panels = [[''t'']], cfg_provenance = []\<rparr>"

definition demo_snapshot :: snapshot where
  "demo_snapshot = \<lparr>s_bundle = \<lparr>b_config = demo_config, b_trees = []\<rparr>, s_hash = ''h'',
     s_trees = [(''x'', sample_forest)]\<rparr>"

definition demo_study :: frozen_snapshot where
  "demo_study = \<lparr>f_snapshot = demo_snapshot, f_hash = ''h'', f_policy = policy_v1\<rparr>"

definition demo_run :: run_row where
  "demo_run = \<lparr>rn_id = ''r'', rn_slug = ''run'', rn_version = ''v'', rn_mode = ''real'', rn_status = ''open'',
     rn_suspended = False, rn_created = 0, rn_arms = [(''x'', ''A01'')], rn_tasks = [(''t'', ''T01'')], rn_allocation = [], rn_cap = 2,
     rn_recruitment = ''public'', rn_retention_days = 90, rn_closed_at = None, rn_target_at = None,
     rn_purged_at = None, rn_purge_pending = False, rn_event_bytes = 0, rn_data_bytes = 0\<rparr>"

definition demo_version :: version_row where
  "demo_version = \<lparr>vr_id = ''v'', vr_hash = ''h'', vr_content_hash = ''h'', vr_title = ''T'',
     vr_slug = ''s'', vr_snapshot = demo_snapshot, vr_policy = Some policy_v1, vr_created = 0\<rparr>"

definition demo_db :: database where
  "demo_db = \<lparr>db_versions = [demo_version], db_runs = [demo_run], db_sessions = [], db_attempts = [],
     db_events = [], db_commands = [], db_invitations = []\<rparr>"

definition demo_sha :: "string \<Rightarrow> string" where
  "demo_sha s = ''h''"

definition demo_env :: "string list \<Rightarrow> environment" where
  "demo_env ids = \<lparr>en_sha = demo_sha, en_identity = (\<lambda>r t. ''i''), en_clock = (\<lambda>k. 5),
     en_random = (\<lambda>k. ids ! k), en_draws = [], en_order_draws = []\<rparr>"

definition demo_token :: string where
  "demo_token = ''aaaaaaaaaaaaaaaaaaaaaaaaaaaaaaaaaaaaaaaaaaa''"

definition demo_server :: server where
  "demo_server = \<lparr>sv_db = demo_db, sv_windows = []\<rparr>"

lemma demo_env_simps [simp]: "en_sha (demo_env ids) = demo_sha" "en_identity (demo_env ids) r t = ''i''"
  "en_clock (demo_env ids) k = 5" "en_random (demo_env ids) k = ids ! k" "en_draws (demo_env ids) = []"
  "en_order_draws (demo_env ids) = []"
  by (simp_all add: demo_env_def)

lemma demo_anonymous: "anonymous (Some demo_token) = Inr demo_token"
  by code_simp

lemma demo_load_snapshot: "db_versions db = [demo_version] \<Longrightarrow> load_snapshot demo_sha db ''v'' = Inr demo_study"
  by (simp add: load_snapshot_def tbl_lookup_def demo_version_def demo_snapshot_def demo_study_def demo_sha_def
      decode_policy_def publication_hash_def check_policy_def) (simp add: policy_v1_def)

lemma demo_policy: "resolve_policy (f_policy demo_study) = Inr \<lparr>pe_allocate = allocate_v1, pe_order = shuffle,
    pe_correct = correct_v1, pe_metrics = event_metrics_v1\<rparr>"
  by (simp add: resolve_policy_Inr demo_study_def)

section \<open>Joining\<close>

definition demo_join :: join_request where
  "demo_join = \<lparr>jr_slug = ''run'', jr_cookie = Some demo_token, jr_experience = [], jr_familiarity = [],
     jr_invite = []\<rparr>"

definition demo_session :: session_row where
  "demo_session = \<lparr>ss_id = ''s'', ss_run = ''r'', ss_identity = ''i'', ss_variant = ''x'', ss_panel = 0,
     ss_tasks = [''t''], ss_nodes = put ''b'' ''n'' [(''a'', ''m'')], ss_public_tasks = [(''t'', ''q'')], ss_experience = [],
     ss_familiarity = [], ss_index = 0, ss_created = 5, ss_completed = None, ss_event_bytes = 0,
     ss_storage_bytes = 31\<rparr>"

definition demo_db1 :: database where
  "demo_db1 = demo_db\<lparr>db_sessions := [demo_session], db_runs := [demo_run\<lparr>rn_data_bytes := 31\<rparr>]\<rparr>"

definition demo_windows1 :: windows where
  "demo_windows1 = fst (limit_participant 5 ''r'' ''i'' ''join'' False [])"

lemma demo_bytes: "storage_bytes [''t''] (put ''b'' ''n'' [(''a'', ''m'')]) [(''t'', ''q'')] [] [] = 31"
  by code_simp

lemma demo_new_session: "new_session (demo_env [''s'', ''m'', ''n'', ''q'']) \<lparr>pe_allocate = allocate_v1, pe_order = shuffle,
    pe_correct = correct_v1, pe_metrics = event_metrics_v1\<rparr> demo_study demo_run ''i'' demo_join = Inr (demo_session, [])"
  using demo_bytes
  by (simp add: new_session_def next_allocation_def allocate_v1_def demo_run_def demo_study_def demo_snapshot_def
      demo_config_def demo_join_def demo_session_def sample_forest_def allocation_block_def shuffle_def f_config_def
      f_tree_def put_def numeral_2_eq_2 numeral_3_eq_3)

lemma demo_enrol: "enrol (demo_env [''s'', ''m'', ''n'', ''q'']) \<lparr>pe_allocate = allocate_v1, pe_order = shuffle,
    pe_correct = correct_v1, pe_metrics = event_metrics_v1\<rparr> demo_study demo_run ''i'' demo_join demo_db
    = Inr (demo_session, demo_db1)"
  unfolding enrol_def demo_new_session
  by (simp add: demo_run_def demo_db_def demo_db1_def tbl_count_def insert_session_Inr spend_invitation_def event_limits
      demo_session_def tbl_update_def)

lemma demo_pass: "snd (limit_participant 5 ''r'' ''i'' ''join'' False []) = None"
  by (simp add: limit_participant_def quotas_def allow_def max_rate_windows_def put_def)

lemma demo_joins:
  assumes "limit_participant 5 ''r'' ''i'' ''join'' False w = (w', None)"
  shows "\<exists>view. join (demo_env [''s'', ''m'', ''n'', ''q'']) demo_join \<lparr>sv_db = demo_db, sv_windows = w\<rparr> =
    (Inr view, \<lparr>sv_db = demo_db1, sv_windows = w'\<rparr>)"
proof -
  have "\<exists>view. make_session demo_db1 demo_session demo_study = Inr view"
    by (simp add: make_session_def Let_def demo_db1_def demo_db_def demo_session_def tbl_lookup_def task_view_def)
  then obtain view where "make_session demo_db1 demo_session demo_study = Inr view" by blast
  moreover have "load_run rn_slug ''run'' demo_db = Inr demo_run"
    by (simp add: load_run_def tbl_lookup_def demo_db_def demo_run_def)
  moreover have "load_session demo_db ''r'' ''i'' = Inl (Problem 404 ''not enrolled in this run'')"
    by (simp add: load_session_def demo_db_def tbl_lookup_def)
  moreover have "rn_id demo_run = ''r''" "rn_version demo_run = ''v''" "rn_status demo_run = ''open''"
    "db_versions demo_db = [demo_version]" by (simp_all add: demo_run_def demo_db_def)
  ultimately show ?thesis
    using assms demo_enrol demo_anonymous demo_policy demo_load_snapshot [of demo_db]
    by (simp add: join_def demo_join_def valid_demographics_def)
qed

lemma demo_joined: "\<exists>view. join (demo_env [''s'', ''m'', ''n'', ''q'']) demo_join demo_server =
    (Inr view, \<lparr>sv_db = demo_db1, sv_windows = demo_windows1\<rparr>)"
  unfolding demo_server_def
  by (rule demo_joins)
    (use demo_pass in \<open>cases "limit_participant 5 ''r'' ''i'' ''join'' False []"; auto simp: demo_windows1_def\<close>)

section \<open>Starting the task\<close>

definition demo_start :: start_request where
  "demo_start = \<lparr>sr_slug = ''run'', sr_cookie = Some demo_token, sr_command = ''c1'', sr_task = ''q''\<rparr>"

definition demo_attempt :: attempt_row where
  "demo_attempt = new_attempt ''k'' demo_session ''t'' 5 policy_v1"

definition demo_db2 :: database where
  "demo_db2 = demo_db1\<lparr>db_attempts := [demo_attempt], db_commands := [\<lparr>cm_session = ''s'', cm_command = ''c1'',
     cm_operation = ''start'', cm_hash = ''h'', cm_response = 0, cm_attempt = Some ''k'', cm_created = 5,
     cm_expires = 5 + receipt_lifetime\<rparr>]\<rparr>"

definition demo_seen :: "string \<Rightarrow> nat \<Rightarrow> nat \<Rightarrow> windows \<Rightarrow> windows" where
  "demo_seen operation v w l = put (participant_key operation ''i'') \<lparr>w_expires = 5 + w, w_count = 1\<rparr>
     (put (run_key operation ''r'') \<lparr>w_expires = 5 + v, w_count = 1\<rparr> l)"

lemma demo_windows1: "demo_windows1 = demo_seen ''join'' hour hour []"
  unfolding demo_windows1_def demo_seen_def
  by (subst unseen_participant_passes) ((simp add: quotas_def max_rate_windows_def)+)

definition demo_windows2 :: windows where
  "demo_windows2 = demo_seen ''start'' minute hour demo_windows1"

lemma demo_fresh_keys: "run_key ''start'' ''r'' \<noteq> run_key ''join'' ''r''" "run_key ''finish'' ''r'' \<noteq> run_key ''join'' ''r''"
  "run_key ''finish'' ''r'' \<noteq> run_key ''start'' ''r''" "participant_key ''start'' ''i'' \<noteq> participant_key ''join'' ''i''"
  "participant_key ''finish'' ''i'' \<noteq> participant_key ''join'' ''i''"
  "participant_key ''finish'' ''i'' \<noteq> participant_key ''start'' ''i''"
  by (simp_all add: run_key_def participant_key_def)

lemma demo_limit2: "limit_participant 5 ''r'' ''i'' ''start'' False demo_windows1 = (demo_windows2, None)"
  unfolding demo_windows2_def demo_seen_def
  by (rule unseen_participant_passes)
    ((simp add: quotas_def max_rate_windows_def demo_windows1 demo_seen_def map_of_put demo_fresh_keys
      run_key_participant_key [THEN not_sym] put_def)+)

lemma demo_owned:
  assumes "db_versions db = [demo_version]" "db_runs db = [r]" "db_sessions db = [s]" "ss_run s = ''r''"
    "ss_identity s = ''i''" "rn_id r = ''r''" "rn_slug r = ''run''" "rn_version r = ''v''" "\<not> rn_suspended r"
  shows "owned (demo_env ids) db ''run'' demo_token = Inr (s, demo_study, r, ''i'')"
proof -
  have "load_run rn_slug ''run'' db = Inr r" using assms by (simp add: load_run_def tbl_lookup_def)
  moreover have "load_session db ''r'' ''i'' = Inr s" using assms by (simp add: load_session_def tbl_lookup_def)
  ultimately show ?thesis using demo_load_snapshot [OF assms(1)] assms(6,8) by (simp add: owned_def)
qed

lemma demo_start_task: "\<exists>view. start_task (demo_env [''k'']) demo_start demo_session demo_study demo_db1 = Inr (view, demo_db2)"
  by (simp add: start_task_def demo_start_def demo_session_def demo_db1_def demo_db_def insert_attempt_def tbl_count_def
      tbl_lookup_def tbl_insert_def save_receipt_def insert_command_def make_session_def task_view_def demo_study_def
      decode_policy_def check_policy_def policy_v1_def demo_db2_def demo_attempt_def new_attempt_def Let_def
      max_command_receipts_def tbl_delete_def demo_sha_def str_get_def demo_run_def)

definition demo_server2 :: server where
  "demo_server2 = \<lparr>sv_db = demo_db2, sv_windows = demo_windows2\<rparr>"

lemma demo_started: "\<exists>view. start (demo_env [''k'']) demo_start \<lparr>sv_db = demo_db1, sv_windows = demo_windows1\<rparr> =
    (Inr view, demo_server2)"
proof -
  have "owned (demo_env [''k'']) demo_db1 ''run'' demo_token = Inr (demo_session, demo_study, demo_run\<lparr>rn_data_bytes := 31\<rparr>, ''i'')"
    by (rule demo_owned) (simp_all add: demo_db1_def demo_db_def demo_run_def demo_session_def)
  moreover have "receipt 5 ''s'' ''c1'' ''start'' ''h'' demo_db1 = Inr (None, demo_db1)"
    by (simp add: receipt_def tbl_lookup_def demo_db1_def demo_db_def)
  moreover have "command_id ''c1'' = None" by code_simp
  moreover have "rn_status (demo_run\<lparr>rn_data_bytes := 31\<rparr>) = ''open''" "rn_id (demo_run\<lparr>rn_data_bytes := 31\<rparr>) = ''r''"
    "ss_id demo_session = ''s''" by (simp_all add: demo_run_def demo_session_def)
  ultimately show ?thesis
    using demo_start_task demo_anonymous demo_limit2
    by (auto simp: start_def demo_start_def demo_server2_def demo_sha_def)
qed

section \<open>Finishing the task\<close>

definition demo_finish :: finish_request where
  "demo_finish = \<lparr>fr_slug = ''run'', fr_cookie = Some demo_token, fr_attempt = ''k'', fr_command = ''c2'',
     fr_outcome = ''selected'', fr_node = ''n'', fr_events = Some sample_log\<rparr>"

lemma demo_extend: "extend_log sample_index False 0 31 0 31 [] sample_log (Some (''selected'', ''n'')) =
    Inr (sample_log, bytes_of sample_log)"
proof -
  have "check_batch sample_log (Some (''selected'', ''n'')) = None"
    "ok (replay sample_index sample_log)" using sample_extend by (auto simp: extend_log_Inr)
  moreover have "bytes_of sample_log < 1000" by code_simp
  ultimately show ?thesis
    using sample_extend by (auto simp: extend_log_Inr check_budgets_None event_limits)
qed

lemma demo_index: "session_index demo_study demo_session = sample_index"
  unfolding session_index_def sample_index_def demo_study_def demo_session_def demo_snapshot_def f_tree_def
  by code_simp

definition demo_rows :: "event_row list" where
  "demo_rows = map (\<lambda>e. \<lparr>ev_attempt = ''k'', ev_seq = e_seq e, ev_id = e_id e, ev_event = e, ev_received = 5\<rparr>) sample_log"

definition demo_db3 :: database where
  "demo_db3 = demo_db2\<lparr>db_events := demo_rows,
     db_attempts := [demo_attempt\<lparr>at_next_seq := 5, at_event_bytes := bytes_of sample_log\<rparr>],
     db_sessions := [demo_session\<lparr>ss_event_bytes := bytes_of sample_log\<rparr>],
     db_runs := [demo_run\<lparr>rn_event_bytes := bytes_of sample_log, rn_data_bytes := 31 + bytes_of sample_log\<rparr>]\<rparr>"

lemma demo_insert: "insert_events ''k'' (\<lambda>k. 5) sample_log demo_db2 = Inr (demo_db2\<lparr>db_events := demo_rows\<rparr>)"
  by (simp add: sample_log_def sample_event_def decimal.simps insert_event_def demo_db2_def demo_db1_def demo_db_def
      tbl_lookup_def tbl_insert_def demo_rows_def demo_attempt_def new_attempt_def)

lemma demo_append: "append_events (\<lambda>k. 5) demo_session demo_study demo_attempt sample_log (Some (''selected'', ''n'')) demo_db2
    = Inr (sample_log, demo_attempt\<lparr>at_next_seq := 5, at_event_bytes := bytes_of sample_log\<rparr>,
       demo_session\<lparr>ss_event_bytes := bytes_of sample_log\<rparr>, demo_db3)"
proof -
  have "load_events demo_db2 ''k'' = []" by (simp add: load_events_def demo_db2_def demo_db1_def demo_db_def)
  moreover have "length sample_log = 4" by (simp add: sample_log_def)
  ultimately show ?thesis
    using demo_extend demo_insert demo_index
    by (simp add: append_events_def session_index_def demo_attempt_def new_attempt_def demo_session_def demo_run_def
        demo_db3_def demo_db2_def demo_db1_def demo_db_def tbl_lookup_def tbl_update_def Let_def)
qed

definition demo_final :: session_row where
  "demo_final = demo_session\<lparr>ss_event_bytes := bytes_of sample_log, ss_index := 1, ss_completed := Some 5\<rparr>"

lemma demo_judge: "judge \<lparr>pe_allocate = allocate_v1, pe_order = shuffle, pe_correct = correct_v1, pe_metrics = event_metrics_v1\<rparr>
    demo_study demo_session demo_attempt sample_index demo_finish sample_log = Inr True"
  unfolding judge_def demo_study_def demo_session_def demo_attempt_def demo_finish_def demo_snapshot_def demo_config_def
    new_attempt_def
  by code_simp

text \<open>The tables that matter after the task is finished.\<close>

definition demo_after :: "attempt_metrics \<Rightarrow> database \<Rightarrow> bool" where
  "demo_after m db \<longleftrightarrow> db_sessions db = [demo_final] \<and> db_events db = demo_rows \<and> db_versions db = [demo_version]
    \<and> db_runs db = db_runs demo_db3
    \<and> db_attempts db = [finished_row demo_finish True m 5 0 (Some policy_v1)
          (demo_attempt\<lparr>at_next_seq := 5, at_event_bytes := bytes_of sample_log\<rparr>)]"

lemma demo_finish_attempt: "\<exists>view db m. finish_attempt (demo_env []) demo_finish demo_session demo_study demo_db2 = Inr (view, db)
    \<and> demo_after m db"
proof -
  obtain m where m: "event_metrics_v1 sample_log sample_index ''n'' ''selected'' True = Inr m"
    using sample_metrics by blast
  have a: "load_attempt demo_db2 ''s'' ''k'' = Inr demo_attempt"
    by (simp add: load_attempt_def demo_db2_def demo_attempt_def new_attempt_def tbl_lookup_def decode_policy_def
        check_policy_def demo_session_def) (simp add: policy_v1_def)
  have j: "judge \<lparr>pe_allocate = allocate_v1, pe_order = shuffle, pe_correct = correct_v1, pe_metrics = event_metrics_v1\<rparr>
    demo_study demo_session (demo_attempt\<lparr>at_next_seq := 5, at_event_bytes := b\<rparr>)
    sample_index demo_finish sample_log = Inr True" for b
    using demo_judge by (simp add: judge_def split del: if_split cong: if_cong)
  have f: "finish_update ''k'' g ''s'' 1 (Some 5) demo_db3 = demo_db3\<lparr>
      db_attempts := [g (demo_attempt\<lparr>at_next_seq := 5, at_event_bytes := bytes_of sample_log\<rparr>)],
      db_sessions := [demo_final]\<rparr>" for g
    by (simp add: finish_update_def demo_db3_def tbl_update_def demo_attempt_def new_attempt_def demo_session_def demo_final_def)
  have "\<exists>view. make_session db (demo_session\<lparr>ss_event_bytes := b, ss_index := 1\<rparr>) demo_study = Inr view" for db b
    by (simp add: make_session_def task_view_def demo_session_def)
  then obtain view where mk: "make_session db (demo_session\<lparr>ss_event_bytes := b, ss_index := 1\<rparr>) demo_study = Inr (view db b)" for db b
    by metis
  have sv: "\<exists>db'. save_receipt 5 5 5 5 ''s'' ''c2'' ''finish'' ''h'' 1 [] (demo_db3\<lparr>db_attempts := as, db_sessions := [demo_final]\<rparr>)
      = Inr db' \<and> db_sessions db' = [demo_final] \<and> db_events db' = demo_rows \<and> db_versions db' = [demo_version]
      \<and> db_runs db' = db_runs demo_db3 \<and> db_attempts db' = as" for as
    by (simp add: save_receipt_def demo_db3_def demo_db2_def demo_db1_def demo_db_def insert_command_def tbl_insert_def
        tbl_count_def tbl_delete_def max_command_receipts_def demo_final_def demo_session_def Let_def)
  have c: "completion (demo_session\<lparr>ss_event_bytes := b, ss_index := 1\<rparr>) 5 = Some 5" for b
    by (simp add: completion_def demo_session_def)
  have e: "server_elapsed 5 5 = 0" by (simp add: server_elapsed_def)
  have rows: "at_finished demo_attempt = None" "at_index demo_attempt = 0" "at_policy demo_attempt = Some (f_policy demo_study)"
    "at_id demo_attempt = ''k''" "ss_id demo_session = ''s''" "ss_index demo_session = 0" "f_policy demo_study = policy_v1"
    "at_started demo_attempt = 5"
    by (simp_all add: demo_attempt_def new_attempt_def demo_session_def demo_study_def)
  let ?as = "[finished_row demo_finish True m 5 0 (Some policy_v1)
      (demo_attempt\<lparr>at_next_seq := 5, at_event_bytes := bytes_of sample_log\<rparr>)]"
  obtain db' where db': "save_receipt 5 5 5 5 ''s'' ''c2'' ''finish'' ''h'' 1 [] (demo_db3\<lparr>db_attempts := ?as, db_sessions := [demo_final]\<rparr>)
      = Inr db'" "db_sessions db' = [demo_final]" "db_events db' = demo_rows" "db_versions db' = [demo_version]"
      "db_runs db' = db_runs demo_db3" "db_attempts db' = ?as"
    using sv [of ?as] by blast
  have req: "fr_attempt demo_finish = ''k''" "fr_batch demo_finish = sample_log" "fr_outcome demo_finish = ''selected''"
    "fr_node demo_finish = ''n''" "fr_command demo_finish = ''c2''"
    by (simp_all add: demo_finish_def fr_batch_def)
  have "\<exists>view. finish_attempt (demo_env []) demo_finish demo_session demo_study demo_db2 = Inr (view, db')"
    using a j f mk c m demo_append demo_policy demo_index db'(1)
    by (simp add: finish_attempt_def rows req e demo_sha_def session_index_def [symmetric] Let_def del: result_Inr check_Inr)
  with db' show ?thesis unfolding demo_after_def by blast
qed

definition demo_windows3 :: windows where
  "demo_windows3 = demo_seen ''finish'' minute hour demo_windows2"

lemma demo_limit3: "limit_participant 5 ''r'' ''i'' ''finish'' False demo_windows2 = (demo_windows3, None)"
  unfolding demo_windows3_def
  by (subst demo_seen_def, rule unseen_participant_passes)
    ((simp add: quotas_def max_rate_windows_def demo_windows1 demo_windows2_def demo_seen_def map_of_put demo_fresh_keys
      run_key_participant_key [THEN not_sym] put_def)+)

lemma demo_finished: "\<exists>view db m. finish (demo_env []) demo_finish demo_server2 =
      (Inr view, \<lparr>sv_db = db, sv_windows = demo_windows3\<rparr>) \<and> demo_after m db"
proof -
  have "owned (demo_env []) demo_db2 ''run'' demo_token = Inr (demo_session, demo_study, demo_run\<lparr>rn_data_bytes := 31\<rparr>, ''i'')"
    by (rule demo_owned) (simp_all add: demo_db2_def demo_db1_def demo_db_def demo_run_def demo_session_def)
  moreover have "receipt 5 ''s'' ''c2'' ''finish'' ''h'' demo_db2 = Inr (None, demo_db2)"
    by (simp add: receipt_def tbl_lookup_def demo_db2_def)
  moreover have "command_id ''c2'' = None" by code_simp
  moreover have "rn_status (demo_run\<lparr>rn_data_bytes := 31\<rparr>) = ''open''" "rn_id (demo_run\<lparr>rn_data_bytes := 31\<rparr>) = ''r''"
    "ss_id demo_session = ''s''" by (simp_all add: demo_run_def demo_session_def)
  moreover have "fr_slug demo_finish = ''run''" "fr_cookie demo_finish = Some demo_token" "fr_outcome demo_finish = ''selected''"
    "fr_command demo_finish = ''c2''" by (simp_all add: demo_finish_def)
  ultimately show ?thesis
    using demo_finish_attempt demo_anonymous demo_limit3
    by (auto simp: finish_def demo_server2_def demo_sha_def)
qed

lemma demo_fresh: "fresh_server demo_server"
  by (simp add: fresh_server_def fresh_db_def demo_server_def demo_db_def demo_run_def tbl_keys_def)

lemma demo_reach: "\<exists>sv m. participant_reach demo_sha demo_server sv \<and> demo_after m (sv_db sv)"
proof -
  obtain v1 where j: "join (demo_env [''s'', ''m'', ''n'', ''q'']) demo_join demo_server =
    (Inr v1, \<lparr>sv_db = demo_db1, sv_windows = demo_windows1\<rparr>)" using demo_joined by blast
  obtain v2 where st: "start (demo_env [''k'']) demo_start \<lparr>sv_db = demo_db1, sv_windows = demo_windows1\<rparr> =
    (Inr v2, demo_server2)" using demo_started by blast
  obtain v3 db m where f: "finish (demo_env []) demo_finish demo_server2 = (Inr v3, \<lparr>sv_db = db, sv_windows = demo_windows3\<rparr>)"
    and db: "demo_after m db"
    using demo_finished by blast
  have "participant_reach demo_sha demo_server \<lparr>sv_db = demo_db1, sv_windows = demo_windows1\<rparr>"
    by (rule reach_step [OF reach_start step_join [OF _ j]]) simp
  then have "participant_reach demo_sha demo_server demo_server2"
    by (rule reach_step [OF _ step_start [OF _ st]]) simp
  then have "participant_reach demo_sha demo_server \<lparr>sv_db = db, sv_windows = demo_windows3\<rparr>"
    by (rule reach_step [OF _ step_finish [OF _ f]]) simp
  with db show ?thesis by (intro exI [of _ "\<lparr>sv_db = db, sv_windows = demo_windows3\<rparr>"] exI [of _ m]) simp
qed

lemma demo_log: "db_events db = demo_rows \<Longrightarrow> load_events db ''k'' = sample_log"
  by (simp add: load_events_def demo_rows_def sample_log_def sample_event_def decimal.simps)

lemma demo_reach_finished: "\<exists>sv a r. participant_reach demo_sha demo_server sv \<and> db_sessions (sv_db sv) = [demo_final]
    \<and> session_study demo_sha (sv_db sv) demo_final demo_study \<and> load_events (sv_db sv) ''k'' = sample_log
    \<and> db_attempts (sv_db sv) = [a] \<and> at_id a = ''k'' \<and> at_session a = ''s'' \<and> at_index a = 0
    \<and> db_runs (sv_db sv) = [r] \<and> rn_id r = ''r'' \<and> rn_cap r = 2
    \<and> rn_status r = ''open'' \<and> rn_version r = ''v'' \<and> rn_purged_at r = None \<and> \<not> rn_purge_pending r
    \<and> rn_retention_days r = 90 \<and> rn_arms r = [(''x'', ''A01'')] \<and> \<not> rn_suspended r"
proof -
  obtain sv m where r: "participant_reach demo_sha demo_server sv" and d: "demo_after m (sv_db sv)"
    using demo_reach by blast
  have runs: "db_runs (sv_db sv) = db_runs demo_db3" and v: "db_versions (sv_db sv) = [demo_version]"
    and e: "db_events (sv_db sv) = demo_rows"
    using d by (simp_all add: demo_after_def)
  have "session_study demo_sha (sv_db sv) demo_final demo_study"
    using demo_load_snapshot [OF v] runs
    by (simp add: session_study_def demo_db3_def demo_run_def demo_final_def demo_session_def)
  then show ?thesis
    using r d runs demo_log [OF e] unfolding demo_after_def
    by (intro exI [of _ sv] exI [of _ "hd (db_attempts (sv_db sv))"] exI [of _ "hd (db_runs (sv_db sv))"])
      (simp add: demo_db3_def demo_run_def finished_row_def demo_attempt_def new_attempt_def demo_session_def)
qed

end
