(* ===== verification/SiteExamples.thy ===== *)
theory SiteExamples
  imports SiteTheorems ParticipantExamples
begin

text \<open>
  The visit of \<open>ParticipantExamples\<close> on a whole site: the run is then closed and purged. These
  concrete states are the witnesses of \<open>SiteTheorems\<close>.
\<close>

section \<open>The site of the visit\<close>

definition demo_site :: site where
  "demo_site = empty_site\<lparr>si_server := demo_server\<rparr>"

lemma demo_site_fresh: "fresh_site demo_site"
  using demo_fresh
  by (simp add: fresh_site_def demo_site_def empty_site_def site_db_def versions_ok_def demo_server_def demo_db_def
      tbl_keys_def demo_version_def demo_run_def run_life_def accounts_good_def)

lemma demo_site_failures: "si_failures demo_site = new_login_limiter"
  by (simp add: demo_site_def empty_site_def)

lemma demo_site_reach: "\<exists>x a r. site_reach demo_sha demo_site x \<and> db_sessions (site_db x) = [demo_final]
    \<and> session_study demo_sha (site_db x) demo_final demo_study \<and> load_events (site_db x) ''k'' = sample_log
    \<and> db_attempts (site_db x) = [a] \<and> at_id a = ''k'' \<and> at_session a = ''s'' \<and> at_index a = 0
    \<and> db_runs (site_db x) = [r] \<and> rn_id r = ''r'' \<and> rn_cap r = 2
    \<and> rn_status r = ''open'' \<and> rn_version r = ''v'' \<and> rn_purged_at r = None \<and> \<not> rn_purge_pending r
    \<and> rn_retention_days r = 90 \<and> rn_arms r = [(''x'', ''A01'')] \<and> \<not> rn_suspended r
    \<and> si_failures x = new_login_limiter"
proof -
  obtain sv a r where sv: "participant_reach demo_sha demo_server sv" "db_sessions (sv_db sv) = [demo_final]"
    "session_study demo_sha (sv_db sv) demo_final demo_study" "load_events (sv_db sv) ''k'' = sample_log"
    "db_attempts (sv_db sv) = [a]" "at_id a = ''k''" "at_session a = ''s''" "at_index a = 0"
    "db_runs (sv_db sv) = [r]" "rn_id r = ''r''" "rn_cap r = 2"
    "rn_status r = ''open''" "rn_version r = ''v''" "rn_purged_at r = None" "\<not> rn_purge_pending r"
    "rn_retention_days r = 90" "rn_arms r = [(''x'', ''A01'')]" "\<not> rn_suspended r"
    using demo_reach_finished by blast
  from sv(1) have "participant_reach demo_sha (si_server demo_site) sv" by (simp add: demo_site_def)
  from participant_reach_site [OF this] have "site_reach demo_sha demo_site (demo_site\<lparr>si_server := sv\<rparr>)" .
  then show ?thesis using sv(2-) by (intro exI [of _ "demo_site\<lparr>si_server := sv\<rparr>"] exI [of _ a] exI [of _ r])
      (simp add: demo_site_failures)
qed

text \<open>The owner closes the run at second 7.\<close>

definition demo_close :: update_run_request where
  "demo_close = \<lparr>ur_status = ''closed'', ur_days = 0\<rparr>"

definition closing_env :: environment where
  "closing_env = (demo_env [])\<lparr>en_clock := (\<lambda>k. 7 * second)\<rparr>"

lemma demo_closed: "\<exists>x r. site_reach demo_sha demo_site x \<and> db_sessions (site_db x) = [demo_final]
    \<and> db_runs (site_db x) = [r] \<and> rn_id r = ''r'' \<and> rn_status r = ''closed'' \<and> rn_version r = ''v''
    \<and> rn_closed_at r = Some (7 * second)"
proof -
  obtain x r where x: "site_reach demo_sha demo_site x" "db_sessions (site_db x) = [demo_final]"
    "db_runs (site_db x) = [r]" "rn_id r = ''r''" "rn_status r = ''open''" "rn_version r = ''v''" "rn_purged_at r = None"
    "\<not> rn_purge_pending r"
    using demo_site_reach by blast
  define db where "db = (site_db x)\<lparr>db_runs := [updated_run (7 * second) demo_close r]\<rparr>"
  have "update_run closing_env ''r'' demo_close (site_db x) = (Inr (), db)"
    using x(3-8) by (simp add: update_run_def check_update_def check_transition_def demo_close_def tbl_lookup_def
        tbl_update_def closing_env_def db_def)
  from site_next [OF x(1) site_update_run [OF this]] have "site_reach demo_sha demo_site (with_db x db)" .
  moreover have "rn_id (updated_run (7 * second) demo_close r) = ''r''"
    "rn_status (updated_run (7 * second) demo_close r) = ''closed''"
    "rn_version (updated_run (7 * second) demo_close r) = ''v''"
    "rn_closed_at (updated_run (7 * second) demo_close r) = Some (7 * second)"
    using x(4-8) by (simp_all add: updated_run_def demo_close_def Let_def closing_time_def)
  ultimately show ?thesis
    using x(2) by (intro exI [of _ "with_db x db"] exI [of _ "updated_run (7 * second) demo_close r"]) (simp add: db_def)
qed

section \<open>Witnesses\<close>

theorem caps_and_accounts_witness:
  "\<exists>x. site_reach demo_sha demo_site x \<and> db_sessions (site_db x) = [demo_final] \<and> caps_and_counters (site_db x)"
proof -
  obtain x where x: "site_reach demo_sha demo_site x" "db_sessions (site_db x) = [demo_final]"
    using demo_site_reach by blast
  with caps_and_accounts [OF demo_site_fresh x(1)] show ?thesis by blast
qed

theorem stored_logs_replay_witness:
  "\<exists>x. site_reach demo_sha demo_site x \<and> load_events (site_db x) ''k'' = sample_log
    \<and> log_ok (session_index demo_study demo_final) sample_log"
proof -
  obtain x a r where x: "site_reach demo_sha demo_site x" "db_sessions (site_db x) = [demo_final]"
    "session_study demo_sha (site_db x) demo_final demo_study" "load_events (site_db x) ''k'' = sample_log"
    "db_attempts (site_db x) = [a]" "at_id a = ''k''" "at_session a = ''s''"
    using demo_site_reach by blast
  have "a \<in> set (db_attempts (site_db x))" "demo_final \<in> set (db_sessions (site_db x))" "at_session a = ss_id demo_final"
    using x by (simp_all add: demo_final_def demo_session_def)
  from stored_logs_replay [OF demo_site_fresh x(1) this x(3)] x show ?thesis by auto
qed

theorem sessions_progress_witness:
  "\<exists>x a. site_reach demo_sha demo_site x \<and> db_attempts (site_db x) = [a] \<and> at_index a = 0 \<and> at_finished a \<noteq> None
    \<and> ss_index demo_final = 1"
proof -
  obtain x a where x: "site_reach demo_sha demo_site x" "db_sessions (site_db x) = [demo_final]"
    "db_attempts (site_db x) = [a]" "at_session a = ''s''" "at_index a = 0"
    using demo_site_reach by blast
  have "demo_final \<in> set (db_sessions (site_db x))" and f: "ss_index demo_final = 1" "ss_id demo_final = ''s''"
    by (simp_all add: x(2) demo_final_def demo_session_def)
  from sessions_progress [OF demo_site_fresh x(1) this(1), THEN conjunct2, THEN conjunct2, THEN conjunct1] x f
  show ?thesis by (intro exI [of _ x] exI [of _ a]) simp
qed

theorem retention_target_exact_witness:
  "\<exists>x r. site_reach demo_sha demo_site x \<and> db_runs (site_db x) = [r] \<and> rn_status r = ''closed''
    \<and> rn_target_at r = Some (7 * second + rn_retention_days r * day)"
proof -
  obtain x r where x: "site_reach demo_sha demo_site x" "db_runs (site_db x) = [r]" "rn_status r = ''closed''"
    "rn_closed_at r = Some (7 * second)"
    using demo_closed by blast
  have "r \<in> set (db_runs (site_db x))" by (simp add: x(2))
  from retention_target_exact [OF demo_site_fresh x(1) this] x show ?thesis by auto
qed

theorem runs_frozen_witness:
  "\<exists>x y q. site_reach demo_sha demo_site x \<and> site_reach demo_sha x y \<and> q \<in> set (db_runs (site_db y)) \<and> rn_slug q = ''run''"
proof -
  have "demo_run \<in> set (db_runs (site_db demo_site))"
    by (simp add: demo_site_def demo_server_def demo_db_def site_db_def)
  moreover obtain y where y: "site_reach demo_sha demo_site y" using demo_closed by blast
  ultimately obtain q where "q \<in> set (db_runs (site_db y))" "rn_slug q = rn_slug demo_run"
    using runs_frozen [OF demo_site_fresh site_start y] by blast
  then show ?thesis using y by (intro exI [of _ demo_site] exI [of _ y] exI [of _ q]) (simp add: demo_run_def site_start)
qed

theorem purged_run_stays_empty_witness:
  "\<exists>x db. site_reach demo_sha demo_site x \<and> db_sessions (site_db x) = [demo_final]
    \<and> purge_delete ''r'' (site_db x) = (Inr (), db) \<and> run_sessions ''r'' db = {}"
proof -
  obtain x r where x: "site_reach demo_sha demo_site x" "db_sessions (site_db x) = [demo_final]"
    "db_runs (site_db x) = [r]" "rn_id r = ''r''" "rn_status r = ''closed''"
    using demo_closed by blast
  have d: "purge_delete ''r'' (site_db x) = (Inr (), purge_rows ''r'' (site_db x))"
    using x by (simp add: purge_delete_def tbl_lookup_def)
  from purged_run_stays_empty [OF demo_site_fresh x(1) d site_start] show ?thesis
    using x(1,2) d by (intro exI [of _ x] exI [of _ "purge_rows ''r'' (site_db x)"]) auto
qed

definition demo_login :: login_request where
  "demo_login = \<lparr>lq_source = ''10.0.0.0/24'', lq_cookie = None, lq_username = ''eve'', lq_password = ''guess''\<rparr>"

definition demo_auth :: auth_environment where
  "demo_auth = \<lparr>en_sha = (\<lambda>s. s), en_identity = (\<lambda>r t. ''i''), en_clock = (\<lambda>k. 5), en_random = (\<lambda>k. demo_token), en_draws = [],
     en_order_draws = [], en_bcrypt = (\<lambda>p. p), en_matches = (\<lambda>h p. h = p), en_lower = (\<lambda>s. s)\<rparr>"

theorem login_safe_witness:
  "\<forall>t. fst (login demo_auth demo_login (site_login demo_site)) \<noteq> Inl (Fault t)"
proof -
  have seen: "seen_before (en_clock demo_auth 13) (si_failures demo_site)"
    by (simp add: seen_before_def demo_site_def empty_site_def new_login_limiter_def)
  obtain r st where l: "login demo_auth demo_login (site_login demo_site) = (r, st)" by fastforce
  from login_safe [OF demo_site_fresh site_start seen l] l show ?thesis by simp
qed

definition invitation_site :: site where
  "invitation_site = demo_site\<lparr>si_server := demo_server\<lparr>sv_db := demo_db\<lparr>db_runs := [demo_run\<lparr>rn_recruitment := ''invitation''\<rparr>]\<rparr>\<rparr>\<rparr>"

theorem invitations_single_use_witness:
  "\<exists>x. site_reach demo_sha invitation_site x \<and> length (db_invitations (site_db x)) = 1
    \<and> tbl_count (\<lambda>s. ss_run s = ''r'') (db_sessions (site_db x)) \<le> tbl_count (\<lambda>i. iv_used i \<noteq> None \<and> iv_run i = ''r'') (db_invitations (site_db x))"
proof -
  have fresh: "fresh_site invitation_site"
    by (simp add: fresh_site_def invitation_site_def demo_site_def empty_site_def site_db_def versions_ok_def
        demo_server_def demo_db_def tbl_keys_def demo_version_def demo_run_def run_life_def accounts_good_def
        fresh_server_def fresh_db_def)
  define db where "db = snd (create_invitation (demo_env [''t'', ''i'']) '''' ''r'' 0 (site_db invitation_site))"
  obtain r where c: "create_invitation (demo_env [''t'', ''i'']) '''' ''r'' 0 (site_db invitation_site) = (r, db)"
    by (cases "create_invitation (demo_env [''t'', ''i'']) '''' ''r'' 0 (site_db invitation_site)") (simp add: db_def)
  have reach: "site_reach demo_sha invitation_site (with_db invitation_site db)"
    by (rule site_next [OF site_start site_invite [OF c]])
  have n: "length (db_invitations db) = 1" "db_runs db = [demo_run\<lparr>rn_recruitment := ''invitation''\<rparr>]"
    by (simp_all add: db_def create_invitation_def invitation_site_def demo_site_def site_db_def demo_server_def demo_db_def
        load_run_def tbl_lookup_def demo_run_def Let_def insert_invitation_def tbl_insert_def)
  define r where "r = demo_run\<lparr>rn_recruitment := ''invitation''\<rparr>"
  have "r \<in> set (db_runs (site_db (with_db invitation_site db)))" "rn_recruitment r = ''invitation''" "rn_id r = ''r''"
    by (simp_all add: n(2) r_def demo_run_def)
  from invitations_single_use [OF fresh reach this(1,2)] this(3) n(1) reach show ?thesis
    by (intro exI [of _ "with_db invitation_site db"]) simp
qed

end
