(* ===== verification/Views.thy ===== *)
theory Views
  imports Drafts
begin

text \<open>
  The remaining read-only handlers of \<open>admin.go\<close> and \<open>participant.go\<close>: the validation of a bundle, the
  list of versions, the owner's key to the blinding codes, and the public page of a run.
\<close>

section \<open>Validating a bundle\<close>

text \<open>\<open>count\<close>: the nodes of a forest.\<close>

fun node_count :: "node list \<Rightarrow> nat" and node_count1 :: "node \<Rightarrow> nat" where
  "node_count [] = 0"
| "node_count (n # ns) = Suc (node_count1 n + node_count ns)"
| "node_count1 (Node i l h cs) = node_count cs"

record validation =
  va_hash :: string
  va_content_hash :: string
  va_policy :: policy
  va_nodes :: "(string \<times> nat) list"
  va_tasks :: nat
  va_panels :: nat

definition validate_handler :: "(string \<Rightarrow> string) \<Rightarrow> study_bundle \<Rightarrow> validation result" where
  "validate_handler sha b =
     (case validate sha b of Inl e \<Rightarrow> Inl (Problem 422 ''invalid study'')
      | Inr snap \<Rightarrow> Inr \<lparr>va_hash = publication_hash sha (s_hash snap) current_policy, va_content_hash = s_hash snap,
          va_policy = current_policy, va_nodes = map (\<lambda>(i, ns). (i, node_count ns)) (s_trees snap),
          va_tasks = length (cfg_tasks (b_config b)), va_panels = length (cfg_panels (b_config b))\<rparr>)"

section \<open>Versions and keys\<close>

record version_view =
  vv_id :: string
  vv_hash :: string
  vv_title :: string
  vv_slug :: string
  vv_created :: time
  vv_content_hash :: string
  vv_policy :: policy

text \<open>One version whose policy cannot be decoded fails the whole list.\<close>

fun version_views :: "version_row list \<Rightarrow> version_view list result" where
  "version_views [] = Inr []"
| "version_views (v # vs) =
     (case decode_policy (vr_policy v) of Inl e \<Rightarrow> Inl e
      | Inr p \<Rightarrow> (case version_views vs of Inl e \<Rightarrow> Inl e
        | Inr rest \<Rightarrow> Inr (\<lparr>vv_id = vr_id v, vv_hash = vr_hash v, vv_title = vr_title v, vv_slug = vr_slug v,
            vv_created = vr_created v, vv_content_hash = vr_content_hash v, vv_policy = p\<rparr> # rest)))"

definition list_versions :: "database \<Rightarrow> version_view list result" where
  "list_versions db = version_views (newest_first vr_created vr_id (db_versions db))"

record owner_key =
  ok_run :: string
  ok_version :: string
  ok_hash :: string
  ok_content_hash :: string
  ok_policy :: policy
  ok_arms :: "(string \<times> string) list"
  ok_tasks :: "(string \<times> string) list"
  ok_bundle :: study_bundle

definition run_key_view :: "(string \<Rightarrow> string) \<Rightarrow> string \<Rightarrow> database \<Rightarrow> owner_key result" where
  "run_key_view sha i db =
     (case load_run rn_id i db of Inl e \<Rightarrow> Inl e
      | Inr a \<Rightarrow> (case load_snapshot sha db (rn_version a) of Inl e \<Rightarrow> Inl e
        | Inr f \<Rightarrow> Inr \<lparr>ok_run = rn_id a, ok_version = rn_version a, ok_hash = f_hash f,
            ok_content_hash = s_hash (f_snapshot f), ok_policy = f_policy f, ok_arms = rn_arms a,
            ok_tasks = rn_tasks a, ok_bundle = s_bundle (f_snapshot f)\<rparr>))"

text \<open>\<open>publicInfo\<close>: what the participant page shows, and the new cookie for a visitor without one.\<close>

record public_page =
  pg_title :: string
  pg_instructions :: string
  pg_mode :: string
  pg_status :: string
  pg_recruitment :: string

definition public_info :: "environment \<Rightarrow> string \<Rightarrow> string option \<Rightarrow> database \<Rightarrow> (public_page \<times> string option) result" where
  "public_info env slug cookie db =
     (case load_run rn_slug slug db of Inl e \<Rightarrow> Inl e
      | Inr a \<Rightarrow> (case load_snapshot (en_sha env) db (rn_version a) of Inl e \<Rightarrow> Inl e
        | Inr f \<Rightarrow> Inr (\<lparr>pg_title = cfg_title (f_config f), pg_instructions = cfg_instructions (f_config f), pg_mode = rn_mode a,
              pg_status = rn_status a, pg_recruitment = rn_recruitment a\<rparr>,
            if token cookie = [] then Some (en_random env 0) else None)))"

text \<open>The hash that the validation of a saved draft shows is the one that its publication returns.\<close>

lemma validation_predicts_publication:
  assumes "tbl_lookup dr_id i ds = Some d" "validate_handler (en_sha env) (dr_bundle d) = Inr va"
    "publish env i (dr_revision d) ds db = (Inr (v, h), db')"
  shows "h = va_hash va"
  using assms publish_Inr [OF assms(3)] by (auto simp: validate_handler_def split: sum.splits)

end
