(* ===== verification/AdminExamples.thy ===== *)
theory AdminExamples
  imports SiteExamples Views
begin

text \<open>
  Concrete administrators: an owner logs in, uses the session, changes the password; two editors save
  the same draft. Witnesses of \<open>AuthTheorems\<close> and \<open>Drafts\<close>.
\<close>

section \<open>Accounts\<close>

definition ann :: user_row where
  "ann = \<lparr>us_name = ''ann'', us_hash = ''correct horse battery'', us_role = ''owner''\<rparr>"

definition ann_session :: admin_row where
  "ann_session = \<lparr>ad_token = demo_token, ad_user = ''ann'', ad_csrf = ''csrf'', ad_expires = 100\<rparr>"

definition demo_accounts :: accounts where
  "demo_accounts = \<lparr>ac_users = [ann], ac_admins = [ann_session]\<rparr>"

lemma demo_accounts_good: "accounts_good demo_accounts"
  by (simp add: accounts_good_def demo_accounts_def ann_def ann_session_def tbl_keys_def)

lemma demo_cookie: "token (Some demo_token) = demo_token" "demo_token \<noteq> []"
  by code_simp+

lemma demo_auth_simps [simp]: "en_sha demo_auth s = s" "en_clock demo_auth k = 5" "en_random demo_auth k = demo_token"
  "en_bcrypt demo_auth p = p" "en_matches demo_auth h p \<longleftrightarrow> h = p" "en_lower demo_auth s = s"
  by (simp_all add: demo_auth_def)

lemma ann_session_of: "session_of demo_auth (Some demo_token) demo_accounts ann_session ann"
  using demo_cookie
  by (simp add: session_of_def demo_accounts_def ann_session_def ann_def seconds_def second_def)

theorem authorize_iff_witness:
  "authorize demo_auth True ''POST'' (Some demo_token) ''csrf'' demo_accounts = Inr (identity_of ann_session ann)"
  unfolding authorize_iff [OF demo_accounts_good]
  using ann_session_of by (intro exI [of _ ann_session] exI [of _ ann]) (simp add: ann_def ann_session_def)

theorem set_user_revokes_witness:
  "\<exists>ac'. set_user demo_auth ''ann'' ''a much better password'' ''owner'' demo_accounts = (Inr (), ac')
    \<and> ai_authenticated (admin demo_auth (Some demo_token) demo_accounts)
    \<and> \<not> (ai_authenticated (admin demo_auth (Some demo_token) ac') \<and> ai_username (admin demo_auth (Some demo_token) ac') = ''ann'')"
proof -
  have trim: "trim_space ''ann'' = ''ann''" by code_simp
  then obtain ac' where set: "set_user demo_auth ''ann'' ''a much better password'' ''owner'' demo_accounts = (Inr (), ac')"
    by (simp add: set_user_def min_admin_password_def Let_def)
  with set_user_revokes [OF demo_accounts_good set, of demo_auth "Some demo_token"]
    admin_session_of [OF demo_accounts_good ann_session_of] show ?thesis by simp
qed

section \<open>Logging in\<close>

definition ann_login :: login_request where
  "ann_login = \<lparr>lq_source = ''10.0.0.0/24'', lq_cookie = None, lq_username = ''ann'', lq_password = ''correct horse battery''\<rparr>"

definition demo_login_state :: login_state where
  "demo_login_state = \<lparr>ls_accounts = demo_accounts\<lparr>ac_admins := []\<rparr>, ls_windows = [], ls_failures = new_login_limiter\<rparr>"

lemma ann_login_gate: "\<exists>st. login_gate demo_auth ann_login demo_login_state = (None, st)"
proof -
  have "trim_space ''ann'' = ''ann''" by code_simp
  then show ?thesis
    by (simp add: login_gate_def ann_login_def demo_login_state_def allow_def max_rate_windows_def put_def Let_def
        blocked_def new_login_limiter_def source_login_key_def account_login_key_def)
qed

theorem login_authenticates_witness:
  "\<exists>a st. login demo_auth ann_login demo_login_state = (Inr (demo_token, a), st) \<and> ai_role a = ''owner''
    \<and> admin demo_auth (Some demo_token) (ls_accounts st) = a"
proof -
  have good: "accounts_good (ls_accounts demo_login_state)"
    by (simp add: demo_login_state_def accounts_good_def demo_accounts_def ann_def tbl_keys_def)
  obtain st1 where gate: "login_gate demo_auth ann_login demo_login_state = (None, st1)" using ann_login_gate by blast
  have ac1: "ls_accounts st1 = demo_accounts\<lparr>ac_admins := []\<rparr>"
    using login_gate_same [of demo_auth ann_login demo_login_state] gate by (simp add: demo_login_state_def)
  have good1: "accounts_good (ls_accounts st1)" using good ac1 by (simp add: demo_login_state_def)
  have cred: "credentials demo_auth ann_login (ls_accounts st1) = Some ann"
    unfolding ac1 by (simp add: credentials_def ann_login_def demo_accounts_def ann_def tbl_lookup_def)
  obtain c ac where c: "create_admin_session demo_auth (lq_username ann_login) (us_hash ann) (us_role ann)
      (token (lq_cookie ann_login)) (ls_accounts st1) = (Inr (demo_token, c), ac)"
    unfolding ac1
    by (simp add: create_admin_session_def ann_login_def demo_accounts_def ann_def tbl_lookup_def tbl_insert_def tbl_delete_def)
  obtain a st where login: "login demo_auth ann_login demo_login_state = (Inr (demo_token, a), st)"
    using gate c by (simp add: login_gated verify_login_right [OF good1 cred])
  have "seconds (en_clock demo_auth 0) < seconds (en_clock demo_auth 2 + 12 * hour)"
    by (simp add: seconds_def hour_def minute_def second_def)
  from login_authenticates [OF good login _ _ refl this] demo_cookie
  obtain u where "credentials demo_auth ann_login (ls_accounts demo_login_state) = Some u" "ai_role a = us_role u"
    "admin demo_auth (Some demo_token) (ls_accounts st) = a" by auto
  moreover have "u = ann" using calculation(1) cred ac1 by (simp add: demo_login_state_def)
  ultimately show ?thesis using login by (intro exI [of _ a] exI [of _ st]) (simp add: ann_def)
qed

theorem login_hides_accounts_witness:
  "\<exists>r st. login demo_auth demo_login (demo_login_state\<lparr>ls_accounts := demo_accounts\<rparr>) = (r, st\<lparr>ls_accounts := demo_accounts\<rparr>)
    \<and> login demo_auth demo_login (demo_login_state\<lparr>ls_accounts := \<lparr>ac_users = [], ac_admins = []\<rparr>\<rparr>)
      = (r, st\<lparr>ls_accounts := \<lparr>ac_users = [], ac_admins = []\<rparr>\<rparr>) \<and> \<not> ok r"
  by (rule login_hides_accounts)
    (simp_all add: credentials_def demo_login_def demo_accounts_def ann_def tbl_lookup_def)

section \<open>Drafts\<close>

definition demo_draft :: draft_row where
  "demo_draft = \<lparr>dr_id = ''d'', dr_revision = 3, dr_title = ''T'', dr_bundle = s_bundle demo_snapshot, dr_updated = 0\<rparr>"

theorem saves_serialized_witness:
  "\<exists>taken ds'. saves ''d'' [(demo_env [], 3, s_bundle demo_snapshot), (demo_env [], 3, s_bundle demo_snapshot),
      (demo_env [], 4, s_bundle demo_snapshot)] [demo_draft] = (taken, ds') \<and> map fst taken = [3, 4]"
proof -
  have d: "tbl_lookup dr_id ''d'' [demo_draft] = Some demo_draft" by (simp add: tbl_lookup_def demo_draft_def)
  obtain taken ds' where s: "saves ''d'' [(demo_env [], 3, s_bundle demo_snapshot), (demo_env [], 3, s_bundle demo_snapshot),
      (demo_env [], 4, s_bundle demo_snapshot)] [demo_draft] = (taken, ds')" by fastforce
  then have "length taken = 2"
    by (auto simp: update_draft_def tbl_lookup_def tbl_modify_def tbl_update_def demo_draft_def)
  then have "[0..<length taken] = [0, 1]" by (simp add: upt_rec)
  with saves_serialized [OF d s] s show ?thesis by (simp add: demo_draft_def)
qed

end
