(* ===== verification/ReportExamples.thy ===== *)
theory ReportExamples
  imports ReportTheorems AdminExamples
begin

text \<open>
  The reports of the visit of \<open>ParticipantExamples\<close>: witnesses of \<open>ReportTheorems\<close>, \<open>ExportTheorems\<close>
  and \<open>SiteResults\<close>.
\<close>

theorem results_reproducible_witness:
  "\<exists>x a. site_reach demo_sha demo_site x \<and> db_attempts (site_db x) = [a] \<and> at_finished a \<noteq> None
    \<and> (\<exists>out n m. at_outcome a = Some out \<and> event_metrics_v1 sample_log (session_index demo_study demo_final) n out True = Inr m
        \<and> at_observed a = m_observed m)"
proof -
  obtain x a r where x: "site_reach demo_sha demo_site x" "db_sessions (site_db x) = [demo_final]"
    "session_study demo_sha (site_db x) demo_final demo_study" "load_events (site_db x) ''k'' = sample_log"
    "db_attempts (site_db x) = [a]" "at_id a = ''k''" "at_session a = ''s''" "at_index a = 0"
    using demo_site_reach by blast
  have a: "a \<in> set (db_attempts (site_db x))" "demo_final \<in> set (db_sessions (site_db x))" "at_session a = ss_id demo_final"
    and f: "ss_index demo_final = 1"
    using x by (simp_all add: demo_final_def demo_session_def)
  have fin: "at_finished a \<noteq> None"
    using db_ok_progress [OF reachable_db(1) [OF demo_site_fresh x(1)] a(2)] a(1,3) x(8) f by fastforce
  then obtain t where t: "at_finished a = Some t" by blast
  from results_reproducible [OF demo_site_fresh x(1) a x(3), unfolded t option.case x(6) x(4)] x(1,5) fin
  show ?thesis by blast
qed

text \<open>The run of the visit, its report and its frozen study.\<close>

lemma demo_report: "\<exists>x r. site_reach demo_sha demo_site x \<and> load_run rn_id ''r'' (site_db x) = Inr r
    \<and> load_snapshot demo_sha (site_db x) (rn_version r) = Inr demo_study \<and> rn_arms r = [(''x'', ''A01'')]
    \<and> db_sessions (site_db x) = [demo_final] \<and> rn_id r = ''r''"
proof -
  obtain x r where x: "site_reach demo_sha demo_site x" "session_study demo_sha (site_db x) demo_final demo_study"
    "db_runs (site_db x) = [r]" "rn_id r = ''r''" "rn_arms r = [(''x'', ''A01'')]" "\<not> rn_suspended r"
    "db_sessions (site_db x) = [demo_final]"
    using demo_site_reach by blast
  have "load_run rn_id ''r'' (site_db x) = Inr r" using x(3,4,6) by (simp add: load_run_def tbl_lookup_def)
  moreover have "load_snapshot demo_sha (site_db x) (rn_version r) = Inr demo_study"
    using x(2,3) by (auto simp: session_study_def)
  ultimately show ?thesis using x by blast
qed

theorem report_matches_progress_witness:
  "\<exists>x r rows h. site_reach demo_sha demo_site x \<and> report_rows (demo_env []) 0 1 r (site_db x) = Inr (rows, h)
    \<and> map (\<lambda>r. (ar_session r, ar_index r)) rows = [(''s'', 0)] \<and> he_completed h + he_incomplete h = 1"
proof -
  obtain x r where x: "site_reach demo_sha demo_site x" "load_run rn_id ''r'' (site_db x) = Inr r"
    "load_snapshot demo_sha (site_db x) (rn_version r) = Inr demo_study" "rn_arms r = [(''x'', ''A01'')]"
    "db_sessions (site_db x) = [demo_final]" "rn_id r = ''r''"
    using demo_report by blast
  have f: "ss_run demo_final = ''r''" "ss_id demo_final = ''s''" "ss_tasks demo_final = [''t'']"
    by (simp_all add: demo_final_def demo_session_def)
  have e: "en_sha (demo_env []) = demo_sha" by simp
  have o: "sessions_in_order ''r'' (site_db x) = [demo_final]" using x(5) f by (simp add: sessions_in_order_def oldest_first_def)
  obtain rows h where r: "report_rows (demo_env []) 0 1 r (site_db x) = Inr (rows, h)"
    "map (\<lambda>r. (ar_session r, ar_index r)) rows = [(''s'', 0)]" "he_enrolled h = 1" "he_completed h + he_incomplete h = he_enrolled h"
    using report_matches_progress [OF demo_site_fresh x(1) e x(3), of 0 1] x(5,6) f o by (auto simp: tbl_count_def)
  show ?thesis using x(1) r by (intro exI [of _ x] exI [of _ r] exI [of _ rows] exI [of _ h]) simp
qed

lemma demo_results: "\<exists>x h arms tasks. site_reach demo_sha demo_site x
    \<and> results (demo_env []) 0 1 ''r'' (site_db x) = Inr (h, arms, tasks) \<and> length arms = 1"
proof -
  obtain x r where x: "site_reach demo_sha demo_site x" "load_run rn_id ''r'' (site_db x) = Inr r"
    "load_snapshot demo_sha (site_db x) (rn_version r) = Inr demo_study" "rn_arms r = [(''x'', ''A01'')]"
    "db_sessions (site_db x) = [demo_final]" "rn_id r = ''r''"
    using demo_report by blast
  have db: "db_ok demo_sha (site_db x)" by (rule reachable_db(1) [OF demo_site_fresh x(1)])
  obtain rows h where "report_rows (demo_env []) 0 1 r (site_db x) = Inr (rows, h)"
    using report_rows_ok [OF db results_reachable [OF demo_site_fresh x(1)], of "demo_env []" r demo_study 0 1] x(3) by auto
  then show ?thesis using x(1,2,4) by (intro exI [of _ x]) (simp add: results_def sorted_values_def)
qed

theorem summary_partitions_witness:
  "\<exists>x h arms tasks. results (demo_env []) 0 1 ''r'' (site_db x) = Inr (h, arms, tasks)
    \<and> su_shown (hd arms) + su_unreached (hd arms) = su_assigned (hd arms)"
proof -
  obtain x h arms tasks where x: "site_reach demo_sha demo_site x"
    "results (demo_env []) 0 1 ''r'' (site_db x) = Inr (h, arms, tasks)" "length arms = 1"
    using demo_results by blast
  have e: "en_sha (demo_env []) = demo_sha" by simp
  have "hd arms \<in> set (arms @ tasks)" using x(3) by (cases arms) simp_all
  from summary_partitions [OF demo_site_fresh x(1) e x(2) this] x(2) show ?thesis by blast
qed

theorem csv_export_reads_back_witness:
  "\<exists>x body rows. export (demo_env []) 0 1 ''csv'' ''r'' (site_db x) = Inr (Csv body)
    \<and> read_csv body = Some (csv_header # map csv_row rows)"
proof -
  obtain x r where x: "site_reach demo_sha demo_site x" "load_run rn_id ''r'' (site_db x) = Inr r"
    "load_snapshot demo_sha (site_db x) (rn_version r) = Inr demo_study" "rn_arms r = [(''x'', ''A01'')]"
    "db_sessions (site_db x) = [demo_final]" "rn_id r = ''r''"
    using demo_report by blast
  have db: "db_ok demo_sha (site_db x)" by (rule reachable_db(1) [OF demo_site_fresh x(1)])
  obtain rows h where "report_rows (demo_env []) 0 1 r (site_db x) = Inr (rows, h)"
    using report_rows_ok [OF db results_reachable [OF demo_site_fresh x(1)], of "demo_env []" r demo_study 0 1] x(3) by auto
  then obtain body where b: "export (demo_env []) 0 1 ''csv'' ''r'' (site_db x) = Inr (Csv body)"
    using x(2,3) by (simp add: export_def)
  from csv_export_reads_back [OF b] show ?thesis using b by blast
qed

theorem median_splits_witness:
  "median [3, 1, 2, 10] = Some (5 / 2) \<and> 2 * length (filter (\<lambda>v. of_int v < (5 / 2 :: rat)) [3, 1, 2, 10]) \<le> 4"
proof -
  have m: "median [3, 1, 2, 10] = Some (5 / 2)" by code_simp
  with median_splits [of "[3, 1, 2, 10]" "[]"] show ?thesis by simp
qed

end
