(* ===== verification/Network.thy ===== *)
theory Network
  imports RateLimit Json "HOL-Library.Word"
begin

unbundle bit_operations_syntax

text \<open>
  The network that a request is charged to (\<open>sourceNetwork\<close> and \<open>parseTrustedProxies\<close> of
  \<open>limits.go\<close>), with the part of \<open>net\<close> and \<open>net/netip\<close> it uses: addresses as words of 32 and 128
  bits, their text form, prefixes, and the host of a remote address.
\<close>

section \<open>Addresses\<close>

text \<open>\<open>netip.Addr\<close>: an IPv6 address carries its zone, which is mostly empty.\<close>

datatype addr = V4 "32 word" | V6 "128 word" string

definition digit :: "char \<Rightarrow> bool" where
  "digit c \<longleftrightarrow> CHR ''0'' \<le> c \<and> c \<le> CHR ''9''"

definition hex_value :: "char \<Rightarrow> nat option" where
  "hex_value c =
     (if digit c then Some (byte c - byte CHR ''0'')
      else if CHR ''a'' \<le> c \<and> c \<le> CHR ''f'' then Some (byte c - byte CHR ''a'' + 10)
      else if CHR ''A'' \<le> c \<and> c \<le> CHR ''F'' then Some (byte c - byte CHR ''A'' + 10)
      else None)"

definition number :: "nat \<Rightarrow> string \<Rightarrow> nat" where
  "number base s = foldl (\<lambda>n c. base * n + the (hex_value c)) 0 s"

text \<open>\<open>strings.Split\<close> by one character.\<close>

fun split_at :: "char \<Rightarrow> string \<Rightarrow> string list" where
  "split_at sep [] = [[]]"
| "split_at sep (c # s) = (if c = sep then [] # split_at sep s
     else case split_at sep s of p # ps \<Rightarrow> (c # p) # ps | [] \<Rightarrow> [[c]])"

text \<open>
  \<open>parseIPv4Fields\<close>: four decimal fields of at most 255, none empty, none with a leading zero. The
  bytes and the 16-bit fields of an address are put together from the left.
\<close>

definition octet :: "string \<Rightarrow> bool" where
  "octet p \<longleftrightarrow> p \<noteq> [] \<and> list_all digit p \<and> (length p = 1 \<or> hd p \<noteq> CHR ''0'') \<and> number 10 p \<le> 255"

definition v4_fields :: "string \<Rightarrow> nat list option" where
  "v4_fields s = (let ps = split_at CHR ''.'' s in
     if length ps = 4 \<and> list_all octet ps then Some (map (number 10) ps) else None)"

definition from_fields :: "nat \<Rightarrow> nat list \<Rightarrow> 'a :: len word" where
  "from_fields w xs = foldl (\<lambda>a x. push_bit w a OR of_nat x) 0 xs"

text \<open>
  \<open>parseIPv6\<close>: the loop over the 16-bit fields, with the place of the ellipsis. The first argument
  counts the fields that there is still room for.
\<close>

fun v6_fields :: "nat \<Rightarrow> string \<Rightarrow> nat option \<Rightarrow> nat list \<Rightarrow> (nat list \<times> nat option) option" where
  "v6_fields 0 s e gs = (if s = [] then Some (gs, e) else None)"
| "v6_fields (Suc n) s e gs =
     (let ds = takeWhile (\<lambda>c. hex_value c \<noteq> None) s; rest = drop (length ds) s; gs1 = gs @ [number 16 ds]
      in if ds = [] \<or> length ds > 4 then None
         else case rest of
           [] \<Rightarrow> Some (gs1, e)
         | c # s1 \<Rightarrow>
             if c = CHR ''.'' then
               (if (e = None \<and> length gs \<noteq> 6) \<or> length gs + 2 > 8 then None
                else case v4_fields s of
                  Some [a, b, c, d] \<Rightarrow> Some (gs @ [256 * a + b, 256 * c + d], e)
                | _ \<Rightarrow> None)
             else if c \<noteq> CHR '':'' then None
             else case s1 of
               [] \<Rightarrow> None
             | c1 # s2 \<Rightarrow>
                 if c1 = CHR '':'' then
                   (if e \<noteq> None then None
                    else if s2 = [] then Some (gs1, Some (length gs1))
                    else v6_fields n s2 (Some (length gs1)) gs1)
                 else v6_fields n s1 e gs1)"

definition parse_v6 :: "string \<Rightarrow> addr option" where
  "parse_v6 text =
     (let s = takeWhile (\<lambda>c. c \<noteq> CHR ''%'') text; marked = CHR ''%'' \<in> set text; zone = drop (length s + 1) text;
          ellipsis = has_prefix ''::'' s; s1 = (if ellipsis then drop 2 s else s)
      in if marked \<and> zone = [] then None
         else if ellipsis \<and> s1 = [] then Some (V6 0 zone)
         else case v6_fields 8 s1 (if ellipsis then Some 0 else None) [] of
           None \<Rightarrow> None
         | Some (gs, e) \<Rightarrow>
             (case e of
                None \<Rightarrow> if length gs < 8 then None else Some (V6 (from_fields 16 gs) zone)
              | Some k \<Rightarrow> if length gs \<ge> 8 then None
                  else Some (V6 (from_fields 16 (take k gs @ replicate (8 - length gs) 0 @ drop k gs)) zone)))"

text \<open>\<open>netip.ParseAddr\<close> looks for the first dot, colon or percent sign.\<close>

definition parse_addr :: "string \<Rightarrow> addr option" where
  "parse_addr s =
     (case find (\<lambda>c. c \<in> set ''.:%'') s of
        Some c \<Rightarrow>
          if c = CHR ''.'' then map_option (\<lambda>xs. V4 (from_fields 8 xs)) (v4_fields s)
          else if c = CHR '':'' then parse_v6 s else None
      | None \<Rightarrow> None)"

text \<open>\<open>Unmap\<close>: an IPv4-mapped IPv6 address becomes the IPv4 address.\<close>

fun unmap :: "addr \<Rightarrow> addr" where
  "unmap (V4 w) = V4 w"
| "unmap (V6 w zone) = (if drop_bit 32 w = 0xFFFF then V4 (ucast w) else V6 w zone)"

fun zone_of :: "addr \<Rightarrow> string" where
  "zone_of (V4 w) = []"
| "zone_of (V6 w zone) = zone"

fun bit_length :: "addr \<Rightarrow> nat" where
  "bit_length (V4 w) = 32"
| "bit_length (V6 w zone) = 128"

section \<open>Prefixes\<close>

text \<open>\<open>netip.Prefix\<close>: an address without a zone, and a number of bits.\<close>

type_synonym prefix = "addr \<times> nat"

fun prefix_from :: "addr \<Rightarrow> nat \<Rightarrow> prefix" where
  "prefix_from (V4 w) bits = (V4 w, bits)"
| "prefix_from (V6 w zone) bits = (V6 w [], bits)"

fun masked :: "prefix \<Rightarrow> prefix" where
  "masked (V4 w, bits) = (V4 (w AND NOT (mask (32 - bits))), bits)"
| "masked (V6 w zone, bits) = (V6 (w AND NOT (mask (128 - bits))) zone, bits)"

fun contains :: "prefix \<Rightarrow> addr \<Rightarrow> bool" where
  "contains (V4 p, bits) (V4 w) \<longleftrightarrow> drop_bit (32 - bits) (w XOR p) = 0"
| "contains (V6 p z, bits) (V6 w zone) \<longleftrightarrow> zone = [] \<and> drop_bit (128 - bits) (w XOR p) = 0"
| "contains _ _ \<longleftrightarrow> False"

text \<open>\<open>netip.ParsePrefix\<close>: the text up to the last slash, then the bits in plain decimal.\<close>

definition cut_last :: "char \<Rightarrow> string \<Rightarrow> (string \<times> string) option" where
  "cut_last c s = (if c \<in> set s
     then Some (rev (tl (dropWhile (\<lambda>d. d \<noteq> c) (rev s))), rev (takeWhile (\<lambda>d. d \<noteq> c) (rev s)))
     else None)"

definition parse_prefix :: "string \<Rightarrow> prefix option" where
  "parse_prefix s =
     (case cut_last CHR ''/'' s of
        None \<Rightarrow> None
      | Some (host, bits) \<Rightarrow>
          (case parse_addr host of
             None \<Rightarrow> None
           | Some a \<Rightarrow>
               if zone_of a \<noteq> [] \<or> bits = [] \<or> \<not> list_all digit bits \<or> (length bits > 1 \<and> hd bits = CHR ''0'')
                 \<or> number 10 bits > bit_length a
               then None else Some (prefix_from a (number 10 bits))))"

text \<open>\<open>parseTrustedProxies\<close>: each value is a prefix or a single address; \<open>None\<close> stands for a nil slice.\<close>

definition parse_proxy :: "string \<Rightarrow> prefix result" where
  "parse_proxy v =
     (let value = trim_space v in
      case parse_prefix value of
        Some p \<Rightarrow> Inr (masked p)
      | None \<Rightarrow>
          (case parse_addr value of
             None \<Rightarrow> Inl (Internal (''trusted proxy '' @ value @ '' must be an IP address or CIDR''))
           | Some a \<Rightarrow>
               if zone_of a \<noteq> [] then Inl (Internal (''trusted proxy '' @ value @ '' must be an IP address or CIDR''))
               else (let b = unmap a in Inr (masked (prefix_from b (bit_length b))))))"

fun parse_proxies :: "string list \<Rightarrow> prefix list result" where
  "parse_proxies [] = Inr []"
| "parse_proxies (v # vs) =
     (case parse_proxy v of Inl e \<Rightarrow> Inl e
      | Inr p \<Rightarrow> (case parse_proxies vs of Inl e \<Rightarrow> Inl e | Inr ps \<Rightarrow> Inr (p # ps)))"

definition parse_trusted_proxies :: "string list option \<Rightarrow> prefix list result" where
  "parse_trusted_proxies values =
     parse_proxies (case values of None \<Rightarrow> [''127.0.0.1/32'', ''::1/128''] | Some vs \<Rightarrow> vs)"

section \<open>Text of a network\<close>

fun hex_text :: "nat \<Rightarrow> string" where
  "hex_text n = (if n < 16 then [hex_digit n] else hex_text (n div 16) @ [hex_digit (n mod 16)])"

declare hex_text.simps [simp del]

fun joined :: "char \<Rightarrow> string list \<Rightarrow> string" where
  "joined sep [] = []"
| "joined sep [p] = p"
| "joined sep (p # ps) = p @ sep # joined sep ps"

definition fields_of :: "nat \<Rightarrow> nat \<Rightarrow> 'a :: len word \<Rightarrow> nat list" where
  "fields_of w n a = map (\<lambda>k. unat (take_bit w (drop_bit (w * k) a))) (rev [0..<n])"

text \<open>\<open>appendTo6\<close>: the first of the longest runs of at least two zero fields is written as \<open>::\<close>.\<close>

definition zero_run :: "nat list \<Rightarrow> nat \<Rightarrow> nat" where
  "zero_run gs i = length (takeWhile (\<lambda>g. g = 0) (drop i gs))"

definition longest_run :: "nat list \<Rightarrow> (nat \<times> nat) option" where
  "longest_run gs = foldl (\<lambda>best i. let l = zero_run gs i in
     if l \<ge> 2 \<and> (case best of None \<Rightarrow> True | Some (s, e) \<Rightarrow> l > e - s) then Some (i, i + l) else best) None [0..<8]"

definition v6_text :: "nat list \<Rightarrow> string" where
  "v6_text gs = (case longest_run gs of
     None \<Rightarrow> joined CHR '':'' (map hex_text gs)
   | Some (s, e) \<Rightarrow> joined CHR '':'' (map hex_text (take s gs)) @ ''::'' @ joined CHR '':'' (map hex_text (drop e gs)))"

fun prefix_text :: "prefix \<Rightarrow> string" where
  "prefix_text (V4 w, bits) = joined CHR ''.'' (map decimal (fields_of 8 4 w)) @ ''/'' @ decimal bits"
| "prefix_text (V6 w zone, bits) = v6_text (fields_of 16 8 w) @ ''/'' @ decimal bits"

section \<open>The source of a request\<close>

text \<open>\<open>net.SplitHostPort\<close>, the host only.\<close>

definition split_host :: "string \<Rightarrow> string option" where
  "split_host s =
     (case cut_last CHR '':'' s of
        None \<Rightarrow> None
      | Some (front, port) \<Rightarrow>
          if has_prefix ''['' s then
            (let host = takeWhile (\<lambda>c. c \<noteq> CHR '']'') (tl s); rest = drop (length host + 1) (tl s)
             in if CHR '']'' \<notin> set s \<or> length host + 2 \<noteq> length front then None
                else if CHR ''['' \<in> set (tl s) \<or> CHR '']'' \<in> set rest then None
                else Some host)
          else if CHR '':'' \<in> set front \<or> CHR ''['' \<in> set s \<or> CHR '']'' \<in> set s then None
          else Some front)"

text \<open>The address that a request counts for; \<open>forwarded\<close> is the header \<open>X-Forwarded-For\<close>.\<close>

definition peer_addr :: "string \<Rightarrow> addr option" where
  "peer_addr remote = map_option unmap (parse_addr (case split_host remote of None \<Rightarrow> remote | Some h \<Rightarrow> h))"

definition client_addr :: "prefix list \<Rightarrow> string \<Rightarrow> addr \<Rightarrow> addr" where
  "client_addr proxies forwarded ip =
     (if list_ex (\<lambda>p. contains p ip) proxies then
        (case parse_addr (trim_space (takeWhile (\<lambda>c. c \<noteq> CHR '','') forwarded)) of
           Some a \<Rightarrow> if zone_of a = [] then unmap a else ip
         | None \<Rightarrow> ip)
      else ip)"

definition network_of :: "addr \<Rightarrow> prefix" where
  "network_of a = masked (prefix_from a (case a of V4 _ \<Rightarrow> 24 | V6 _ _ \<Rightarrow> 64))"

definition source_network :: "prefix list \<Rightarrow> string \<Rightarrow> string \<Rightarrow> string" where
  "source_network proxies remote forwarded =
     (case peer_addr remote of
        None \<Rightarrow> ''unknown''
      | Some ip \<Rightarrow> prefix_text (network_of (client_addr proxies forwarded ip)))"

end
