(* ===== verification/NetworkTheorems.thy ===== *)
theory NetworkTheorems
  imports Network
begin

text \<open>
  The text under which \<open>sourceNetwork\<close> charges a request names its network: two sources share it
  exactly when their addresses agree in the first 24 bits (IPv4) or the first 64 bits (IPv6).
\<close>

section \<open>Numbers and joined fields\<close>

lemma number_snoc: "number b (s @ [c]) = b * number b s + the (hex_value c)"
  by (simp add: number_def)

lemma decimal_char: "d < 10 \<Longrightarrow> hex_value (''0123456789'' ! d) = Some d"
proof -
  have "\<forall>d < 10. hex_value (''0123456789'' ! d) = Some d" by code_simp
  then show "d < 10 \<Longrightarrow> hex_value (''0123456789'' ! d) = Some d" by blast
qed

lemma hex_char: "d < 16 \<Longrightarrow> hex_value (hex_digit d) = Some d"
proof -
  have "\<forall>d < 16. hex_value (hex_digit d) = Some d" by code_simp
  then show "d < 16 \<Longrightarrow> hex_value (hex_digit d) = Some d" by blast
qed

lemma number_decimal [simp]: "number 10 (decimal n) = n"
proof (induction n rule: decimal.induct)
  case (1 n)
  show ?case
  proof (cases "n < 10")
    case True
    then show ?thesis by (subst decimal.simps) (simp add: number_def decimal_char)
  next
    case False
    then have "number 10 (decimal n) = 10 * number 10 (decimal (n div 10)) + n mod 10"
      by (subst decimal.simps) (simp add: number_snoc decimal_char)
    then show ?thesis using 1 False by simp
  qed
qed

lemma number_hex [simp]: "number 16 (hex_text n) = n"
proof (induction n rule: hex_text.induct)
  case (1 n)
  show ?case
  proof (cases "n < 16")
    case True
    then show ?thesis by (subst hex_text.simps) (simp add: number_def hex_char)
  next
    case False
    then have "number 16 (hex_text n) = 16 * number 16 (hex_text (n div 16)) + n mod 16"
      by (subst hex_text.simps) (simp add: number_snoc hex_char)
    then show ?thesis using 1 False by simp
  qed
qed

lemma decimal_chars: "c \<in> set (decimal n) \<Longrightarrow> hex_value c \<noteq> None"
proof (induction n rule: decimal.induct)
  case (1 n)
  show ?case using 1 by (cases "n < 10") (auto simp: decimal.simps [of n] decimal_char)
qed

lemma hex_chars: "c \<in> set (hex_text n) \<Longrightarrow> hex_value c \<noteq> None"
proof (induction n rule: hex_text.induct)
  case (1 n)
  show ?case using 1 by (cases "n < 16") (auto simp: hex_text.simps [of n] hex_char)
qed

lemma separators: "hex_value CHR ''.'' = None" "hex_value CHR '':'' = None" "hex_value CHR ''/'' = None"
  by code_simp+

lemma texts_plain [simp]: "CHR ''.'' \<notin> set (decimal n)" "CHR ''/'' \<notin> set (decimal n)" "CHR '':'' \<notin> set (hex_text n)"
    "CHR ''/'' \<notin> set (hex_text n)"
  using decimal_chars hex_chars separators by blast+

lemma decimal_eq [simp]: "decimal n = decimal m \<longleftrightarrow> n = m"
  using number_decimal by metis

lemma hex_text_eq [simp]: "hex_text n = hex_text m \<longleftrightarrow> n = m"
  using number_hex by metis

lemma hex_text_nonempty [simp]: "hex_text n \<noteq> []"
  by (subst hex_text.simps) simp

lemma split_first: "c \<notin> set p \<Longrightarrow> c \<notin> set q \<Longrightarrow> p @ c # r = q @ c # s \<longleftrightarrow> p = q \<and> r = s"
  by (induction p arbitrary: q) (case_tac [!] q, auto)

lemma joined_Cons: "joined c (p # ps) = (if ps = [] then p else p @ c # joined c ps)"
  by (cases ps) simp_all

lemma joined_eq:
  assumes "\<forall>p \<in> set ps. c \<notin> set p \<and> p \<noteq> []" "\<forall>q \<in> set qs. c \<notin> set q \<and> q \<noteq> []"
  shows "joined c ps = joined c qs \<longleftrightarrow> ps = qs"
  using assms
proof (induction ps arbitrary: qs)
  case Nil
  then show ?case by (cases qs) (auto simp: joined_Cons)
next
  case (Cons p ps)
  show ?case
  proof (cases qs)
    case Nil
    then show ?thesis using Cons.prems by (auto simp: joined_Cons)
  next
    case (Cons q qs')
    have "p @ c # r \<noteq> q" "p \<noteq> q @ c # r" for r using Cons.prems Cons by auto
    then show ?thesis
      using Cons.prems Cons.IH [of qs'] Cons split_first [of c p q] by (auto simp: joined_Cons)
  qed
qed

lemma joined_chars: "d \<in> set (joined c ps) \<Longrightarrow> d = c \<or> (\<exists>p \<in> set ps. d \<in> set p)"
  by (induction ps) (auto simp: joined_Cons split: if_splits)

section \<open>Networks of IPv6\<close>

definition strip_zeros :: "nat list \<Rightarrow> nat list" where
  "strip_zeros xs = rev (dropWhile (\<lambda>x. x = 0) (rev xs))"

lemma strip_zeros_eq: "length xs = length ys \<Longrightarrow> strip_zeros xs = strip_zeros ys \<longleftrightarrow> xs = ys"
proof -
  have split: "xs = strip_zeros xs @ replicate (length xs - length (strip_zeros xs)) 0" for xs :: "nat list"
  proof -
    have z: "takeWhile (\<lambda>x. x = 0) l = replicate (length (takeWhile (\<lambda>x. x = 0) l)) (0 :: nat)" for l
      by (induction l) auto
    have "xs = rev (takeWhile (\<lambda>x. x = 0) (rev xs) @ dropWhile (\<lambda>x. x = 0) (rev xs))" by simp
    also have "\<dots> = strip_zeros xs @ rev (takeWhile (\<lambda>x. x = 0) (rev xs))" by (simp add: strip_zeros_def del: takeWhile_dropWhile_id)
    finally have e: "xs = strip_zeros xs @ rev (takeWhile (\<lambda>x. x = 0) (rev xs))" .
    then have "length (takeWhile (\<lambda>x. x = 0) (rev xs)) = length xs - length (strip_zeros xs)"
      by (metis add_diff_cancel_left' length_append length_rev)
    then show ?thesis using e z [of "rev xs"] by (metis rev_replicate)
  qed
  show "length xs = length ys \<Longrightarrow> strip_zeros xs = strip_zeros ys \<longleftrightarrow> xs = ys" using split by metis
qed

text \<open>The last four fields of a network are zero, so the longest run ends the text.\<close>

lemma v6_text_network: "v6_text [a, b, c, d, 0, 0, 0, 0] = joined CHR '':'' (map hex_text (strip_zeros [a, b, c, d])) @ ''::''"
proof -
  have u: "[0..<8] = [0, 1, 2, 3, 4, 5, 6, 7 :: nat]" by code_simp
  show ?thesis
    unfolding v6_text_def longest_run_def u
    by (cases "a = 0"; cases "b = 0"; cases "c = 0"; cases "d = 0")
      (simp_all add: zero_run_def strip_zeros_def Let_def numeral_eq_Suc)
qed

lemma v6_text_network_eq: "v6_text [a, b, c, d, 0, 0, 0, 0] = v6_text [a', b', c', d', 0, 0, 0, 0] \<longleftrightarrow>
    [a, b, c, d] = [a', b', c', d']"
proof -
  have inj: "map hex_text xs = map hex_text ys \<longleftrightarrow> xs = ys" for xs ys
    by (rule inj_map_eq_map) (simp add: inj_def)
  show ?thesis
    unfolding v6_text_network append_same_eq
    by (subst joined_eq) (auto simp: inj strip_zeros_eq simp del: strip_zeros_def)
qed


section \<open>Fields of a word\<close>

lemma field_of_masked:
  fixes a :: "'a :: len word"
  shows "take_bit n (drop_bit (n * k) (a AND NOT (mask (n * j)))) = (if k < j then 0 else take_bit n (drop_bit (n * k) a))"
proof (rule bit_word_eqI)
  fix i assume "i < LENGTH('a)"
  have "n * k + i < n * j" if "i < n" "k < j"
  proof -
    have "n * k + i < n * Suc k" using that(1) by simp
    also have "\<dots> \<le> n * j" using that(2) by (intro mult_le_mono2) simp
    finally show ?thesis .
  qed
  moreover have "n * j \<le> n * k + i" if "\<not> k < j" using that by (simp add: trans_le_add1)
  ultimately show "bit (take_bit n (drop_bit (n * k) (a AND NOT (mask (n * j))))) i
      = bit (if k < j then 0 else take_bit n (drop_bit (n * k) a)) i"
    by (auto simp: bit_simps dest: bit_imp_le_length)
qed

lemma fields_eq:
  fixes a b :: "'a :: len word"
  assumes "0 < n" "LENGTH('a) = n * m"
  shows "(\<forall>k \<in> {j..<m}. unat (take_bit n (drop_bit (n * k) a)) = unat (take_bit n (drop_bit (n * k) b)))
    \<longleftrightarrow> drop_bit (n * j) a = drop_bit (n * j) b"
proof
  assume eq: "\<forall>k \<in> {j..<m}. unat (take_bit n (drop_bit (n * k) a)) = unat (take_bit n (drop_bit (n * k) b))"
  show "drop_bit (n * j) a = drop_bit (n * j) b"
  proof (rule bit_word_eqI)
    fix i
    define q where "q = n * j + i"
    have "bit a q = bit b q" if "q < n * m"
    proof -
      have "j \<le> q div n" using assms(1) by (simp add: q_def)
      moreover have "q div n < m" using that assms(1) by (simp add: less_mult_imp_div_less mult.commute)
      ultimately have "take_bit n (drop_bit (n * (q div n)) a) = take_bit n (drop_bit (n * (q div n)) b)"
        using eq by (intro word_unat_eq_iff [THEN iffD2]) simp
      then have "bit (take_bit n (drop_bit (n * (q div n)) a)) (q mod n) = bit (take_bit n (drop_bit (n * (q div n)) b)) (q mod n)"
        by simp
      then show ?thesis using assms(1) by (simp add: bit_simps)
    qed
    moreover have "\<not> bit a q" "\<not> bit b q" if "\<not> q < n * m"
      using that assms(2) by (metis bit_imp_le_length)+
    ultimately have "bit a q = bit b q" by blast
    then show "bit (drop_bit (n * j) a) i = bit (drop_bit (n * j) b) i" unfolding bit_drop_bit_eq q_def comp_apply .
  qed
next
  assume eq: "drop_bit (n * j) a = drop_bit (n * j) b"
  have split: "drop_bit (n * k) c = drop_bit (n * (k - j)) (drop_bit (n * j) c)" if "j \<le> k" for k and c :: "'a word"
  proof -
    have "n * (k - j) + n * j = n * k" using that by (metis add_mult_distrib2 le_add_diff_inverse2)
    then show ?thesis by (simp only: drop_bit_drop_bit)
  qed
  show "\<forall>k \<in> {j..<m}. unat (take_bit n (drop_bit (n * k) a)) = unat (take_bit n (drop_bit (n * k) b))"
  proof
    fix k assume "k \<in> {j..<m}"
    then have "drop_bit (n * k) a = drop_bit (n * k) b" using split [of k a] split [of k b] eq by simp
    then show "unat (take_bit n (drop_bit (n * k) a)) = unat (take_bit n (drop_bit (n * k) b))" by (simp only:)
  qed
qed

section \<open>Networks and their texts\<close>

text \<open>Two addresses lie in the same network: equal but for the last 8 bits, or the last 64 bits.\<close>

fun same_network :: "addr \<Rightarrow> addr \<Rightarrow> bool" where
  "same_network (V4 a) (V4 b) \<longleftrightarrow> drop_bit 8 a = drop_bit 8 b"
| "same_network (V6 a _) (V6 b _) \<longleftrightarrow> drop_bit 64 a = drop_bit 64 b"
| "same_network _ _ \<longleftrightarrow> False"

definition field :: "nat \<Rightarrow> 'a :: len word \<Rightarrow> nat \<Rightarrow> nat" where
  "field n a k = unat (take_bit n (drop_bit (n * k) a))"

lemma v4_network_text: "prefix_text (network_of (V4 a)) =
    joined CHR ''.'' (map decimal [field 8 a 3, field 8 a 2, field 8 a 1, 0]) @ ''/24''"
proof -
  have u: "rev [0..<4] = [3, 2, 1, 0 :: nat]" and b: "decimal 24 = ''24''" by code_simp+
  show ?thesis
    using field_of_masked [of 8 3 a 1] field_of_masked [of 8 2 a 1] field_of_masked [of 8 1 a 1] field_of_masked [of 8 0 a 1]
    by (simp add: network_of_def fields_of_def u b field_def del: joined.simps)
qed

lemma v6_network_text: "prefix_text (network_of (V6 a z)) =
    v6_text [field 16 a 7, field 16 a 6, field 16 a 5, field 16 a 4, 0, 0, 0, 0] @ ''/64''"
proof -
  have u: "rev [0..<8] = [7, 6, 5, 4, 3, 2, 1, 0 :: nat]" and b: "decimal 64 = ''64''" by code_simp+
  show ?thesis
    using field_of_masked [of 16 7 a 4] field_of_masked [of 16 6 a 4] field_of_masked [of 16 5 a 4] field_of_masked [of 16 4 a 4]
      field_of_masked [of 16 3 a 4] field_of_masked [of 16 2 a 4] field_of_masked [of 16 1 a 4] field_of_masked [of 16 0 a 4]
    by (simp add: network_of_def fields_of_def u b field_def)
qed

lemma network_text_eq: "prefix_text (network_of a) = prefix_text (network_of b) \<longleftrightarrow> same_network a b"
proof (cases a; cases b)
  fix v w assume ab: "a = V4 v" "b = V4 w"
  have "prefix_text (network_of a) = prefix_text (network_of b) \<longleftrightarrow>
      (\<forall>k \<in> {1..<4}. field 8 v k = field 8 w k)"
    unfolding ab v4_network_text append_same_eq
    by (subst joined_eq) (auto simp: decimal_nonempty atLeastLessThan_upt upt_conv_Cons numeral_eq_Suc)
  also have "\<dots> \<longleftrightarrow> same_network a b" using fields_eq [of 8 4 1 v w] by (simp add: ab field_def)
  finally show ?thesis .
next
  fix v y w z assume ab: "a = V6 v y" "b = V6 w z"
  have "prefix_text (network_of a) = prefix_text (network_of b) \<longleftrightarrow>
      (\<forall>k \<in> {4..<8}. field 16 v k = field 16 w k)"
    unfolding ab v6_network_text append_same_eq v6_text_network_eq
    by (auto simp: atLeastLessThan_upt upt_conv_Cons)
  also have "\<dots> \<longleftrightarrow> same_network a b" using fields_eq [of 16 8 4 v w] by (simp add: ab field_def)
  finally show ?thesis .
next
  fix v y w assume "a = V4 v" "b = V6 w y"
  moreover have "x @ ''/24'' \<noteq> y @ ''/64''" for x y :: string by (auto dest: arg_cong [where f = "\<lambda>s. rev s ! 1"])
  ultimately show ?thesis unfolding \<open>a = V4 v\<close> \<open>b = V6 w y\<close> v4_network_text v6_network_text by simp
next
  fix v y w assume "a = V6 w y" "b = V4 v"
  moreover have "x @ ''/64'' \<noteq> y @ ''/24''" for x y :: string by (auto dest: arg_cong [where f = "\<lambda>s. rev s ! 1"])
  ultimately show ?thesis unfolding \<open>b = V4 v\<close> \<open>a = V6 w y\<close> v4_network_text v6_network_text by simp
qed

lemma network_text_known: "prefix_text (network_of a) \<noteq> ''unknown''"
proof -
  have "''unknown'' \<noteq> x @ ''/24''" "''unknown'' \<noteq> x @ ''/64''" for x :: string
    by (auto dest: arg_cong [where f = last])
  then show ?thesis by (cases a) (metis v4_network_text, metis v6_network_text)
qed

text \<open>C36: Requests whose peers have an address are charged to the same source exactly when the addresses
  they count for lie in one /24 (IPv4) or one /64 (IPv6), never to the source of unknown peers; and
  without a trusted proxy as peer the forwarding header changes nothing.\<close>

theorem source_network_exact:
  assumes "peer_addr remote = Some ip" "peer_addr remote' = Some ip'"
  shows "(source_network proxies remote forwarded = source_network proxies remote' forwarded'
      \<longleftrightarrow> same_network (client_addr proxies forwarded ip) (client_addr proxies forwarded' ip'))
    \<and> source_network proxies remote forwarded \<noteq> ''unknown''
    \<and> ((\<forall>p \<in> set proxies. \<not> contains p ip) \<longrightarrow> client_addr proxies forwarded ip = ip)"
  using assms by (simp add: source_network_def network_text_eq network_text_known client_addr_def list_ex_iff)

lemma peer_v4:
  assumes "split_host r = Some s" "find (\<lambda>c. c \<in> set ''.:%'') s = Some CHR ''.''" "v4_fields s = Some xs"
  shows "peer_addr r = Some (V4 (from_fields 8 xs))"
  using assms by (simp add: peer_addr_def parse_addr_def)

theorem source_network_exact_witness:
  "source_network [] ''10.1.2.3:80'' ''1.1.1.1'' = source_network [] ''10.1.2.77:81'' ''2.2.2.2''
    \<and> source_network [] ''10.1.2.3:80'' ''1.1.1.1'' \<noteq> ''unknown''"
proof -
  have s: "split_host ''10.1.2.3:80'' = Some ''10.1.2.3''" "split_host ''10.1.2.77:81'' = Some ''10.1.2.77''"
    and v: "v4_fields ''10.1.2.3'' = Some [10, 1, 2, 3]" "v4_fields ''10.1.2.77'' = Some [10, 1, 2, 77]"
    by code_simp+
  have d: "find (\<lambda>c. c \<in> set ''.:%'') ''10.1.2.3'' = Some CHR ''.''"
    "find (\<lambda>c. c \<in> set ''.:%'') ''10.1.2.77'' = Some CHR ''.''" by simp_all
  have "same_network (V4 (from_fields 8 [10, 1, 2, 3])) (V4 (from_fields 8 [10, 1, 2, 77]))"
    by (simp add: from_fields_def)
  moreover have "client_addr [] f a = a" for f a by (simp add: client_addr_def)
  note source_network_exact [OF peer_v4 [OF s(1) d(1) v(1)] peer_v4 [OF s(2) d(2) v(2)], of "[]" "''1.1.1.1''" "''2.2.2.2''",
    unfolded this]
  ultimately show ?thesis by blast
qed

end
