(* ===== verification/Setup.thy ===== *)
theory Setup
  imports Network SiteTheorems
begin

text \<open>
  Opening a database (\<open>OpenWithOptions\<close> and \<open>initializeDatabase\<close> of \<open>db.go\<close>, \<open>setIdentityKey\<close> of
  \<open>identity.go\<close>, the presets of \<open>branding.go\<close>): the checks of the options, the version of the schema, and
  the participant identity key, which is fixed when the database is created.
\<close>

section \<open>Options\<close>

record branding =
  br_class :: string
  br_name :: string
  br_home :: string

definition branding_preset :: "string \<Rightarrow> branding result" where
  "branding_preset name =
     (if name = [] \<or> name = ''prometheus''
        then Inr \<lparr>br_class = ''brand-prometheus'', br_name = ''Prometheus'', br_home = ''Prometheus study home''\<rparr>
      else if name = ''neutral''
        then Inr \<lparr>br_class = ''brand-neutral'', br_name = ''Tree study'', br_home = ''Tree study home''\<rparr>
      else Inl (Internal (''unknown branding preset '' @ name @ ''; use prometheus or neutral'')))"

text \<open>What the code reads of the value of \<open>url.Parse\<close>, which is an argument.\<close>

record parsed_url =
  pu_scheme :: string
  pu_host :: string
  pu_path :: string
  pu_query :: string
  pu_fragment :: string
  pu_user :: bool

type_synonym url_parser = "string \<Rightarrow> parsed_url option"

definition http_origin :: "parsed_url \<Rightarrow> bool" where
  "http_origin u \<longleftrightarrow> (pu_scheme u = ''http'' \<or> pu_scheme u = ''https'') \<and> pu_host u \<noteq> [] \<and> \<not> pu_user u \<and> pu_query u = []
     \<and> pu_fragment u = [] \<and> (pu_path u = [] \<or> pu_path u = ''/'')"

definition origin_text :: "parsed_url \<Rightarrow> string" where
  "origin_text u = pu_scheme u @ ''://'' @ pu_host u"

text \<open>The origin that requests are compared with, and whether it is secure.\<close>

definition public_origin :: "url_parser \<Rightarrow> string \<Rightarrow> (string \<times> bool) result" where
  "public_origin url public_url =
     (if public_url = [] then Inr ([], False)
      else case url public_url of
          None \<Rightarrow> Inl (Internal ''public URL must be an http(s) origin'')
        | Some u \<Rightarrow> if http_origin u then Inr (origin_text u, pu_scheme u = ''https'')
            else Inl (Internal ''public URL must be an http(s) origin''))"

record options =
  op_key :: string
  op_branding :: string
  op_proxies :: "string list option"

section \<open>The database file\<close>

text \<open>
  \<open>df_version\<close> is \<open>user_version\<close>, \<open>df_objects\<close> tells whether the file holds any table or index, and
  \<open>df_secrets\<close> is the table \<open>server_secrets\<close>. The other tables are those of the site.
\<close>

record database_file =
  df_version :: int
  df_objects :: bool
  df_secrets :: "(string \<times> string) list"
  df_db :: database
  df_drafts :: drafts
  df_accounts :: accounts

definition schema_number :: int where "schema_number = 7"

definition key_name :: string where "key_name = ''participant-identity-v1''"
definition fingerprint_name :: string where "fingerprint_name = ''participant-identity-v1-fingerprint''"

definition insert_secret :: "string \<Rightarrow> string \<Rightarrow> (string \<times> string) list \<Rightarrow> (string \<times> string) list result" where
  "insert_secret name v l = (case tbl_insert fst (name, v) l of
     None \<Rightarrow> Inl (constraint_failed ''UNIQUE'') | Some t \<Rightarrow> Inr t)"

text \<open>
  The key of the server: the external one, the stored one, or a new random one that is stored.
\<close>

definition choose_key :: "string \<Rightarrow> string \<Rightarrow> bool \<Rightarrow> (string \<times> string) list \<Rightarrow> (string \<times> (string \<times> string) list) result" where
  "choose_key fresh key new l =
     (if key \<noteq> [] then Inr (key, l)
      else case map_of l key_name of
          Some k \<Rightarrow> Inr (k, l)
        | None \<Rightarrow>
            if \<not> new
              then Inl (Internal ''this database requires --identity-key-file with its original participant identity key'')
            else (case insert_secret key_name fresh l of Inl e \<Rightarrow> Inl e | Inr t \<Rightarrow> Inr (fresh, t)))"

text \<open>\<open>setIdentityKey\<close>; \<open>hash\<close> is \<open>sha256.Sum256\<close>.\<close>

definition set_identity_key ::
    "(string \<Rightarrow> string) \<Rightarrow> string \<Rightarrow> string \<Rightarrow> bool \<Rightarrow> (string \<times> string) list \<Rightarrow> (string \<times> (string \<times> string) list) result" where
  "set_identity_key hash fresh key new l =
     (let stored = map_of l key_name; fingerprint = (case map_of l fingerprint_name of None \<Rightarrow> [] | Some v \<Rightarrow> v) in
      if key \<noteq> [] \<and> length key \<noteq> 32 then Inl (Internal ''participant identity key must be exactly 32 bytes'')
      else if stored \<noteq> None \<and> length (the stored) \<noteq> 32
        then Inl (Internal ''stored participant identity key has invalid length'')
      else if \<not> new \<and> length fingerprint \<noteq> 32
        then Inl (Internal ''stored participant identity key fingerprint has invalid length'')
      else if key \<noteq> [] \<and> stored \<noteq> None
        then Inl (Internal ''this database uses a local participant identity key; recreate the database to use --identity-key-file'')
      else case choose_key fresh key new l of Inl e \<Rightarrow> Inl e
        | Inr (k, l1) \<Rightarrow>
            if new then (case insert_secret fingerprint_name (hash k) l1 of Inl e \<Rightarrow> Inl e | Inr l2 \<Rightarrow> Inr (k, l2))
            else if fingerprint \<noteq> hash k
              then Inl (Internal ''participant identity key does not match this database; use the original key or recreate the database'')
            else Inr (k, l1))"

text \<open>The tables of the schema before any row is in them.\<close>

definition no_tables :: "database_file \<Rightarrow> database_file" where
  "no_tables f = f\<lparr>df_version := schema_number, df_objects := True, df_secrets := [], df_db := site_db empty_site,
     df_drafts := [], df_accounts := \<lparr>ac_users = [], ac_admins = []\<rparr>\<rparr>"

text \<open>\<open>initializeDatabase\<close>: one transaction, so an error leaves the file as it was.\<close>

definition initialize_database ::
    "(string \<Rightarrow> string) \<Rightarrow> string \<Rightarrow> string \<Rightarrow> database_file \<Rightarrow> string result \<times> database_file" where
  "initialize_database hash fresh key f =
     (if df_version f = 0 \<and> df_objects f
        then (Inl (Internal ''database has an unrecognized schema; recreate the database''), f)
      else if df_version f \<noteq> 0 \<and> df_version f \<noteq> schema_number
        then (Inl (Internal (''unsupported database schema '' @ json_int (df_version f) @ '' (expected '' @
          json_int schema_number @ ''); recreate the database'')), f)
      else let g = (if df_version f = 0 then no_tables f else f) in
        case set_identity_key hash fresh key (df_version f = 0) (df_secrets g) of Inl e \<Rightarrow> (Inl e, f)
        | Inr (k, l) \<Rightarrow> (Inr k, g\<lparr>df_secrets := l\<rparr>))"

text \<open>
  \<open>OpenWithOptions\<close>. \<open>opening\<close> is the error of creating the directory and the file and of the SQLite
  driver, if any.
\<close>

record opened =
  on_origin :: string
  on_secure :: bool
  on_proxies :: "prefix list"
  on_branding :: branding
  on_key :: string

definition check_options :: "url_parser \<Rightarrow> string \<Rightarrow> options \<Rightarrow> (branding \<times> prefix list \<times> string \<times> bool) result" where
  "check_options url public_url opt =
     (case branding_preset (op_branding opt) of Inl e \<Rightarrow> Inl e
      | Inr b \<Rightarrow> (case parse_trusted_proxies (op_proxies opt) of Inl e \<Rightarrow> Inl e
        | Inr ps \<Rightarrow> (case public_origin url public_url of Inl e \<Rightarrow> Inl e
          | Inr (origin, secure) \<Rightarrow> Inr (b, ps, origin, secure))))"

definition open_with_options ::
    "url_parser \<Rightarrow> (string \<Rightarrow> string) \<Rightarrow> string \<Rightarrow> string option \<Rightarrow> string \<Rightarrow> options \<Rightarrow> database_file \<Rightarrow> opened result \<times> database_file" where
  "open_with_options url hash fresh opening public_url opt f =
     (case check_options url public_url opt of Inl e \<Rightarrow> (Inl e, f)
      | Inr (b, ps, origin, secure) \<Rightarrow> (case opening of Some e \<Rightarrow> (Inl (Internal e), f)
        | None \<Rightarrow> (case initialize_database hash fresh (op_key opt) f of (Inl e, g) \<Rightarrow> (Inl e, g)
          | (Inr k, g) \<Rightarrow> (Inr \<lparr>on_origin = origin, on_secure = secure, on_proxies = ps, on_branding = b, on_key = k\<rparr>, g))))"

section \<open>The identity key of a database\<close>

text \<open>A database of the current version, created with the key \<open>k\<close>.\<close>

definition sealed :: "(string \<Rightarrow> string) \<Rightarrow> string \<Rightarrow> database_file \<Rightarrow> bool" where
  "sealed hash k f \<longleftrightarrow> df_version f = schema_number \<and> length k = 32 \<and> map_of (df_secrets f) fingerprint_name = Some (hash k)
     \<and> (case map_of (df_secrets f) key_name of None \<Rightarrow> True | Some s \<Rightarrow> s = k)"

lemma names_differ [simp]: "key_name \<noteq> fingerprint_name" "fingerprint_name \<noteq> key_name"
  by (simp_all add: key_name_def fingerprint_name_def)

lemma open_initializes:
  assumes "open_with_options url hash fresh opening u opt f = (Inr s, g)"
  shows "initialize_database hash fresh (op_key opt) f = (Inr (on_key s), g)"
  using assms by (auto simp: open_with_options_def split: sum.splits option.splits prod.splits)

lemma open_error_keeps:
  assumes "open_with_options url hash fresh opening u opt f = (Inl e, g)"
  shows "g = f"
  using assms by (auto simp: open_with_options_def initialize_database_def Let_def split: sum.splits option.splits prod.splits if_splits)

lemma created_sealed:
  assumes "initialize_database hash fresh key f = (Inr k, g)" "df_version f = 0" "length fresh = 32"
  shows "sealed hash k g" "df_db g = site_db empty_site" "key \<noteq> [] \<longleftrightarrow> map_of (df_secrets g) key_name = None"
    "key \<noteq> [] \<Longrightarrow> k = key"
  using assms by (auto simp: initialize_database_def no_tables_def set_identity_key_def choose_key_def insert_secret_def
      tbl_insert_def sealed_def Let_def split: if_splits sum.splits option.splits prod.splits)

lemma reopened_sealed:
  assumes "sealed hash k f" "initialize_database hash fresh key f = (Inr k', g)"
  shows "hash k' = hash k" "g = f" "length k' = 32" "key \<noteq> [] \<longleftrightarrow> map_of (df_secrets f) key_name = None"
    "map_of (df_secrets f) key_name \<noteq> None \<Longrightarrow> k' = k"
  using assms by (auto simp: initialize_database_def schema_number_def set_identity_key_def choose_key_def
      sealed_def Let_def split: if_splits sum.splits option.splits prod.splits)

text \<open>
  The life of a database: processes open it one after the other, each with its own options. The list
  holds the attempts that succeed.
\<close>

record attempt_to_open =
  ao_fresh :: string
  ao_opening :: "string option"
  ao_url :: string
  ao_options :: options

fun open_all :: "url_parser \<Rightarrow> (string \<Rightarrow> string) \<Rightarrow> attempt_to_open list \<Rightarrow> database_file
    \<Rightarrow> (attempt_to_open \<times> opened) list \<times> database_file" where
  "open_all url hash [] f = ([], f)"
| "open_all url hash (a # as) f =
     (case open_with_options url hash (ao_fresh a) (ao_opening a) (ao_url a) (ao_options a) f of
        (Inl e, g) \<Rightarrow> open_all url hash as g
      | (Inr s, g) \<Rightarrow> (case open_all url hash as g of (l, h) \<Rightarrow> ((a, s) # l, h)))"

text \<open>What every later opening has in common with the one that created the database.\<close>

definition same_key :: "(string \<Rightarrow> string) \<Rightarrow> string \<Rightarrow> bool \<Rightarrow> attempt_to_open \<times> opened \<Rightarrow> bool" where
  "same_key hash k external as \<longleftrightarrow> hash (on_key (snd as)) = hash k \<and> length (on_key (snd as)) = 32
     \<and> (op_key (ao_options (fst as)) \<noteq> [] \<longleftrightarrow> external) \<and> (\<not> external \<longrightarrow> on_key (snd as) = k)"

lemma same_key_both:
  assumes "same_key hash k external (a, s)" "same_key hash k external (b, t)"
  shows "op_key (ao_options a) = [] \<longleftrightarrow> op_key (ao_options b) = []"
    "if op_key (ao_options a) = [] then on_key s = on_key t else external"
  using assms by (cases external; simp add: same_key_def)+

lemma open_all_sealed:
  assumes "sealed hash k f" "open_all url hash as f = (l, g)"
  shows "g = f \<and> list_all (same_key hash k (map_of (df_secrets f) key_name = None)) l"
  using assms(2)
proof (induction as arbitrary: l)
  case Nil
  then show ?case by simp
next
  case (Cons a as)
  obtain r h where o: "open_with_options url hash (ao_fresh a) (ao_opening a) (ao_url a) (ao_options a) f = (r, h)" by fastforce
  show ?case
  proof (cases r)
    case (Inl e)
    with o have "h = f" by (auto dest: open_error_keeps)
    with Cons o Inl show ?thesis by simp
  next
    case (Inr s)
    note same = reopened_sealed [OF assms(1) open_initializes [OF o [unfolded Inr]]]
    obtain l' where l: "open_all url hash as f = (l', g)" "l = (a, s) # l'"
      using Cons.prems o Inr same(2) by (auto split: prod.splits)
    have "same_key hash k (map_of (df_secrets f) key_name = None) (a, s)"
      using same by (auto simp: same_key_def)
    with Cons.IH [OF l(1)] show ?thesis by (simp add: l(2))
  qed
qed

lemma open_all_new:
  assumes "df_version f = 0" "\<forall>a \<in> set as. length (ao_fresh a) = 32" "open_all url hash as f = (l, g)"
  shows "l = [] \<or> (\<exists>k. sealed hash k g \<and> list_all (same_key hash k (map_of (df_secrets g) key_name = None)) l)"
  using assms(2,3)
proof (induction as arbitrary: l)
  case Nil
  then show ?case by simp
next
  case (Cons a as)
  obtain r h where o: "open_with_options url hash (ao_fresh a) (ao_opening a) (ao_url a) (ao_options a) f = (r, h)" by fastforce
  show ?case
  proof (cases r)
    case (Inl e)
    with o have "h = f" by (auto dest: open_error_keeps)
    with Cons o Inl show ?thesis by simp
  next
    case (Inr s)
    have made: "sealed hash (on_key s) h" "op_key (ao_options a) \<noteq> [] \<longleftrightarrow> map_of (df_secrets h) key_name = None"
      using created_sealed(1,3) [OF open_initializes [OF o [unfolded Inr]] assms(1)] Cons.prems(1) by simp_all
    obtain l' where l: "open_all url hash as h = (l', g)" "l = (a, s) # l'"
      using Cons.prems o Inr by (auto split: prod.splits)
    have "same_key hash (on_key s) (map_of (df_secrets h) key_name = None) (a, s)"
      using made by (simp add: same_key_def sealed_def)
    with open_all_sealed [OF made(1) l(1)] made(1) show ?thesis by (simp add: l(2)) blast
  qed
qed

text \<open>C37: However often a database is opened after its creation, with whatever options, the servers that
  come up all have identity keys of 32 bytes with one and the same fingerprint, hence one key as far
  as SHA-256 tells them apart, and all of them get it the same way: either every one from outside,
  and then the database never holds it, or none, and then they are equal outright.\<close>

theorem identity_key_fixed:
  assumes "df_version f = 0" "\<forall>a \<in> set as. length (ao_fresh a) = 32" "open_all url hash as f = (l, g)"
    "(a, s) \<in> set l" "(b, t) \<in> set l"
  shows "length (on_key s) = 32 \<and> hash (on_key s) = hash (on_key t)
    \<and> (inj_on hash {on_key s, on_key t} \<longrightarrow> on_key s = on_key t)
    \<and> (op_key (ao_options a) = [] \<longleftrightarrow> op_key (ao_options b) = [])
    \<and> (if op_key (ao_options a) = [] then on_key s = on_key t else map_of (df_secrets g) key_name = None)"
proof -
  obtain k where "sealed hash k g" "list_all (same_key hash k (map_of (df_secrets g) key_name = None)) l"
    using open_all_new [OF assms(1-3)] assms(4) by auto
  then have same: "same_key hash k (map_of (df_secrets g) key_name = None) (a, s)"
    "same_key hash k (map_of (df_secrets g) key_name = None) (b, t)"
    using assms(4,5) by (auto simp: list_all_iff)
  then have h: "hash (on_key s) = hash (on_key t)" "length (on_key s) = 32" by (simp_all add: same_key_def)
  have "inj_on hash {on_key s, on_key t} \<longrightarrow> on_key s = on_key t"
    using inj_onD [of hash "{on_key s, on_key t}" "on_key s" "on_key t"] h(1) by blast
  with h same_key_both [OF same] show ?thesis by (intro conjI)
qed

section \<open>The site of a process\<close>

text \<open>A process that serves the file starts with empty limiters.\<close>

definition site_of :: "database_file \<Rightarrow> site" where
  "site_of f = \<lparr>si_server = \<lparr>sv_db = df_db f, sv_windows = []\<rparr>, si_drafts = df_drafts f, si_accounts = df_accounts f,
     si_failures = new_login_limiter, si_purging = []\<rparr>"

lemma created_site:
  assumes "open_with_options url hash fresh opening u opt f = (Inr s, g)" "df_version f = 0"
  shows "site_of g = empty_site" "fresh_site (site_of g)"
proof -
  show "site_of g = empty_site"
    using open_initializes [OF assms(1)] assms(2)
    by (auto simp: initialize_database_def no_tables_def site_of_def empty_site_def site_db_def Let_def
        split: if_splits sum.splits prod.splits)
  then show "fresh_site (site_of g)" using empty_site_fresh by simp
qed

section \<open>A database opened twice with an external key\<close>

definition demo_open :: attempt_to_open where
  "demo_open = \<lparr>ao_fresh = replicate 32 CHR ''r'', ao_opening = None, ao_url = [],
     ao_options = \<lparr>op_key = replicate 32 CHR ''k'', op_branding = ''neutral'', op_proxies = Some []\<rparr>\<rparr>"

definition demo_file :: database_file where
  "demo_file = \<lparr>df_version = 0, df_objects = False, df_secrets = [], df_db = site_db empty_site, df_drafts = [],
     df_accounts = \<lparr>ac_users = [], ac_admins = []\<rparr>\<rparr>"

definition demo_opened :: opened where
  "demo_opened = \<lparr>on_origin = [], on_secure = False, on_proxies = [],
     on_branding = \<lparr>br_class = ''brand-neutral'', br_name = ''Tree study'', br_home = ''Tree study home''\<rparr>,
     on_key = replicate 32 CHR ''k''\<rparr>"

definition demo_reopen_file :: database_file where
  "demo_reopen_file = (no_tables demo_file)\<lparr>df_secrets := [(fingerprint_name, rev (replicate 32 CHR ''k''))]\<rparr>"

lemma demo_opens:
  "open_all (\<lambda>_. None) rev [demo_open, demo_open] demo_file = ([(demo_open, demo_opened), (demo_open, demo_opened)], demo_reopen_file)"
  by (simp add: demo_open_def demo_file_def demo_opened_def demo_reopen_file_def open_with_options_def check_options_def branding_preset_def
      parse_trusted_proxies_def public_origin_def initialize_database_def no_tables_def set_identity_key_def choose_key_def
      insert_secret_def tbl_insert_def schema_number_def Let_def)

theorem identity_key_fixed_witness:
  "length (on_key demo_opened) = 32 \<and> map_of (df_secrets demo_reopen_file) key_name = None"
proof -
  have "length (on_key demo_opened) = 32 \<and> op_key (ao_options demo_open) \<noteq> []"
    by (simp add: demo_opened_def demo_open_def)
  with identity_key_fixed [OF _ _ demo_opens, of demo_open demo_opened demo_open demo_opened] show ?thesis
    by (simp add: demo_file_def demo_open_def)
qed

end
