(* ===== verification/Routing.thy ===== *)
theory Routing
  imports Setup
begin

text \<open>
  The HTTP front of \<open>server.go\<close>: the routes with their guards, the same-origin check and the source
  limit before a request that may write, and the decoding of a JSON body. The matching of a request is
  that of \<open>http.ServeMux\<close> on a clean path; \<open>url.Parse\<close> and the JSON decoder are arguments.
\<close>

section \<open>Requests\<close>

text \<open>
  \<open>hq_segments\<close> are the unescaped segments of a clean path after its first slash, \<open>hq_header\<close> is
  \<open>Header.Get\<close> (empty for a missing header) and \<open>hq_query\<close> is \<open>Query().Get\<close>.
\<close>

record http_request =
  hq_method :: string
  hq_segments :: "string list"
  hq_host :: string
  hq_tls :: bool
  hq_remote :: string
  hq_header :: "string \<Rightarrow> string"
  hq_cookie :: "string \<Rightarrow> string option"
  hq_query :: "string \<Rightarrow> string"
  hq_body :: string

definition path_text :: "string list \<Rightarrow> string" where
  "path_text segs = concat (map (\<lambda>s. CHR ''/'' # s) segs)"

definition reads :: "string \<Rightarrow> bool" where
  "reads meth \<longleftrightarrow> meth = ''GET'' \<or> meth = ''HEAD''"

text \<open>The server as it was opened, with \<open>url.Parse\<close>.\<close>

record configuration =
  co_server :: opened
  co_url :: url_parser

definition same_origin :: "configuration \<Rightarrow> http_request \<Rightarrow> bool" where
  "same_origin co r =
     (let site = hq_header r ''Sec-Fetch-Site'';
          origin = on_origin (co_server co);
          want = (if origin = [] then (if hq_tls r then ''https'' else ''http'') @ ''://'' @ hq_host r else origin);
          got = hq_header r ''Origin''; ref = hq_header r ''Referer''
      in if site \<noteq> [] \<and> site \<noteq> ''same-origin'' \<and> site \<noteq> ''none'' then False
         else if got \<noteq> [] then got = want
         else if ref \<noteq> [] then
           (case co_url co ref of None \<Rightarrow> False | Some u \<Rightarrow> origin_text u = want)
         else False)"

section \<open>Bodies\<close>

text \<open>
  \<open>decodeLimit\<close>. The argument \<open>first\<close> is \<open>Decode\<close> of a \<open>json.Decoder\<close> that rejects unknown fields: the
  first value of the text and what follows it. The reader gives at most \<open>max_bytes\<close> bytes and then
  an error, and after the value only white space may follow.
\<close>

definition decode_limit :: "(string \<Rightarrow> ('a \<times> string) option) \<Rightarrow> nat \<Rightarrow> http_request \<Rightarrow> 'a result" where
  "decode_limit first max_bytes r =
     (if takeWhile (\<lambda>c. c \<noteq> CHR '';'') (hq_header r ''Content-Type'') \<noteq> ''application/json''
        then Inl (Problem 415 ''Content-Type must be application/json'')
      else case first (take max_bytes (hq_body r)) of
          None \<Rightarrow> Inl (Problem 400 ''invalid JSON'')
        | Some (v, rest) \<Rightarrow>
            if length (hq_body r) > max_bytes \<or> \<not> list_all json_space rest
              then Inl (Problem 400 ''request must contain one JSON object'')
            else Inr v)"

definition decode_max :: nat where "decode_max = 8 * 1024 * 1024"

definition decode :: "(string \<Rightarrow> ('a \<times> string) option) \<Rightarrow> http_request \<Rightarrow> 'a result" where
  "decode first r = decode_limit first decode_max r"

section \<open>Routes\<close>

datatype endpoint = PublicInfo | JoinRun | ShowSession | StartTask | SendEvents | FinishTask
  | AdminSession | LogIn | LogOut | ValidateBundle | ListDrafts | CreateDraft | GetDraft | UpdateDraft | PublishDraft
  | ListVersions | ListRuns | CreateRun | UpdateRun | CreateInvitation | ShowResults | ExportTasks | ShowKey | ExportEvents
  | Page string

datatype segment = Lit string | Wild

text \<open>\<open>Protected owner\<close> is \<open>s.authorize(owner, \<dots>)\<close> around the handler.\<close>

datatype guard = Unprotected | Protected bool

definition public_path :: "string \<Rightarrow> segment list" where
  "public_path operation = [Lit ''api'', Lit ''public'', Wild, Lit operation]"

definition admin_path :: "segment list \<Rightarrow> segment list" where
  "admin_path rest = Lit ''admin'' # Lit ''api'' # rest"

definition routes :: "(string \<times> segment list \<times> guard \<times> endpoint) list" where
  "routes =
    [(''GET'', [Lit ''api'', Lit ''public'', Wild], Unprotected, PublicInfo),
     (''POST'', public_path ''join'', Unprotected, JoinRun),
     (''GET'', public_path ''session'', Unprotected, ShowSession),
     (''POST'', public_path ''start'', Unprotected, StartTask),
     (''POST'', public_path ''events'', Unprotected, SendEvents),
     (''POST'', public_path ''finish'', Unprotected, FinishTask),
     (''GET'', admin_path [Lit ''session''], Unprotected, AdminSession),
     (''POST'', admin_path [Lit ''login''], Unprotected, LogIn),
     (''POST'', admin_path [Lit ''logout''], Protected False, LogOut),
     (''POST'', admin_path [Lit ''validate''], Protected True, ValidateBundle),
     (''GET'', admin_path [Lit ''drafts''], Protected True, ListDrafts),
     (''POST'', admin_path [Lit ''drafts''], Protected True, CreateDraft),
     (''GET'', admin_path [Lit ''drafts'', Wild], Protected True, GetDraft),
     (''PUT'', admin_path [Lit ''drafts'', Wild], Protected True, UpdateDraft),
     (''POST'', admin_path [Lit ''drafts'', Wild, Lit ''publish''], Protected True, PublishDraft),
     (''GET'', admin_path [Lit ''versions''], Protected True, ListVersions),
     (''GET'', admin_path [Lit ''runs''], Protected False, ListRuns),
     (''POST'', admin_path [Lit ''runs''], Protected True, CreateRun),
     (''PATCH'', admin_path [Lit ''runs'', Wild], Protected True, UpdateRun),
     (''POST'', admin_path [Lit ''runs'', Wild, Lit ''invitations''], Protected True, CreateInvitation),
     (''GET'', admin_path [Lit ''runs'', Wild, Lit ''results''], Protected False, ShowResults),
     (''GET'', admin_path [Lit ''runs'', Wild, Lit ''export''], Protected False, ExportTasks),
     (''GET'', admin_path [Lit ''runs'', Wild, Lit ''key''], Protected True, ShowKey),
     (''GET'', admin_path [Lit ''runs'', Wild, Lit ''events''], Protected True, ExportEvents),
     (''GET'', [Lit []], Unprotected, Page ''index.html''),
     (''GET'', [Lit ''admin''], Unprotected, Page ''admin.html''),
     (''GET'', [Lit ''s'', Wild], Unprotected, Page ''participant.html'')]"

text \<open>
  A pattern matches a path segment by segment, a wildcard any segment that is not empty; a pattern for
  \<open>GET\<close> also serves \<open>HEAD\<close>. No two patterns match the same request, so the first match is the match.
\<close>

fun match_segments :: "segment list \<Rightarrow> string list \<Rightarrow> string list option" where
  "match_segments [] [] = Some []"
| "match_segments (Lit l # ps) (s # ss) = (if s = l then match_segments ps ss else None)"
| "match_segments (Wild # ps) (s # ss) = (if s = [] then None else map_option (Cons s) (match_segments ps ss))"
| "match_segments _ _ = None"

definition match_route :: "http_request \<Rightarrow> string \<times> segment list \<times> guard \<times> endpoint \<Rightarrow> string list option" where
  "match_route r route = (case route of (meth, pattern, _, _) \<Rightarrow>
     if hq_method r = meth \<or> (meth = ''GET'' \<and> hq_method r = ''HEAD'') then match_segments pattern (hq_segments r) else None)"

fun first_match :: "http_request \<Rightarrow> (string \<times> segment list \<times> guard \<times> endpoint) list
    \<Rightarrow> (guard \<times> endpoint \<times> string list) option" where
  "first_match r [] = None"
| "first_match r ((meth, pattern, g, e) # rs) =
     (case match_route r (meth, pattern, g, e) of Some vs \<Rightarrow> Some (g, e, vs) | None \<Rightarrow> first_match r rs)"

text \<open>
  \<open>route\<close> and \<open>authorize\<close>: what a matched request passes before its handler runs. The answer is the
  administrator that a protected handler runs for.
\<close>

definition admin_cookie :: string where "admin_cookie = ''tree_admin''"
definition participant_cookie :: string where "participant_cookie = ''tree_participant''"

definition guarded :: "auth_environment \<Rightarrow> guard \<Rightarrow> http_request \<Rightarrow> accounts \<Rightarrow> admin_identity option result" where
  "guarded env g r ac =
     (case g of Unprotected \<Rightarrow> Inr None
      | Protected owner \<Rightarrow>
          map_sum id Some (authorize env owner (hq_method r) (hq_cookie r admin_cookie) (hq_header r ''X-CSRF-Token'') ac))"

definition source_of :: "configuration \<Rightarrow> http_request \<Rightarrow> string" where
  "source_of co r = source_network (on_proxies (co_server co)) (hq_remote r) (hq_header r ''X-Forwarded-For'')"

definition pass_route ::
    "configuration \<Rightarrow> time \<Rightarrow> http_request \<Rightarrow> windows \<Rightarrow> api_error option \<times> windows" where
  "pass_route co now r w =
     (if reads (hq_method r) then (None, w)
      else if \<not> same_origin co r then (Some (Problem 403 ''same-origin request required''), w)
      else case limit_public_source now (path_text (hq_segments r)) (source_of co r) w of (w1, e) \<Rightarrow> (e, w1))"

end
