(* ===== verification/Serving.thy ===== *)
theory Serving
  imports Routing Views Exports
begin

text \<open>
  A request from its first byte to the new state: \<open>ServeHTTP\<close> finds the route, the route checks the
  request, and the handler decodes the body and runs the operation of its component on the site.
\<close>

section \<open>Bodies and answers\<close>

text \<open>The bodies that the handlers decode, and the JSON decoder for each of them.\<close>

record join_body =
  jb_experience :: string
  jb_familiarity :: string
  jb_invite :: string

record start_body =
  sb_command :: string
  sb_task :: string

record events_body =
  eb_attempt :: string
  eb_events :: "event list"

record finish_body =
  fb_attempt :: string
  fb_command :: string
  fb_outcome :: string
  fb_node :: string
  fb_events :: "event list option"

record login_body =
  lb_username :: string
  lb_password :: string

record draft_body =
  db_revision :: int
  db_bundle :: study_bundle

type_synonym 'a decoder = "string \<Rightarrow> ('a \<times> string) option"

record decoders =
  de_join :: "join_body decoder"
  de_start :: "start_body decoder"
  de_events :: "events_body decoder"
  de_finish :: "finish_body decoder"
  de_login :: "login_body decoder"
  de_bundle :: "study_bundle decoder"
  de_draft :: "draft_body decoder"
  de_publish :: "int decoder"
  de_run :: "create_run_request decoder"
  de_update :: "update_run_request decoder"
  de_invite :: "int decoder"

datatype answer = InfoAnswer "public_page \<times> string option" | SessionAnswer session_view | AckAnswer nat
  | IdentityAnswer admin_identity | LoginAnswer "string \<times> admin_identity" | OkAnswer
  | ValidationAnswer validation | DraftsAnswer "(string \<times> int \<times> string \<times> time) list" | DraftIdAnswer "string \<times> int"
  | DraftAnswer "int \<times> study_bundle" | RevisionAnswer int | PublishAnswer "string \<times> string"
  | VersionsAnswer "version_view list" | RunsAnswer "run_row list" | RunAnswer run_row | InviteAnswer "string \<times> time"
  | ResultsAnswer "health \<times> summary list \<times> summary list" | ExportAnswer export_body | KeyAnswer owner_key
  | EventsAnswer "string \<times> policy \<times> owner_session list \<times> owner_attempt list \<times> owner_event list"
  | PageAnswer string | FileAnswer string | NoAnswer

text \<open>
  What the process holds besides the site: the configuration, the decoders, the embedded files, and
  the two numbers that the reports show (size of the database files, active requests).
\<close>

record process =
  pr_config :: configuration
  pr_decoders :: decoders
  pr_assets :: "(string \<Rightarrow> string option) option"
  pr_database_bytes :: nat
  pr_active :: nat

section \<open>Pages and files\<close>

text \<open>\<open>strings.NewReplacer\<close>: at each place the first of the old texts that starts there is replaced.\<close>

fun replace_all :: "(string \<times> string) list \<Rightarrow> string \<Rightarrow> string" where
  "replace_all ps [] = []"
| "replace_all ps (c # s) =
     (case find (\<lambda>(old, new). has_prefix old (c # s)) ps of
        None \<Rightarrow> c # replace_all ps s
      | Some (old, new) \<Rightarrow> new @ replace_all ps (drop (length old - 1) s))"

definition placeholders :: "branding \<Rightarrow> (string \<times> string) list" where
  "placeholders b = [(''{{branding-class}}'', br_class b), (''{{branding-name}}'', br_name b),
     (''{{branding-home-label}}'', br_home b)]"

definition html :: "process \<Rightarrow> string \<Rightarrow> http_request \<Rightarrow> answer result" where
  "html p name r =
     (case pr_assets p of None \<Rightarrow> Inl (Problem 404 ''frontend unavailable'')
      | Some fs \<Rightarrow> (case fs name of None \<Rightarrow> Inl (Internal (''read frontend '' @ name))
        | Some text \<Rightarrow> Inr (PageAnswer (if hq_method r = ''HEAD'' then []
            else replace_all (placeholders (on_branding (co_server (pr_config p)))) text))))"

text \<open>The handler of \<open>/assets/\<close>; a \<open>FileAnswer\<close> is what \<open>http.FileServer\<close> serves under the path.\<close>

definition serve_asset :: "process \<Rightarrow> http_request \<Rightarrow> answer result" where
  "serve_asset p r =
     (if \<not> reads (hq_method r) then Inl (Problem 405 ''method not allowed'')
      else if pr_assets p = None then Inl (Problem 404 ''asset not found'')
      else if has_suffix ''/'' (path_text (hq_segments r)) then Inl (Problem 404 ''asset not found'')
      else Inr (FileAnswer (path_text (hq_segments r))))"

definition asset_path :: "string list \<Rightarrow> bool" where
  "asset_path segs \<longleftrightarrow> (case segs of s # _ # _ \<Rightarrow> s = ''assets'' | _ \<Rightarrow> False)"

section \<open>Handlers\<close>

definition small_body :: nat where "small_body = 8 * 1024"
definition event_body :: nat where "event_body = 512 * 1024"

text \<open>Running an operation of one component on its part of the site.\<close>

definition on_server :: "('a \<Rightarrow> answer) \<Rightarrow> (server \<Rightarrow> 'a result \<times> server) \<Rightarrow> site \<Rightarrow> answer result \<times> site" where
  "on_server wrap f x = (case f (si_server x) of (a, sv) \<Rightarrow> (map_sum id wrap a, x\<lparr>si_server := sv\<rparr>))"

definition on_db :: "('a \<Rightarrow> answer) \<Rightarrow> (database \<Rightarrow> 'a result \<times> database) \<Rightarrow> site \<Rightarrow> answer result \<times> site" where
  "on_db wrap f x = (case f (site_db x) of (a, db) \<Rightarrow> (map_sum id wrap a, with_db x db))"

definition on_drafts :: "('a \<Rightarrow> answer) \<Rightarrow> (drafts \<Rightarrow> 'a result \<times> drafts) \<Rightarrow> site \<Rightarrow> answer result \<times> site" where
  "on_drafts wrap f x = (case f (si_drafts x) of (a, ds) \<Rightarrow> (map_sum id wrap a, x\<lparr>si_drafts := ds\<rparr>))"

definition with_body :: "'a result \<Rightarrow> ('a \<Rightarrow> site \<Rightarrow> answer result \<times> site) \<Rightarrow> site \<Rightarrow> answer result \<times> site" where
  "with_body b k x = (case b of Inl e \<Rightarrow> (Inl e, x) | Inr v \<Rightarrow> k v x)"

text \<open>The participant handlers, by the slug of the path.\<close>

definition serve_participant ::
    "process \<Rightarrow> auth_environment \<Rightarrow> endpoint \<Rightarrow> string \<Rightarrow> http_request \<Rightarrow> site \<Rightarrow> answer result \<times> site" where
  "serve_participant p env e slug r x =
     (let base = environment.truncate env; d = pr_decoders p; cookie = hq_cookie r participant_cookie in
      case e of
        PublicInfo \<Rightarrow> (map_sum id InfoAnswer (public_info base slug cookie (site_db x)), x)
      | ShowSession \<Rightarrow> on_server SessionAnswer (session base slug cookie) x
      | JoinRun \<Rightarrow> with_body (decode_limit (de_join d) small_body r) (\<lambda>b. on_server SessionAnswer (join base
          \<lparr>jr_slug = slug, jr_cookie = cookie, jr_experience = jb_experience b, jr_familiarity = jb_familiarity b,
           jr_invite = jb_invite b\<rparr>)) x
      | StartTask \<Rightarrow> with_body (decode_limit (de_start d) small_body r) (\<lambda>b. on_server SessionAnswer (start base
          \<lparr>sr_slug = slug, sr_cookie = cookie, sr_command = sb_command b, sr_task = sb_task b\<rparr>)) x
      | SendEvents \<Rightarrow> with_body (decode_limit (de_events d) event_body r) (\<lambda>b. on_server AckAnswer (events base
          \<lparr>er_slug = slug, er_cookie = cookie, er_attempt = eb_attempt b, er_events = eb_events b\<rparr>)) x
      | FinishTask \<Rightarrow> with_body (decode_limit (de_finish d) event_body r) (\<lambda>b. on_server SessionAnswer (finish base
          \<lparr>fr_slug = slug, fr_cookie = cookie, fr_attempt = fb_attempt b, fr_command = fb_command b,
           fr_outcome = fb_outcome b, fr_node = fb_node b, fr_events = fb_events b\<rparr>)) x
      | _ \<Rightarrow> (Inr NoAnswer, x))"

text \<open>The handlers of sessions and accounts.\<close>

definition serve_account ::
    "process \<Rightarrow> auth_environment \<Rightarrow> endpoint \<Rightarrow> http_request \<Rightarrow> site \<Rightarrow> answer result \<times> site" where
  "serve_account p env e r x =
     (let cookie = hq_cookie r admin_cookie in
      case e of
        AdminSession \<Rightarrow> (Inr (IdentityAnswer (admin env cookie (si_accounts x))), x)
      | LogIn \<Rightarrow> with_body (decode_limit (de_login (pr_decoders p)) small_body r) (\<lambda>b y.
          case login env \<lparr>lq_source = source_of (pr_config p) r, lq_cookie = cookie, lq_username = lb_username b,
              lq_password = lb_password b\<rparr> (site_login y) of
            (a, st) \<Rightarrow> (map_sum id LoginAnswer a, with_login y st)) x
      | LogOut \<Rightarrow> (Inr OkAnswer, x\<lparr>si_accounts := logout env cookie (si_accounts x)\<rparr>)
      | _ \<Rightarrow> (Inr NoAnswer, x))"

text \<open>The handlers of studies and runs, by the identifier of the path (empty for the collections).\<close>

definition serve_studies ::
    "process \<Rightarrow> auth_environment \<Rightarrow> endpoint \<Rightarrow> string \<Rightarrow> http_request \<Rightarrow> site \<Rightarrow> answer result \<times> site" where
  "serve_studies p env e i r x =
     (let base = environment.truncate env; d = pr_decoders p in
      case e of
        ValidateBundle \<Rightarrow> with_body (decode (de_bundle d) r)
          (\<lambda>b y. (map_sum id ValidationAnswer (validate_handler (en_sha env) b), y)) x
      | ListDrafts \<Rightarrow> (Inr (DraftsAnswer (list_drafts (si_drafts x))), x)
      | CreateDraft \<Rightarrow> with_body (decode (de_bundle d) r) (\<lambda>b. on_drafts DraftIdAnswer (create_draft base b)) x
      | GetDraft \<Rightarrow> (map_sum id DraftAnswer (get_draft i (si_drafts x)), x)
      | UpdateDraft \<Rightarrow> with_body (decode (de_draft d) r)
          (\<lambda>b. on_drafts RevisionAnswer (update_draft base i (db_revision b) (db_bundle b))) x
      | PublishDraft \<Rightarrow> with_body (decode (de_publish d) r)
          (\<lambda>revision y. on_db PublishAnswer (publish base i revision (si_drafts y)) y) x
      | ListVersions \<Rightarrow> (map_sum id VersionsAnswer (list_versions (site_db x)), x)
      | ListRuns \<Rightarrow> (Inr (RunsAnswer (list_runs (site_db x))), x)
      | CreateRun \<Rightarrow> with_body (decode (de_run d) r) (\<lambda>q. on_db RunAnswer (create_run base q)) x
      | UpdateRun \<Rightarrow> with_body (decode (de_update d) r) (\<lambda>q. on_db (\<lambda>_. OkAnswer) (update_run base i q)) x
      | CreateInvitation \<Rightarrow> with_body (decode_limit (de_invite d) small_body r)
          (\<lambda>hours. on_db InviteAnswer (create_invitation base (on_origin (co_server (pr_config p))) i hours)) x
      | ShowResults \<Rightarrow> (map_sum id ResultsAnswer (results base (pr_database_bytes p) (pr_active p) i (site_db x)), x)
      | ExportTasks \<Rightarrow> (map_sum id ExportAnswer
          (export base (pr_database_bytes p) (pr_active p) (hq_query r ''format'') i (site_db x)), x)
      | ShowKey \<Rightarrow> (map_sum id KeyAnswer (run_key_view (en_sha env) i (site_db x)), x)
      | ExportEvents \<Rightarrow> (map_sum id EventsAnswer (event_export base i (site_db x)), x)
      | _ \<Rightarrow> (Inr NoAnswer, x))"

definition participant_endpoints :: "endpoint list" where
  "participant_endpoints = [PublicInfo, ShowSession, JoinRun, StartTask, SendEvents, FinishTask]"

definition account_endpoints :: "endpoint list" where
  "account_endpoints = [AdminSession, LogIn, LogOut]"

definition handle ::
    "process \<Rightarrow> auth_environment \<Rightarrow> endpoint \<Rightarrow> string list \<Rightarrow> http_request \<Rightarrow> site \<Rightarrow> answer result \<times> site" where
  "handle p env e vs r x =
     (let v = (case vs of [] \<Rightarrow> [] | v # _ \<Rightarrow> v) in
      if e \<in> set participant_endpoints then serve_participant p env e v r x
      else if e \<in> set account_endpoints then serve_account p env e r x
      else case e of Page name \<Rightarrow> (html p name r, x)
      | _ \<Rightarrow> serve_studies p env e v r x)"

section \<open>Requests\<close>

text \<open>
  \<open>ServeHTTP\<close>. A request that no pattern matches gets the answer of the last handler. The guard reads
  the clock and the accounts before the handler does; its readings have their own numbers.
\<close>

definition guard_env :: "auth_environment \<Rightarrow> auth_environment" where
  "guard_env env = env\<lparr>en_clock := (\<lambda>n. en_clock env (n + 21))\<rparr>"

definition serve :: "process \<Rightarrow> auth_environment \<Rightarrow> http_request \<Rightarrow> site \<Rightarrow> answer result \<times> site" where
  "serve p env r x =
     (if asset_path (hq_segments r) then (serve_asset p r, x)
      else case first_match r routes of
        None \<Rightarrow> (Inl (Problem 404 ''not found''), x)
      | Some (g, e, vs) \<Rightarrow>
          (case pass_route (pr_config p) (en_clock env 20) r (sv_windows (si_server x)) of
             (Some err, w) \<Rightarrow> (Inl err, x\<lparr>si_server := (si_server x)\<lparr>sv_windows := w\<rparr>\<rparr>)
           | (None, w) \<Rightarrow>
               (let y = x\<lparr>si_server := (si_server x)\<lparr>sv_windows := w\<rparr>\<rparr> in
                case guarded (guard_env env) g r (si_accounts y) of Inl err \<Rightarrow> (Inl err, y)
                | Inr who \<Rightarrow> handle p env e vs r y)))"

text \<open>The requests that the service answers until it is stopped, one after the other.\<close>

fun serve_requests :: "process \<Rightarrow> (auth_environment \<times> http_request) list \<Rightarrow> site \<Rightarrow> site" where
  "serve_requests p [] x = x"
| "serve_requests p ((env, r) # rs) x = serve_requests p rs (snd (serve p env r x))"

end
