(* ===== verification/Base64.thy ===== *)
theory Base64
  imports GoText
begin

text \<open>
  \<open>base64.RawURLEncoding\<close> of the standard library: the text of an identity key file. Decoding skips line
  breaks, takes no padding and drops the bits that are left over; it reads back what encoding writes.
\<close>

definition alphabet :: string where
  "alphabet = ''ABCDEFGHIJKLMNOPQRSTUVWXYZabcdefghijklmnopqrstuvwxyz0123456789-_''"

fun position :: "char \<Rightarrow> string \<Rightarrow> nat option" where
  "position c [] = None"
| "position c (d # ds) = (if c = d then Some 0 else map_option Suc (position c ds))"

fun encode :: "nat list \<Rightarrow> nat list" where
  "encode [] = []"
| "encode [a] = [a div 4, a mod 4 * 16]"
| "encode [a, b] = [a div 4, a mod 4 * 16 + b div 16, b mod 16 * 4]"
| "encode (a # b # c # s) = [a div 4, a mod 4 * 16 + b div 16, b mod 16 * 4 + c div 64, c mod 64] @ encode s"

fun decode_sextets :: "nat list \<Rightarrow> nat list option" where
  "decode_sextets [] = Some []"
| "decode_sextets [w] = None"
| "decode_sextets [w, x] = Some [w * 4 + x div 16]"
| "decode_sextets [w, x, y] = Some [w * 4 + x div 16, x mod 16 * 16 + y div 4]"
| "decode_sextets (w # x # y # z # s) =
     map_option (\<lambda>r. [w * 4 + x div 16, x mod 16 * 16 + y div 4, y mod 4 * 64 + z] @ r) (decode_sextets s)"

definition base64_encode :: "string \<Rightarrow> string" where
  "base64_encode s = map (\<lambda>k. alphabet ! k) (encode (map byte s))"

definition line_break :: "char \<Rightarrow> bool" where
  "line_break c \<longleftrightarrow> c = CHR 0x0D \<or> c = CHR 0x0A"

definition base64_decode :: "string \<Rightarrow> string option" where
  "base64_decode s =
     (let ks = map (\<lambda>c. position c alphabet) (filter (\<lambda>c. \<not> line_break c) s)
      in if None \<in> set ks then None else map_option (map char_of) (decode_sextets (map the ks)))"

section \<open>Decoding what was encoded\<close>

lemma byte_bound: "byte c < 256"
proof -
  have "byte c = of_char c mod 256" by (simp add: byte_def)
  then show ?thesis by simp
qed

lemma decode_encode: "\<forall>x \<in> set xs. x < 256 \<Longrightarrow> decode_sextets (encode xs) = Some xs"
  by (induction xs rule: encode.induct) auto

lemma encode_bound: "\<forall>x \<in> set xs. x < 256 \<Longrightarrow> k \<in> set (encode xs) \<Longrightarrow> k < 64"
  by (induction xs rule: encode.induct) auto

lemma alphabet_position: "k < 64 \<Longrightarrow> position (alphabet ! k) alphabet = Some k \<and> \<not> line_break (alphabet ! k)"
proof -
  have "\<forall>k < 64. position (alphabet ! k) alphabet = Some k \<and> \<not> line_break (alphabet ! k)" by code_simp
  then show "k < 64 \<Longrightarrow> position (alphabet ! k) alphabet = Some k \<and> \<not> line_break (alphabet ! k)" by blast
qed

theorem base64_back: "base64_decode (base64_encode s) = Some s"
proof -
  define ks where "ks = encode (map byte s)"
  have b: "k < 64" if "k \<in> set ks" for k
    using that byte_bound by (intro encode_bound [of "map byte s" k]) (auto simp: ks_def)
  have plain: "filter (\<lambda>c. \<not> line_break c) (base64_encode s) = base64_encode s"
    using b alphabet_position by (auto simp: base64_encode_def ks_def [symmetric] filter_id_conv)
  have "map (\<lambda>c. position c alphabet) (base64_encode s) = map Some ks"
    using b alphabet_position by (simp add: base64_encode_def ks_def [symmetric])
  moreover have "decode_sextets ks = Some (map byte s)"
    unfolding ks_def using byte_bound by (intro decode_encode) auto
  moreover have "map char_of (map byte s) = s" by (simp add: byte_def comp_def)
  ultimately show ?thesis by (simp add: base64_decode_def plain comp_def)
qed

section \<open>The line that a key file holds\<close>

lemma trim_space_line:
  assumes "trim_space e = e" "e \<noteq> []"
  shows "trim_space (e @ [CHR 0x0A]) = e"
proof -
  have "\<not> has_prefix q (e @ [CHR 0x0A])" if q: "q \<in> set space_seqs" for q
  proof
    assume "has_prefix q (e @ [CHR 0x0A])"
    then obtain r where r: "e @ [CHR 0x0A] = q @ r" by (auto simp: has_prefix_iff)
    show False
    proof (cases r rule: rev_cases)
      case Nil
      then have "q = e @ [CHR 0x0A]" using r by simp
      with q assms(2) show False by (auto simp: space_seqs_def append_eq_Cons_conv)
    next
      case (snoc r' c)
      then have "has_prefix q e" using r by (auto simp: has_prefix_iff)
      with trim_space_fixed [OF assms(1) q] show False by simp
    qed
  qed
  then have left: "strip_prefixes space_seqs n (e @ [CHR 0x0A]) = e @ [CHR 0x0A]" for n
    by (intro strip_prefixes_id) blast
  have "find (\<lambda>q. has_prefix q (CHR 0x0A # rev e)) (map rev space_seqs) = Some [CHR 0x0A]"
    by (simp add: space_seqs_def)
  moreover have "strip_prefixes (map rev space_seqs) n (rev e) = rev e" for n
    using trim_space_fixed [OF assms(1)] by (intro strip_prefixes_id) (auto simp: has_suffix_def)
  ultimately show ?thesis unfolding trim_space_def left Let_def by simp
qed

lemma alphabet_plain: "c \<in> set alphabet \<Longrightarrow> of_char c < (128 :: nat)
    \<and> c \<notin> set [CHR 0x09, CHR 0x0A, CHR 0x0B, CHR 0x0C, CHR 0x0D, CHR 0x20]"
proof -
  have "list_all (\<lambda>c. of_char c < (128 :: nat) \<and> c \<notin> set [CHR 0x09, CHR 0x0A, CHR 0x0B, CHR 0x0C, CHR 0x0D, CHR 0x20]) alphabet"
    by code_simp
  then show "c \<in> set alphabet \<Longrightarrow> of_char c < (128 :: nat)
    \<and> c \<notin> set [CHR 0x09, CHR 0x0A, CHR 0x0B, CHR 0x0C, CHR 0x0D, CHR 0x20]" unfolding list_all_iff by blast
qed

lemma base64_line:
  assumes "s \<noteq> []"
  shows "trim_space (base64_encode s @ [CHR 0x0A]) = base64_encode s"
proof -
  have "encode xs \<noteq> []" if "xs \<noteq> []" for xs using that by (cases xs rule: encode.cases) auto
  then have ne: "base64_encode s \<noteq> []" using assms by (simp add: base64_encode_def)
  have "c \<in> set alphabet" if c: "c \<in> set (base64_encode s)" for c
  proof -
    obtain k where k: "k \<in> set (encode (map byte s))" "c = alphabet ! k"
      using c by (auto simp: base64_encode_def)
    then have "k < 64" using byte_bound by (intro encode_bound [of "map byte s" k]) auto
    moreover have "length alphabet = 64" by (simp add: alphabet_def)
    ultimately show ?thesis using k(2) nth_mem by metis
  qed
  then have "hd (base64_encode s) \<in> set alphabet" "last (base64_encode s) \<in> set alphabet" using ne by simp_all
  then have "trim_space (base64_encode s) = base64_encode s"
    using ne alphabet_plain by (intro trim_space_nonspace_ends) blast+
  from trim_space_line [OF this ne] show ?thesis .
qed

end
