(* ===== verification/LoadStudy.thy ===== *)
theory LoadStudy
  imports Validate
begin

text \<open>
  \<open>LoadDir\<close> of \<open>internal/study/validate.go\<close>: reading \<open>study.json\<close> and the tree files it names from a
  directory. The JSON decoder of the configuration is an argument, as are the entries of the directory;
  the errors carry what the Go message prints, but for the quotes of \<open>%q\<close>.
\<close>

section \<open>A directory\<close>

text \<open>
  The directory does not change while it is read: what \<open>os.Lstat\<close> says of a tree file and what
  \<open>os.ReadFile\<close> reads right after are one entry, so that a file that is replaced between the two calls
  is outside the model. An entry: whether it is a symbolic link, whether the file that opening it reaches is a regular one, the
  bytes of that file, and the error of reading it, if any. A name without an entry carries the error of
  opening it.
\<close>

record dir_entry =
  de_link :: bool
  de_regular :: bool
  de_text :: string
  de_denied :: "string option"

type_synonym directory = "string \<Rightarrow> string + dir_entry"

text \<open>
  \<open>Decoder.Decode\<close> with \<open>DisallowUnknownFields\<close>: its error, or the value and the text that follows it.
\<close>

type_synonym config_decoder = "string \<Rightarrow> string + config \<times> string"

definition config_bytes :: nat where "config_bytes = 2 * 2 ^ 20"

section \<open>Loading\<close>

text \<open>The file with the configuration, through \<open>os.Open\<close>, which follows links.\<close>

definition load_config :: "config_decoder \<Rightarrow> directory \<Rightarrow> config result" where
  "load_config dec d =
     (case d ''study.json'' of Inl err \<Rightarrow> Inl (Internal err)
      | Inr f \<Rightarrow> (case de_denied f of Some err \<Rightarrow> Inl (Internal err)
        | None \<Rightarrow>
            if \<not> de_regular f \<or> length (de_text f) > config_bytes
              then Inl (Internal ''study.json must be a regular file of at most 2 MiB'')
            else (case dec (take (config_bytes + 1) (de_text f)) of
                Inl err \<Rightarrow> Inl (Internal (''study.json: '' @ err))
              | Inr (c, rest) \<Rightarrow>
                  if list_all json_space rest then Inr c
                  else Inl (Internal ''study.json: trailing data or excessive size''))))"

text \<open>One tree file, through \<open>os.Lstat\<close>, which does not.\<close>

definition load_tree :: "directory \<Rightarrow> string \<Rightarrow> string result" where
  "load_tree d n =
     (if \<not> safe_tree_name n then Inl (Internal (''invalid tree filename '' @ n))
      else case d n of Inl err \<Rightarrow> Inl (Internal err)
        | Inr f \<Rightarrow>
            if de_link f \<or> \<not> de_regular f \<or> length (de_text f) > max_tree_bytes
              then Inl (Internal (n @ '' must be a regular file of at most '' @ json_int (int max_tree_bytes) @ '' bytes''))
            else case de_denied f of Some err \<Rightarrow> Inl (Internal err) | None \<Rightarrow> Inr (de_text f))"

text \<open>The loop over the variants; a file that two variants name is read twice and stored once.\<close>

fun load_trees :: "directory \<Rightarrow> (string \<times> string) list \<Rightarrow> variant list \<Rightarrow> (string \<times> string) list result" where
  "load_trees d trees [] = Inr trees"
| "load_trees d trees (v # vs) =
     (case load_tree d (v_tree v) of Inl e \<Rightarrow> Inl e
      | Inr text \<Rightarrow> load_trees d ((v_tree v, text) # trees) vs)"

definition load_dir :: "config_decoder \<Rightarrow> directory \<Rightarrow> study_bundle result" where
  "load_dir dec d =
     (case load_config dec d of Inl e \<Rightarrow> Inl e
      | Inr c \<Rightarrow> (case load_trees d [] (cfg_variants c) of Inl e \<Rightarrow> Inl e
        | Inr trees \<Rightarrow> Inr \<lparr>b_config = c, b_trees = trees\<rparr>))"

section \<open>What a loaded bundle holds\<close>

lemma load_tree_Inr:
  "load_tree d n = Inr text \<longleftrightarrow> safe_tree_name n \<and>
    (\<exists>f. d n = Inr f \<and> \<not> de_link f \<and> de_regular f \<and> de_denied f = None \<and> de_text f = text \<and> length text \<le> max_tree_bytes)"
  by (auto simp: load_tree_def split: sum.splits option.splits)

lemma load_trees_map:
  "load_trees d trees vs = Inr ts \<Longrightarrow>
    (\<forall>v \<in> set vs. load_tree d (v_tree v) = Inr (the (map_of ts (v_tree v))))
    \<and> fst ` set ts = v_tree ` set vs \<union> fst ` set trees
    \<and> (\<forall>n. n \<notin> v_tree ` set vs \<longrightarrow> map_of ts n = map_of trees n)"
proof (induction vs arbitrary: trees)
  case Nil
  then show ?case by simp
next
  case (Cons v vs)
  then obtain doc where doc: "load_tree d (v_tree v) = Inr doc"
    and rest: "load_trees d ((v_tree v, doc) # trees) vs = Inr ts" by auto
  note ih = Cons.IH [OF rest]
  have "load_tree d (v_tree v) = Inr (the (map_of ts (v_tree v)))"
  proof (cases "v_tree v \<in> v_tree ` set vs")
    case True
    then obtain u where "u \<in> set vs" "v_tree v = v_tree u" by auto
    with ih show ?thesis by simp
  next
    case False
    with ih doc show ?thesis by simp
  qed
  with ih show ?case by auto
qed

text \<open>Two directories that look the same under one name, or have a link there, wherever it leads.\<close>

definition same_entry :: "directory \<Rightarrow> directory \<Rightarrow> string \<Rightarrow> bool" where
  "same_entry d d' n \<longleftrightarrow> d n = d' n \<or> (\<exists>f f'. d n = Inr f \<and> d' n = Inr f' \<and> de_link f \<and> de_link f')"

lemma load_tree_cong: "(safe_tree_name n \<Longrightarrow> same_entry d d' n) \<Longrightarrow> load_tree d n = load_tree d' n"
  by (auto simp: load_tree_def same_entry_def)

lemma load_trees_cong:
  "(\<And>n. safe_tree_name n \<Longrightarrow> same_entry d d' n) \<Longrightarrow> load_trees d trees vs = load_trees d' trees vs"
  by (induction vs arbitrary: trees) (simp_all add: load_tree_cong [of _ d d'] cong: sum.case_cong)

lemma load_trees_texts:
  "load_trees d trees vs = Inr ts \<Longrightarrow> \<forall>(n, text) \<in> set trees. load_tree d n = Inr text
    \<Longrightarrow> \<forall>(n, text) \<in> set ts. load_tree d n = Inr text"
proof (induction vs arbitrary: trees)
  case (Cons v vs)
  from Cons.prems(1) obtain doc where doc: "load_tree d (v_tree v) = Inr doc"
    and rest: "load_trees d ((v_tree v, doc) # trees) vs = Inr ts" by auto
  show ?case by (rule Cons.IH [OF rest]) (simp add: doc Cons.prems(2))
qed simp

text \<open>The errors of \<open>Validate\<close> that are about which files there are.\<close>

fun file_error :: "study_error \<Rightarrow> bool" where
  "file_error (VariantTree i) = True"
| "file_error (MissingTree n) = True"
| "file_error (UnusedTree n) = True"
| "file_error _ = False"

lemma check_variants_error:
  "check_variants b trees vs = Inl e \<Longrightarrow>
    \<forall>v \<in> set vs. safe_tree_name (v_tree v) \<and> map_of (b_trees b) (v_tree v) \<noteq> None \<Longrightarrow> \<not> file_error e"
  by (induction vs arbitrary: trees) (auto simp: check_variant_def split: sum.splits if_splits option.splits)

lemma check_answers_error: "check_answers t v ns seen as = Some e \<Longrightarrow> \<not> file_error e"
  by (induction as arbitrary: seen) (auto split: if_splits)

lemma check_tasks_error: "check_tasks c trees seen ts = Some e \<Longrightarrow> \<not> file_error e"
proof (induction ts arbitrary: seen)
  case (Cons t ts)
  have "check_answer_sets trees t vs = Some f \<Longrightarrow> \<not> file_error f" for vs f
    by (induction vs) (auto simp del: check_answers.simps split: option.splits list.splits dest: check_answers_error)
  with Cons show ?case by (auto simp: check_task_def split: option.splits if_splits)
qed simp

lemma check_panels_error: "check_panels c k ps = Some e \<Longrightarrow> \<not> file_error e"
proof (induction ps arbitrary: k)
  case (Cons p ps)
  have "check_panel_tasks ts k seen l = Some f \<Longrightarrow> \<not> file_error f" for ts k seen l f
    by (induction l arbitrary: seen) (auto split: if_splits)
  with Cons show ?case by (auto simp: check_panel_def split: option.splits if_splits)
qed simp

lemma check_config_error: "check_config c = Some e \<Longrightarrow> \<not> file_error e"
  by (auto simp: check_config_def split: if_splits)

lemma check_exposure_error: "check_exposure c = Some e \<Longrightarrow> \<not> file_error e"
  by (auto simp: check_exposure_def Let_def)

lemma validate_file_error:
  assumes "validate sha b = Inl e" "file_error e"
  shows "check_variants b [] (cfg_variants (b_config b)) = Inl e \<or> check_unused b = Some e"
  using assms check_config_error check_tasks_error check_panels_error check_exposure_error
  unfolding validate_def Let_def by (auto split: option.splits sum.splits if_splits)

text \<open>C40: Loading a study never leaves its directory. Its result depends on \<open>study.json\<close> and on the files
  under safe names only, and where a link stands under such a name, not on what the link leads to. Every
  tree of a bundle that was loaded has a name of at most 128 bytes that ends in \<open>.md\<close>, does not begin with a
  dot and has no separator and no NUL, and its text is that of a regular file of at most the size limit
  which stands under this name itself, not behind a link.\<close>

theorem load_confined:
  assumes "d ''study.json'' = d' ''study.json''"
    "\<And>n. safe_tree_name n \<Longrightarrow> d n = d' n \<or> (\<exists>f f'. d n = Inr f \<and> d' n = Inr f' \<and> de_link f \<and> de_link f')"
  shows "load_dir dec d = load_dir dec d'
    \<and> (\<forall>b. load_dir dec d = Inr b \<longrightarrow> (\<forall>(n, text) \<in> set (b_trees b).
         length n \<le> 128 \<and> (\<exists>stem. n = stem @ ''.md'') \<and> (\<forall>rest. n \<noteq> ''.'' @ rest)
         \<and> CHR ''/'' \<notin> set n \<and> CHR 0x5C \<notin> set n \<and> CHR 0x00 \<notin> set n
         \<and> (\<exists>f. d n = Inr f \<and> \<not> de_link f \<and> de_regular f \<and> de_text f = text \<and> length text \<le> max_tree_bytes)))"
proof (intro conjI allI impI)
  have "load_config dec d = load_config dec d'" by (simp add: load_config_def assms(1))
  moreover have "load_trees d [] vs = load_trees d' [] vs" for vs
    using assms(2) by (intro load_trees_cong) (simp add: same_entry_def)
  ultimately show "load_dir dec d = load_dir dec d'" by (simp add: load_dir_def cong: sum.case_cong)
  fix b assume b: "load_dir dec d = Inr b"
  obtain c ts where ts: "load_trees d [] (cfg_variants c) = Inr ts" "b = \<lparr>b_config = c, b_trees = ts\<rparr>"
    using b by (auto simp: load_dir_def)
  then have "load_trees d [] (cfg_variants c) = Inr (b_trees b)" by simp
  with load_trees_texts [of d "[]"] have "\<forall>(n, text) \<in> set (b_trees b). load_tree d n = Inr text" by simp
  moreover have "(\<exists>stem. n = stem @ ''.md'') \<and> (\<forall>rest. n \<noteq> ''.'' @ rest) \<and> length n \<le> 128
      \<and> CHR ''/'' \<notin> set n \<and> CHR 0x5C \<notin> set n \<and> CHR 0x00 \<notin> set n" if "safe_tree_name n" for n
    using that by (auto simp: safe_tree_name_def contains_any_iff has_suffix_iff has_prefix_iff)
  ultimately show "\<forall>(n, text) \<in> set (b_trees b). length n \<le> 128 \<and> (\<exists>stem. n = stem @ ''.md'') \<and> (\<forall>rest. n \<noteq> ''.'' @ rest)
      \<and> CHR ''/'' \<notin> set n \<and> CHR 0x5C \<notin> set n \<and> CHR 0x00 \<notin> set n
      \<and> (\<exists>f. d n = Inr f \<and> \<not> de_link f \<and> de_regular f \<and> de_text f = text \<and> length text \<le> max_tree_bytes)"
    unfolding load_tree_Inr by fast
qed

text \<open>
  A bundle that was loaded has each tree its variants name, under a safe name and within the size limit,
  and no other: \<open>Validate\<close> never rejects it for its files.
\<close>

lemma load_dir_trees:
  assumes "load_dir dec d = Inr b" "v \<in> set (cfg_variants (b_config b))"
  shows "safe_tree_name (v_tree v)" "\<exists>text. map_of (b_trees b) (v_tree v) = Some text \<and> length text \<le> max_tree_bytes"
    "fst ` set (b_trees b) = v_tree ` set (cfg_variants (b_config b))"
proof -
  obtain c ts where l: "load_trees d [] (cfg_variants c) = Inr ts" "b = \<lparr>b_config = c, b_trees = ts\<rparr>"
    using assms(1) by (auto simp: load_dir_def)
  note m = load_trees_map [OF l(1)]
  show names: "fst ` set (b_trees b) = v_tree ` set (cfg_variants (b_config b))" using m l(2) by simp
  with assms(2) obtain doc where doc: "map_of (b_trees b) (v_tree v) = Some doc"
    by (metis image_eqI map_of_eq_None_iff not_None_eq)
  with m assms(2) l(2) have "load_tree d (v_tree v) = Inr doc" by auto
  with doc show "safe_tree_name (v_tree v)"
    "\<exists>text. map_of (b_trees b) (v_tree v) = Some text \<and> length text \<le> max_tree_bytes"
    by (auto simp: load_tree_Inr)
qed

lemma loaded_unused: "load_dir dec d = Inr b \<Longrightarrow> check_unused b = None"
proof -
  assume l: "load_dir dec d = Inr b"
  show ?thesis
  proof (cases "cfg_variants (b_config b)")
    case Nil
    with l show ?thesis by (auto simp: load_dir_def check_unused_def)
  next
    case (Cons v vs)
    then have "v \<in> set (cfg_variants (b_config b))" by simp
    from load_dir_trees(3) [OF l this] show ?thesis by (auto simp: check_unused_def find_None_iff)
  qed
qed

theorem loaded_files_ok:
  assumes "load_dir dec d = Inr b" "validate sha b = Inl e"
  shows "\<not> file_error e"
proof
  assume e: "file_error e"
  have "\<forall>v \<in> set (cfg_variants (b_config b)). safe_tree_name (v_tree v) \<and> map_of (b_trees b) (v_tree v) \<noteq> None"
    using load_dir_trees(1,2) [OF assms(1)] by fastforce
  from check_variants_error [OF _ this] validate_file_error [OF assms(2) e] loaded_unused [OF assms(1)] e
  show False by auto
qed

end
