(* ===== verification/Flags.thy ===== *)
theory Flags
  imports Json
begin

text \<open>
  The command line of one subcommand: the part of package \<open>flag\<close> that \<open>cmd/treetest/main.go\<close> uses. A
  flag set is the list of its flags with their values, at first the defaults.
\<close>

datatype flag_value = TextFlag string | BoolFlag bool

type_synonym flag_set = "(string \<times> flag_value) list"

definition text_flag :: "flag_set \<Rightarrow> string \<Rightarrow> string" where
  "text_flag fl name = (case map_of fl name of Some (TextFlag v) \<Rightarrow> v | _ \<Rightarrow> [])"

definition bool_flag :: "flag_set \<Rightarrow> string \<Rightarrow> bool" where
  "bool_flag fl name = (case map_of fl name of Some (BoolFlag b) \<Rightarrow> b | _ \<Rightarrow> False)"

definition set_flag :: "string \<Rightarrow> flag_value \<Rightarrow> flag_set \<Rightarrow> flag_set" where
  "set_flag name v fl = map (\<lambda>(n, w). if n = name then (n, v) else (n, w)) fl"

text \<open>\<open>strconv.ParseBool\<close>.\<close>

definition parse_bool :: "string \<Rightarrow> bool option" where
  "parse_bool s =
     (if s \<in> set [''1'', ''t'', ''T'', ''TRUE'', ''true'', ''True''] then Some True
      else if s \<in> set [''0'', ''f'', ''F'', ''FALSE'', ''false'', ''False''] then Some False
      else None)"

text \<open>The name of a flag without its dashes, and the value after an equals sign, if there is one.\<close>

definition flag_name :: "string \<Rightarrow> string" where
  "flag_name s = (if s ! 1 = CHR ''-'' then drop 2 s else drop 1 s)"

definition cut_value :: "string \<Rightarrow> string \<times> string option" where
  "cut_value name =
     (let key = takeWhile (\<lambda>c. c \<noteq> CHR ''='') name
      in (key, if key = name then None else Some (drop (length key + 1) name)))"

text \<open>
  \<open>FlagSet.Parse\<close>: the flags, and the arguments that follow them. A flag that is not boolean takes the
  next argument when it has no equals sign; the first argument that is not a flag ends the flags.
\<close>

fun parse_flags :: "flag_set \<Rightarrow> string list \<Rightarrow> (flag_set \<times> string list) result" where
  "parse_flags fl [] = Inr (fl, [])"
| "parse_flags fl (s # args) =
     (if length s < 2 \<or> hd s \<noteq> CHR ''-'' then Inr (fl, s # args)
      else if s = ''--'' then Inr (fl, args)
      else if flag_name s = [] \<or> hd (flag_name s) = CHR ''-'' \<or> hd (flag_name s) = CHR ''=''
        then Inl (Internal (''bad flag syntax: '' @ s))
      else (case cut_value (flag_name s) of (name, given) \<Rightarrow>
        (case map_of fl name of
           None \<Rightarrow> if name = ''help'' \<or> name = ''h'' then Inl (Internal ''flag: help requested'')
             else Inl (Internal (''flag provided but not defined: -'' @ name))
         | Some (BoolFlag _) \<Rightarrow>
             (case given of None \<Rightarrow> parse_flags (set_flag name (BoolFlag True) fl) args
              | Some v \<Rightarrow> (case parse_bool v of
                    None \<Rightarrow> Inl (Internal (''invalid boolean value '' @ v @ '' for -'' @ name @ '': parse error''))
                  | Some b \<Rightarrow> parse_flags (set_flag name (BoolFlag b) fl) args))
         | Some (TextFlag _) \<Rightarrow>
             (case given of Some v \<Rightarrow> parse_flags (set_flag name (TextFlag v) fl) args
              | None \<Rightarrow> (case args of [] \<Rightarrow> Inl (Internal (''flag needs an argument: -'' @ name))
                  | v # rest \<Rightarrow> parse_flags (set_flag name (TextFlag v) fl) rest)))))"

text \<open>The flags keep their names and kinds.\<close>

definition same_kind :: "string \<times> flag_value \<Rightarrow> string \<times> flag_value \<Rightarrow> bool" where
  "same_kind a b \<longleftrightarrow> fst a = fst b \<and> (case snd a of TextFlag _ \<Rightarrow> \<exists>v. snd b = TextFlag v | BoolFlag _ \<Rightarrow> \<exists>v. snd b = BoolFlag v)"

lemma same_kind_refl: "same_kind a a"
  by (auto simp: same_kind_def split: flag_value.splits)

lemma same_kind_trans: "same_kind a b \<Longrightarrow> same_kind b c \<Longrightarrow> same_kind a c"
  by (auto simp: same_kind_def split: flag_value.splits)

lemma map_of_set_flag: "map_of (set_flag name v fl) n = (if n = name then map_option (\<lambda>_. v) (map_of fl n) else map_of fl n)"
  by (induction fl) (auto simp: set_flag_def)

end
