(* ===== verification/Listen.thy ===== *)
theory Listen
  imports Prelude
begin

text \<open>
  \<open>serve\<close> of \<open>cmd/treetest/serve.go\<close>: the listeners of the application and of the metrics. All are bound
  before any is served, and all are closed when the function returns.
\<close>

datatype socket_event = Bound string | Serving string | Shutdown string | Forced string | Released string

text \<open>The loop of \<open>net.Listen\<close>: the first error, and the endpoints that were bound before it.\<close>

fun bind_all :: "(string \<Rightarrow> string option) \<Rightarrow> (string \<times> string) list \<Rightarrow> string option \<times> string list" where
  "bind_all fault [] = (None, [])"
| "bind_all fault ((name, address) # es) =
     (case fault address of
        Some err \<Rightarrow> (Some (name @ '' listen: '' @ err), [])
      | None \<Rightarrow> (case bind_all fault es of (e, bound) \<Rightarrow> (e, name # bound)))"

definition endpoints :: "string \<Rightarrow> string \<Rightarrow> (string \<times> string) list" where
  "endpoints listen metrics =
     (''application'', listen) # (if metrics = [] then [] else [(''metrics'', metrics)])"

text \<open>
  Why the service ends: a signal, or the first error of \<open>Server.Serve\<close>. \<open>late\<close> tells which servers do not
  shut down before the deadline. The servers start and stop concurrently; the list has their events
  in the order of the endpoints.
\<close>

datatype ending = Signalled | ServerClosed | ServeError string

definition shut_down :: "(string \<Rightarrow> bool) \<Rightarrow> string \<Rightarrow> socket_event list" where
  "shut_down late name = Shutdown name # (if late name then [Forced name] else [])"

definition serve_endpoints ::
    "(string \<Rightarrow> string option) \<Rightarrow> ending \<Rightarrow> (string \<Rightarrow> bool) \<Rightarrow> string \<Rightarrow> string \<Rightarrow> unit result \<times> socket_event list" where
  "serve_endpoints fault reason late listen metrics =
     (case bind_all fault (endpoints listen metrics) of
        (Some err, bound) \<Rightarrow> (Inl (Internal err), map Bound bound @ map Released (rev bound))
      | (None, bound) \<Rightarrow>
          (case reason of ServeError err \<Rightarrow> Inl (Internal err) | _ \<Rightarrow> Inr (),
           map Bound bound @ map Serving bound @ concat (map (shut_down late) bound) @ map Released (rev bound)))"

section \<open>Startup is all or nothing\<close>

lemma bind_all_names:
  "bind_all fault es = (e, bound) \<Longrightarrow> \<exists>rest. map fst es = bound @ rest \<and> (e = None \<longleftrightarrow> rest = [])"
proof (induction es arbitrary: e bound)
  case (Cons x es)
  obtain name address where x: "x = (name, address)" by fastforce
  show ?case
  proof (cases "fault address")
    case None
    with Cons.prems x obtain b where b: "bind_all fault es = (e, b)" "bound = name # b" by (auto split: prod.splits)
    from Cons.IH [OF b(1)] x b(2) show ?thesis by auto
  next
    case (Some err)
    with Cons.prems x show ?thesis by auto
  qed
qed simp

text \<open>
  A server accepts connections only when every endpoint is bound; and whatever happens, exactly what was
  bound is released.
\<close>

theorem startup_all_or_nothing:
  assumes "serve_endpoints fault reason late listen metrics = (r, trace)"
  shows "Serving name \<in> set trace \<longrightarrow> (\<forall>e \<in> set (endpoints listen metrics). Bound (fst e) \<in> set trace \<and> fault (snd e) = None)"
    "Bound name \<in> set trace \<longleftrightarrow> Released name \<in> set trace"
    "r = Inr () \<Longrightarrow> \<forall>e \<in> set (endpoints listen metrics). Serving (fst e) \<in> set trace"
  using assms by (auto simp: serve_endpoints_def endpoints_def shut_down_def split: option.splits if_splits ending.splits)

end
