(* ===== verification/Cli.thy ===== *)
theory Cli
  imports Serving Base64 LoadStudy Flags Listen
begin

text \<open>
  \<open>cmd/treetest/main.go\<close>: every subcommand of the program, from its arguments to what it prints and
  what it leaves in the file system; \<open>Backup\<close> of \<open>db.go\<close>.
\<close>

section \<open>The machine\<close>

text \<open>
  A file holds bytes or an SQLite database. The file system is a map from file names; \<open>sh_path\<close> is the file
  that a path of the command line denotes, and \<open>sh_fault\<close> the error of an operation on it, if any.
\<close>

datatype file_content = Bytes string | Stored database_file

type_synonym files = "string \<Rightarrow> file_content option"

datatype file_operation = Locating | Making | Creating | Reading | Writing | Closing | Opening | Copying

record shell =
  sh_path :: "string \<Rightarrow> string"
  sh_fault :: "file_operation \<Rightarrow> string \<Rightarrow> string option"
  sh_image :: "database_file \<Rightarrow> string"
  sh_directory :: "string \<Rightarrow> directory"
  sh_decoder :: config_decoder
  sh_url :: url_parser
  sh_sum :: "string \<Rightarrow> string"
  sh_password :: string
  sh_key :: string
  sh_fresh_key :: string
  sh_text :: string
  sh_env :: auth_environment
  sh_cleanup :: "nat \<Rightarrow> string option"
  sh_process :: "opened \<Rightarrow> process"
  sh_requests :: "(auth_environment \<times> http_request) list"
  sh_bind :: "string \<Rightarrow> string option"
  sh_ending :: ending
  sh_late :: "string \<Rightarrow> bool"

text \<open>What the program prints, by the values that the format strings take.\<close>

datatype notice = UsageText | VersionText | KeySaved string | ValidStudy string string nat nat nat int
  | AccountSaved string string | GeneratedPassword string | PublishedVersion string | NoVersions | VersionsHeader
  | VersionLine published_study | RemovalOf published_study | RemovalDryRun | Removed string | BackupSaved string
  | NothingToPurge | PurgeOf purge_preview | PurgeDryRun | Purged nat

definition read_file :: "shell \<Rightarrow> string \<Rightarrow> files \<Rightarrow> string result" where
  "read_file sh path fs =
     (case sh_fault sh Reading path of Some err \<Rightarrow> Inl (Internal err)
      | None \<Rightarrow> (case fs (sh_path sh path) of
          None \<Rightarrow> Inl (Internal (''open '' @ path @ '': no such file or directory''))
        | Some (Bytes s) \<Rightarrow> Inr s
        | Some (Stored f) \<Rightarrow> Inr (sh_image sh f)))"

text \<open>\<open>os.OpenFile\<close> with \<open>O_CREATE|O_EXCL\<close>.\<close>

definition create_file :: "shell \<Rightarrow> string \<Rightarrow> files \<Rightarrow> files result" where
  "create_file sh path fs =
     (case sh_fault sh Creating path of Some err \<Rightarrow> Inl (Internal err)
      | None \<Rightarrow> if fs (sh_path sh path) \<noteq> None then Inl (Internal (''open '' @ path @ '': file exists''))
          else Inr (fs(sh_path sh path \<mapsto> Bytes [])))"

section \<open>Identity keys\<close>

definition new_line :: string where "new_line = [CHR 0x0A]"

text \<open>\<open>errors.Join\<close> of the errors of writing and of closing.\<close>

definition join_errors :: "string option \<Rightarrow> string option \<Rightarrow> string option" where
  "join_errors a b = (case a of None \<Rightarrow> b | Some x \<Rightarrow> Some (case b of None \<Rightarrow> x | Some y \<Rightarrow> x @ new_line @ y))"

definition unexpected_arguments :: "string list \<Rightarrow> api_error" where
  "unexpected_arguments args = Internal (''unexpected positional arguments: ['' @ joined CHR '' '' args @ '']'')"

definition generate_identity_key :: "shell \<Rightarrow> string list \<Rightarrow> files \<Rightarrow> unit result \<times> notice list \<times> files" where
  "generate_identity_key sh args fs =
     (case parse_flags [(''out'', TextFlag [])] args of Inl e \<Rightarrow> (Inl e, [], fs)
      | Inr (fl, rest) \<Rightarrow>
          (let out = text_flag fl ''out'' in
           if rest \<noteq> [] then (Inl (unexpected_arguments rest), [], fs)
           else if out = [] then (Inl (Internal ''identity-key requires --out''), [], fs)
           else (case create_file sh out fs of Inl e \<Rightarrow> (Inl e, [], fs)
             | Inr fs1 \<Rightarrow>
                 (case join_errors (sh_fault sh Writing out) (sh_fault sh Closing out) of
                    Some err \<Rightarrow> (Inl (Internal err), [], fs1(sh_path sh out := None))
                  | None \<Rightarrow> (Inr (), [KeySaved out], fs1(sh_path sh out \<mapsto> Bytes (base64_encode (sh_key sh) @ new_line)))))))"

definition load_identity_key :: "shell \<Rightarrow> string \<Rightarrow> files \<Rightarrow> string result" where
  "load_identity_key sh path fs =
     (if path = [] then Inr []
      else case read_file sh path fs of Inl e \<Rightarrow> Inl e
        | Inr raw \<Rightarrow> (case base64_decode (trim_space raw) of
              None \<Rightarrow> Inl (Internal ''identity-key-file must contain a base64url-encoded 32-byte key'')
            | Some key \<Rightarrow> if length key \<noteq> 32
                then Inl (Internal ''identity-key-file must contain a base64url-encoded 32-byte key'') else Inr key))"

section \<open>The database file\<close>

definition blank_file :: database_file where
  "blank_file = \<lparr>df_version = 0, df_objects = False, df_secrets = [], df_db = site_db empty_site, df_drafts = [],
     df_accounts = \<lparr>ac_users = [], ac_admins = []\<rparr>\<rparr>"

definition in_memory :: string where "in_memory = '':memory:''"

text \<open>
  The steps of \<open>OpenWithOptions\<close> on the file: the error, if any, the database in the file, and the files;
  a missing file is created, and an empty one is an empty database.
\<close>

definition prepare_file :: "shell \<Rightarrow> string \<Rightarrow> files \<Rightarrow> string option \<times> database_file \<times> files" where
  "prepare_file sh path fs =
     (if path = in_memory then (None, blank_file, fs)
      else case sh_fault sh Locating path of Some err \<Rightarrow> (Some err, blank_file, fs) | None \<Rightarrow>
        (case sh_fault sh Making path of Some err \<Rightarrow> (Some err, blank_file, fs) | None \<Rightarrow>
        (case sh_fault sh Creating path of Some err \<Rightarrow> (Some err, blank_file, fs) | None \<Rightarrow>
          (let fs1 = (if fs (sh_path sh path) = None then fs(sh_path sh path \<mapsto> Bytes []) else fs) in
           case sh_fault sh Closing path of Some err \<Rightarrow> (Some err, blank_file, fs1) | None \<Rightarrow>
             (case the (fs1 (sh_path sh path)) of
                Stored f \<Rightarrow> (sh_fault sh Opening path, f, fs1)
              | Bytes s \<Rightarrow> (if s = [] then sh_fault sh Opening path else Some ''file is not a database'', blank_file, fs1))))))"

definition save_file :: "shell \<Rightarrow> string \<Rightarrow> database_file \<Rightarrow> files \<Rightarrow> files" where
  "save_file sh path f fs = (if path = in_memory then fs else fs(sh_path sh path \<mapsto> Stored f))"

definition open_server :: "shell \<Rightarrow> string \<Rightarrow> string \<Rightarrow> options \<Rightarrow> files \<Rightarrow> (opened \<times> database_file) result \<times> files" where
  "open_server sh path public_url opt fs =
     (case check_options (sh_url sh) public_url opt of Inl e \<Rightarrow> (Inl e, fs)
      | Inr _ \<Rightarrow> (case prepare_file sh path fs of (opening, f, fs1) \<Rightarrow>
          (case open_with_options (sh_url sh) (sh_sum sh) (sh_fresh_key sh) opening public_url opt f of
             (Inl e, _) \<Rightarrow> (Inl e, fs1)
           | (Inr s, g) \<Rightarrow> (Inr (s, g), save_file sh path g fs1))))"

text \<open>
  \<open>Backup\<close>: the new file is made first, so that an existing one is never touched; \<open>VACUUM INTO\<close> fills it.
\<close>

definition backup :: "shell \<Rightarrow> string \<Rightarrow> database_file \<Rightarrow> files \<Rightarrow> unit result \<times> files" where
  "backup sh path f fs =
     (case sh_fault sh Locating path of Some err \<Rightarrow> (Inl (Internal err), fs)
      | None \<Rightarrow> (case create_file sh path fs of Inl e \<Rightarrow> (Inl e, fs)
        | Inr fs1 \<Rightarrow> (case sh_fault sh Closing path of Some err \<Rightarrow> (Inl (Internal err), fs1)
          | None \<Rightarrow> (case sh_fault sh Copying path of
                Some err \<Rightarrow> (Inl (Internal (''backup: '' @ err)), fs1(sh_path sh path := None))
              | None \<Rightarrow> (Inr (), fs1(sh_path sh path \<mapsto> Stored f))))))"

section \<open>Commands on an open database\<close>

definition user_password :: "shell \<Rightarrow> flag_set \<Rightarrow> files \<Rightarrow> string result" where
  "user_password sh fl fs =
     (let path = text_flag fl ''password-file'' in
      if path = [] then Inr (sh_password sh)
      else case read_file sh path fs of Inl e \<Rightarrow> Inl e | Inr raw \<Rightarrow> Inr (trim_right [CHR 0x0D, CHR 0x0A] raw))"

definition user_command :: "shell \<Rightarrow> flag_set \<Rightarrow> files \<Rightarrow> database_file \<Rightarrow> unit result \<times> notice list \<times> database_file" where
  "user_command sh fl fs f =
     (case user_password sh fl fs of Inl e \<Rightarrow> (Inl e, [], f)
      | Inr given \<Rightarrow>
          (let name = text_flag fl ''username''; role = text_flag fl ''role'';
               password = (if given = [] then sh_text sh else given) in
           case set_user (sh_env sh) name password role (df_accounts f) of
             (Inl e, ac) \<Rightarrow> (Inl e, [], f\<lparr>df_accounts := ac\<rparr>)
           | (Inr _, ac) \<Rightarrow> (Inr (), AccountSaved role name # (if given = [] then [GeneratedPassword password] else []),
               f\<lparr>df_accounts := ac\<rparr>)))"

definition import_command :: "shell \<Rightarrow> flag_set \<Rightarrow> database_file \<Rightarrow> unit result \<times> notice list \<times> database_file" where
  "import_command sh fl f =
     (case load_dir (sh_decoder sh) (sh_directory sh (text_flag fl ''study'')) of Inl e \<Rightarrow> (Inl e, [], f)
      | Inr b \<Rightarrow>
          (case import_bundle (en_sha (sh_env sh)) (en_random (sh_env sh) 0) (en_clock (sh_env sh) 0) b (df_db f) of
             (Inl e, db) \<Rightarrow> (Inl e, [], f\<lparr>df_db := db\<rparr>)
           | (Inr i, db) \<Rightarrow> (Inr (), [PublishedVersion i], f\<lparr>df_db := db\<rparr>)))"

definition list_command :: "database_file \<Rightarrow> unit result \<times> notice list \<times> database_file" where
  "list_command f =
     (let l = list_studies (df_db f)
      in (Inr (), if l = [] then [NoVersions] else VersionsHeader # map VersionLine l, f))"

definition remove_command :: "shell \<Rightarrow> flag_set \<Rightarrow> database_file \<Rightarrow> unit result \<times> notice list \<times> database_file" where
  "remove_command sh fl f =
     (let i = text_flag fl ''version'' in
      case get_study i (df_db f) of Inl e \<Rightarrow> (Inl e, [], f)
      | Inr s \<Rightarrow>
          if \<not> bool_flag fl ''confirm'' then (Inr (), [RemovalOf s, RemovalDryRun], f)
          else (case remove_study i (df_db f) of
             (Inl e, db) \<Rightarrow> (Inl e, [RemovalOf s], f\<lparr>df_db := db\<rparr>)
           | (Inr _, db) \<Rightarrow> (Inr (), [RemovalOf s, Removed i], f\<lparr>df_db := db\<rparr>)))"

text \<open>The loop over the runs to purge; the \<open>k\<close>-th one has its own reading of the clock and its own cleanup.\<close>

fun purge_runs :: "shell \<Rightarrow> nat \<Rightarrow> string list \<Rightarrow> database \<Rightarrow> unit result \<times> database" where
  "purge_runs sh k [] db = (Inr (), db)"
| "purge_runs sh k (i # is) db =
     (case purge_run ((environment.truncate (sh_env sh))\<lparr>en_clock := (\<lambda>n. en_clock (sh_env sh) (n + k))\<rparr>) (sh_cleanup sh k) i db of
        (Inl e, db1) \<Rightarrow> (Inl e, db1)
      | (Inr _, db1) \<Rightarrow> purge_runs sh (Suc k) is db1)"

definition purge_command :: "shell \<Rightarrow> flag_set \<Rightarrow> database_file \<Rightarrow> unit result \<times> notice list \<times> database_file" where
  "purge_command sh fl f =
     (let i = text_flag fl ''run''; overdue_only = bool_flag fl ''overdue'' in
      if i = [] \<longleftrightarrow> \<not> overdue_only then (Inl (Internal ''purge requires exactly one of --run or --overdue''), [], f)
      else
        (let l = purge_candidates (en_clock (sh_env sh) 0) i overdue_only (df_db f) in
         if l = [] then (Inr (), [NothingToPurge], f)
         else if \<not> bool_flag fl ''confirm'' then (Inr (), map PurgeOf l @ [PurgeDryRun], f)
         else (case purge_runs sh 1 (map pp_run l) (df_db f) of
             (Inl e, db) \<Rightarrow> (Inl e, map PurgeOf l, f\<lparr>df_db := db\<rparr>)
           | (Inr _, db) \<Rightarrow> (Inr (), map PurgeOf l @ [Purged (length l)], f\<lparr>df_db := db\<rparr>))))"

definition with_site :: "database_file \<Rightarrow> site \<Rightarrow> database_file" where
  "with_site f x = f\<lparr>df_db := site_db x, df_drafts := si_drafts x, df_accounts := si_accounts x\<rparr>"

definition serve_command :: "shell \<Rightarrow> flag_set \<Rightarrow> opened \<Rightarrow> database_file \<Rightarrow> unit result \<times> notice list \<times> database_file" where
  "serve_command sh fl s f =
     (case serve_endpoints (sh_bind sh) (sh_ending sh) (sh_late sh) (text_flag fl ''listen'') (text_flag fl ''metrics-listen'') of
        (r, trace) \<Rightarrow> (r, [], if Serving ''application'' \<in> set trace
          then with_site f (serve_requests (sh_process sh s) (sh_requests sh) (site_of f)) else f))"

section \<open>The program\<close>

definition shared_flags :: flag_set where
  "shared_flags = [(''db'', TextFlag ''treetest.sqlite''), (''public-url'', TextFlag ''http://127.0.0.1:8080''),
     (''branding'', TextFlag ''prometheus''), (''trusted-proxies'', TextFlag ''127.0.0.1/32,::1/128''),
     (''identity-key-file'', TextFlag [])]"

definition command_flags :: "string \<Rightarrow> flag_set option" where
  "command_flags command =
     map_option (\<lambda>fl. shared_flags @ fl) (map_of
       [(''serve'', [(''listen'', TextFlag ''127.0.0.1:8080''), (''metrics-listen'', TextFlag [])]),
        (''validate'', [(''study'', TextFlag ''studies/example'')]),
        (''import'', [(''study'', TextFlag ''studies/example'')]),
        (''list'', []),
        (''remove'', [(''version'', TextFlag []), (''confirm'', BoolFlag False)]),
        (''user'', [(''username'', TextFlag ''owner''), (''role'', TextFlag ''owner''), (''password-file'', TextFlag [])]),
        (''backup'', [(''out'', TextFlag [])]),
        (''purge'', [(''run'', TextFlag []), (''overdue'', BoolFlag False), (''confirm'', BoolFlag False)])] command)"

definition validate_command :: "shell \<Rightarrow> flag_set \<Rightarrow> unit result \<times> notice list" where
  "validate_command sh fl =
     (case load_dir (sh_decoder sh) (sh_directory sh (text_flag fl ''study'')) of Inl e \<Rightarrow> (Inl e, [])
      | Inr b \<Rightarrow> (case validate (en_sha (sh_env sh)) b of Inl e \<Rightarrow> (Inl (Internal ''invalid bundle''), [])
        | Inr snap \<Rightarrow> (let c = b_config b in
            (Inr (), [ValidStudy (cfg_title c) (s_hash snap) (length (cfg_variants c)) (length (cfg_tasks c))
              (length (cfg_panels c)) (tasks_per_session c)]))))"

definition proxies_of :: "string \<Rightarrow> string list" where
  "proxies_of s = (if trim_space s = [] then [] else split_at CHR '','' s)"

definition run_options :: "flag_set \<Rightarrow> string \<Rightarrow> options" where
  "run_options fl key = \<lparr>op_key = key, op_branding = text_flag fl ''branding'',
     op_proxies = Some (proxies_of (text_flag fl ''trusted-proxies''))\<rparr>"

text \<open>A command that needs the database: it is opened first, and closed in the end.\<close>

definition on_database ::
    "shell \<Rightarrow> string \<Rightarrow> flag_set \<Rightarrow> opened \<Rightarrow> database_file \<Rightarrow> files \<Rightarrow> unit result \<times> notice list \<times> files" where
  "on_database sh command fl s f fs =
     (if command = ''backup'' then
        (let out = text_flag fl ''out'' in
         if out = [] then (Inl (Internal ''backup requires --out''), [], fs)
         else (case backup sh out f fs of (Inl e, fs1) \<Rightarrow> (Inl e, [], fs1) | (Inr _, fs1) \<Rightarrow> (Inr (), [BackupSaved out], fs1)))
      else
        (case (if command = ''serve'' then serve_command sh fl s f
               else if command = ''user'' then user_command sh fl fs f
               else if command = ''import'' then import_command sh fl f
               else if command = ''list'' then list_command f
               else if command = ''remove'' then remove_command sh fl f
               else purge_command sh fl f) of
           (r, printed, g) \<Rightarrow> (r, printed, save_file sh (text_flag fl ''db'') g fs)))"

definition run_parsed :: "shell \<Rightarrow> string \<Rightarrow> flag_set \<Rightarrow> files \<Rightarrow> unit result \<times> notice list \<times> files" where
  "run_parsed sh command fl fs =
     (if command = ''validate'' then (case validate_command sh fl of (r, printed) \<Rightarrow> (r, printed, fs))
      else if command = ''remove'' \<and> text_flag fl ''version'' = []
        then (Inl (Internal ''remove requires --version''), [], fs)
      else if \<not> (case sh_url sh (text_flag fl ''public-url'') of None \<Rightarrow> False | Some u \<Rightarrow> http_origin u)
        then (Inl (Internal ''public-url must be an HTTP(S) origin without a path, query, credentials or fragment''), [], fs)
      else case load_identity_key sh (text_flag fl ''identity-key-file'') fs of Inl e \<Rightarrow> (Inl e, [], fs)
      | Inr key \<Rightarrow>
          (case open_server sh (text_flag fl ''db'') (trim_right [CHR ''/''] (text_flag fl ''public-url'')) (run_options fl key) fs of
             (Inl e, fs1) \<Rightarrow> (Inl e, [], fs1)
           | (Inr (s, f), fs1) \<Rightarrow> on_database sh command fl s f fs1))"

definition run :: "shell \<Rightarrow> string list \<Rightarrow> files \<Rightarrow> unit result \<times> notice list \<times> files" where
  "run sh args fs =
     (case args of [] \<Rightarrow> (Inr (), [UsageText], fs)
      | command # rest \<Rightarrow>
          if command = ''version'' then (Inr (), [VersionText], fs)
          else if command = ''help'' \<or> command = ''--help'' \<or> command = ''-h'' then (Inr (), [UsageText], fs)
          else if command = ''identity-key'' then generate_identity_key sh rest fs
          else (case command_flags command of
              None \<Rightarrow> (Inl (Internal (''unknown command '' @ command @ ''; use treetest help'')), [], fs)
            | Some defaults \<Rightarrow> (case parse_flags defaults rest of Inl e \<Rightarrow> (Inl e, [], fs)
              | Inr (fl, extra) \<Rightarrow> if extra \<noteq> [] then (Inl (unexpected_arguments extra), [], fs)
                  else run_parsed sh command fl fs)))"

end
