(* ===== verification/ServingTheorems.thy ===== *)
theory ServingTheorems
  imports Serving
begin

text \<open>
  Every request takes the site along steps of \<open>Site\<close>, so all that holds in its reachable states holds
  under requests; and without the session of an owner, its CSRF token and the right origin, no
  request changes studies, drafts, runs, invitations or accounts.
\<close>

section \<open>The table of routes\<close>

lemma first_match_route:
  "first_match r rs = Some (g, e, vs) \<Longrightarrow>
    \<exists>m ps. (m, ps, g, e) \<in> set rs \<and> match_route r (m, ps, g, e) = Some vs"
proof (induction rs)
  case (Cons x rs)
  obtain m ps g' e' where x: "x = (m, ps, g', e')" by (metis prod_cases4)
  show ?case
  proof (cases "match_route r (m, ps, g', e')")
    case None
    with Cons x show ?thesis by auto
  next
    case (Some vs')
    with Cons.prems x show ?thesis by (intro exI [of _ m] exI [of _ ps]) simp
  qed
qed simp

definition owner_writes :: "endpoint list" where
  "owner_writes = [CreateDraft, UpdateDraft, PublishDraft, CreateRun, UpdateRun, CreateInvitation]"

definition other_writes :: "endpoint list" where
  "other_writes = [JoinRun, StartTask, SendEvents, FinishTask, LogIn, LogOut]"

definition route_ok :: "string \<times> segment list \<times> guard \<times> endpoint \<Rightarrow> bool" where
  "route_ok route = (case route of (m, ps, g, e) \<Rightarrow>
     (e \<in> set owner_writes \<longrightarrow> g = Protected True) \<and> (e \<in> set (owner_writes @ other_writes) \<longrightarrow> m \<notin> {''GET'', ''HEAD''}))"

lemma routes_ok: "list_all route_ok routes"
  by (simp add: routes_def route_ok_def owner_writes_def other_writes_def admin_path_def public_path_def)

lemma first_match_guard:
  assumes "first_match r routes = Some (g, e, vs)"
  shows "e \<in> set owner_writes \<Longrightarrow> g = Protected True" "e \<in> set (owner_writes @ other_writes) \<Longrightarrow> \<not> reads (hq_method r)"
proof -
  obtain m ps where m: "(m, ps, g, e) \<in> set routes" "match_route r (m, ps, g, e) = Some vs"
    using first_match_route [OF assms] by blast
  have ok: "route_ok (m, ps, g, e)" using routes_ok m(1) by (auto simp: list_all_iff)
  then show "e \<in> set owner_writes \<Longrightarrow> g = Protected True" by (simp add: route_ok_def)
  assume "e \<in> set (owner_writes @ other_writes)"
  with ok have "m \<notin> {''GET'', ''HEAD''}" by (auto simp: route_ok_def)
  moreover have "hq_method r = m \<or> m = ''GET''" using m(2) by (auto simp: match_route_def split: if_splits)
  ultimately show "\<not> reads (hq_method r)" by (auto simp: reads_def)
qed

section \<open>What each group of handlers does to the site\<close>

lemma truncate_sha [simp]: "en_sha (environment.truncate env) = en_sha env"
  by (simp add: environment.defs)

lemma with_body_cases:
  "with_body b k x = (a, x') \<Longrightarrow> x' = x \<or> (\<exists>v. k v x = (a, x'))"
  by (auto simp: with_body_def split: sum.splits)

lemma on_server_cases:
  "on_server wrap f x = (a, x') \<Longrightarrow> \<exists>r sv. f (si_server x) = (r, sv) \<and> x' = x\<lparr>si_server := sv\<rparr>"
  by (auto simp: on_server_def split: prod.splits)

lemma on_db_cases: "on_db wrap f x = (a, x') \<Longrightarrow> \<exists>r db. f (site_db x) = (r, db) \<and> x' = with_db x db"
  by (auto simp: on_db_def split: prod.splits)

lemma on_drafts_cases: "on_drafts wrap f x = (a, x') \<Longrightarrow> \<exists>r ds. f (si_drafts x) = (r, ds) \<and> x' = x\<lparr>si_drafts := ds\<rparr>"
  by (auto simp: on_drafts_def split: prod.splits)

lemma serve_participant_cases:
  assumes "serve_participant p env e v r x = (a, x')"
  shows "x' = x \<or> (\<exists>sv. x' = x\<lparr>si_server := sv\<rparr> \<and> participant_step (en_sha env) (si_server x) sv)"
  using assms unfolding serve_participant_def Let_def
  by (cases e)
    (auto dest!: with_body_cases on_server_cases intro: step_join [OF truncate_sha] step_start [OF truncate_sha]
      step_events [OF truncate_sha] step_finish [OF truncate_sha] step_session [OF truncate_sha])

lemma serve_account_cases:
  assumes "serve_account p env e r x = (a, x')"
  shows "x' = x \<or> (\<exists>q a st. login env q (site_login x) = (a, st) \<and> x' = with_login x st)
    \<or> x' = x\<lparr>si_accounts := logout env (hq_cookie r admin_cookie) (si_accounts x)\<rparr>"
  using assms unfolding serve_account_def Let_def
  by (cases e, auto dest!: with_body_cases split: prod.splits) blast

lemma serve_studies_cases:
  assumes "serve_studies p env e i r x = (a, x')"
  shows "x' = x \<or> e \<in> set owner_writes \<and> site_step (en_sha env) x x'"
  using assms unfolding serve_studies_def Let_def
  by (cases e)
    (auto dest!: with_body_cases on_db_cases on_drafts_cases simp: owner_writes_def
      intro: site_create_draft site_update_draft site_publish [OF truncate_sha] site_create_run [OF truncate_sha]
        site_update_run site_invite)

text \<open>A request that is let through runs one handler, after the source limit was charged.\<close>

definition charge :: "site \<Rightarrow> windows \<Rightarrow> site" where
  "charge x w = x\<lparr>si_server := (si_server x)\<lparr>sv_windows := w\<rparr>\<rparr>"

lemma charge_simps [simp]: "site_db (charge x w) = site_db x" "si_drafts (charge x w) = si_drafts x"
  "si_accounts (charge x w) = si_accounts x" "si_failures (charge x w) = si_failures x"
  "si_purging (charge x w) = si_purging x" "sv_db (si_server (charge x w)) = sv_db (si_server x)"
  by (simp_all add: charge_def site_db_def)

lemma pass_route_step:
  assumes "pass_route co now r (sv_windows (si_server x)) = (e, w)"
  shows "charge x w = x \<or> site_step sha x (charge x w)"
proof (cases "reads (hq_method r) \<or> \<not> same_origin co r")
  case True
  with assms have "w = sv_windows (si_server x)" by (auto simp: pass_route_def split: if_splits)
  then show ?thesis by (simp add: charge_def)
next
  case False
  with assms have "limit_public_source now (path_text (hq_segments r)) (source_of co r) (sv_windows (si_server x)) = (w, e)"
    by (auto simp: pass_route_def split: prod.splits)
  then show ?thesis unfolding charge_def by (intro disjI2 site_source)
qed

lemma serve_cases:
  assumes "serve p env r x = (a, x')"
  obtains "x' = x"
  | e w where "pass_route (pr_config p) (en_clock env 20) r (sv_windows (si_server x)) = (e, w)" "x' = charge x w"
  | g e vs w who where "first_match r routes = Some (g, e, vs)"
      "pass_route (pr_config p) (en_clock env 20) r (sv_windows (si_server x)) = (None, w)"
      "guarded (guard_env env) g r (si_accounts x) = Inr who" "handle p env e vs r (charge x w) = (a, x')"
proof (cases "asset_path (hq_segments r)")
  case True
  with assms that(1) show ?thesis by (simp add: serve_def)
next
  case False
  show ?thesis
  proof (cases "first_match r routes")
    case None
    with False assms that(1) show ?thesis by (simp add: serve_def)
  next
    case (Some m)
    obtain g e vs where m: "m = (g, e, vs)" by (metis prod_cases3)
    obtain err w where w: "pass_route (pr_config p) (en_clock env 20) r (sv_windows (si_server x)) = (err, w)" by fastforce
    note s = assms [unfolded serve_def, simplified, unfolded Some m w, simplified, folded charge_def]
    show ?thesis
    proof (cases err)
      case (Some f)
      with s False w that(2) show ?thesis by (auto simp: charge_def)
    next
      case None
      show ?thesis
      proof (cases "guarded (guard_env env) g r (si_accounts x)")
        case (Inl f)
        with s False w None that(2) show ?thesis by (auto simp: charge_def Let_def)
      next
        case (Inr who)
        with s False None have "handle p env e vs r (charge x w) = (a, x')" by (auto simp: charge_def Let_def)
        with that(3) Some m w None Inr show ?thesis by blast
      qed
    qed
  qed
qed

lemma handle_cases:
  assumes "handle p env e vs r x = (a, x')"
  shows "x' = x \<or> (\<exists>sv. x' = x\<lparr>si_server := sv\<rparr> \<and> participant_step (en_sha env) (si_server x) sv)
    \<or> (\<exists>q a st. login env q (site_login x) = (a, st) \<and> x' = with_login x st)
    \<or> x' = x\<lparr>si_accounts := logout env (hq_cookie r admin_cookie) (si_accounts x)\<rparr>
    \<or> e \<in> set owner_writes \<and> site_step (en_sha env) x x'"
proof -
  define v where "v = (case vs of [] \<Rightarrow> [] | v # _ \<Rightarrow> v)"
  have "serve_participant p env e v r x = (a, x') \<or> serve_account p env e r x = (a, x')
      \<or> serve_studies p env e v r x = (a, x') \<or> x' = x"
    using assms unfolding handle_def Let_def v_def [symmetric] by (cases e) (auto split: if_splits)
  then show ?thesis
    using serve_participant_cases [of p env e v r x a x'] serve_account_cases [of p env e r x a x']
      serve_studies_cases [of p env e v r x a x'] by blast
qed

lemma serve_steps:
  assumes "serve p env r x = (a, x')" "seen_before (en_clock env 13) (si_failures x)"
  shows "site_reach (en_sha env) x x'"
  using assms(1)
proof (cases rule: serve_cases)
  case 1
  then show ?thesis by (simp add: site_start)
next
  case (2 e w)
  from pass_route_step [OF 2(1), of "en_sha env"] site_start site_next show ?thesis unfolding 2(2) by metis
next
  case (3 g e vs w who)
  have first: "site_reach (en_sha env) x (charge x w)"
    using pass_route_step [OF 3(2), of "en_sha env"] site_start site_next by metis
  have "x' = charge x w \<or> site_step (en_sha env) (charge x w) x'"
    using handle_cases [OF 3(4)] assms(2) site_log_out [of "en_sha env" "charge x w" env "hq_cookie r admin_cookie"]
    by (auto intro: site_participant site_log_in)
  with first site_next show ?thesis by metis
qed

section \<open>A sequence of requests\<close>

lemma site_reach_trans: "site_reach sha y z \<Longrightarrow> site_reach sha x y \<Longrightarrow> site_reach sha x z"
  by (induction rule: site_reach.induct) (auto intro: site_next)

text \<open>Requests of one process, with the clock of the login limiter not running back.\<close>

fun requests_ordered :: "(string \<Rightarrow> string) \<Rightarrow> time \<Rightarrow> (auth_environment \<times> http_request) list \<Rightarrow> bool" where
  "requests_ordered sha now [] = True"
| "requests_ordered sha now ((env, r) # rs) =
     (en_sha env = sha \<and> now \<le> en_clock env 13 \<and> requests_ordered sha (en_clock env 13) rs)"

lemma login_failures_seen:
  assumes l: "login_ok (ls_failures st)" and seen: "seen_before (en_clock env 13) (ls_failures st)"
    and login: "login env q st = (r, st')"
  shows "login_ok (ls_failures st') \<and> seen_before (en_clock env 13) (ls_failures st')"
proof -
  obtain e st1 where gate: "login_gate env q st = (e, st1)" by (cases "login_gate env q st")
  have l1: "login_ok (ls_failures st1)" "seen_before (en_clock env 13) (ls_failures st1)"
    using gate l seen
    by (auto simp: login_gate_def Let_def blocked_ok blocked_def login_remove_seen login_remove_ok
        split: prod.splits bool.splits if_splits option.splits)
  show ?thesis
  proof (cases e)
    case (Some x)
    with login gate l1 show ?thesis by (simp add: login_gated)
  next
    case None
    then have v: "verify_login env q st1 = (r, st')" using login gate by (simp add: login_gated)
    from failed_ok [OF l1, of "login_key (en_sha env) (en_lower env) (lq_source q) (lq_username q)"] v l1
    show ?thesis
      by (auto simp: verify_login_def Let_def succeeded_def login_remove_ok login_remove_seen
          split: if_splits prod.splits sum.splits option.splits)
  qed
qed

text \<open>What the requests leave of the memory of the process: its purges and a consistent failure map.\<close>

definition memory_ok :: "time \<Rightarrow> site \<Rightarrow> bool" where
  "memory_ok now x \<longleftrightarrow> login_ok (si_failures x) \<and> seen_before now (si_failures x) \<and> si_purging x = []"

lemma seen_mono: "seen_before t l \<Longrightarrow> t \<le> u \<Longrightarrow> seen_before u l"
  by (force simp: seen_before_def)

lemma serve_studies_memory:
  "serve_studies p env e i r x = (a, x') \<Longrightarrow> si_failures x' = si_failures x \<and> si_purging x' = si_purging x"
  unfolding serve_studies_def Let_def
  by (cases e) (auto dest!: with_body_cases on_db_cases on_drafts_cases)

lemma handle_memory:
  assumes "handle p env e vs r x = (a, x')" "memory_ok (en_clock env 13) x"
  shows "memory_ok (en_clock env 13) x'"
proof -
  define v where "v = (case vs of [] \<Rightarrow> [] | v # _ \<Rightarrow> v)"
  have "serve_participant p env e v r x = (a, x') \<or> serve_account p env e r x = (a, x')
      \<or> serve_studies p env e v r x = (a, x') \<or> x' = x"
    using assms(1) unfolding handle_def Let_def v_def [symmetric] by (cases e) (auto split: if_splits)
  then consider "x' = x" | "serve_studies p env e v r x = (a, x')" | sv where "x' = x\<lparr>si_server := sv\<rparr>"
    | q b st where "login env q (site_login x) = (b, st)" "x' = with_login x st"
    | "x' = x\<lparr>si_accounts := logout env (hq_cookie r admin_cookie) (si_accounts x)\<rparr>"
    using serve_participant_cases [of p env e v r x a x'] serve_account_cases [of p env e r x a x'] by blast
  then show ?thesis
  proof cases
    case 2
    from serve_studies_memory [OF this] assms(2) show ?thesis by (simp add: memory_ok_def)
  next
    case (4 q b st)
    from login_failures_seen [OF _ _ 4(1)] assms(2) show ?thesis by (simp add: 4(2) memory_ok_def site_login_def)
  qed (use assms(2) in \<open>simp_all add: memory_ok_def\<close>)
qed

lemma serve_memory:
  assumes "serve p env r x = (a, x')" "memory_ok now x" "now \<le> en_clock env 13"
  shows "memory_ok (en_clock env 13) x'"
proof -
  have m: "memory_ok (en_clock env 13) x" using assms(2,3) seen_mono by (auto simp: memory_ok_def)
  have c: "memory_ok (en_clock env 13) (charge x w)" for w using m by (simp add: memory_ok_def)
  from assms(1) show ?thesis
  proof (cases rule: serve_cases)
    case 1
    with m show ?thesis by simp
  next
    case (2 e w)
    with c show ?thesis by simp
  next
    case (3 g e vs w who)
    from handle_memory [OF 3(4) c] show ?thesis .
  qed
qed

lemma serve_requests_reach:
  "requests_ordered sha now rs \<Longrightarrow> memory_ok now x \<Longrightarrow>
    site_reach sha x (serve_requests p rs x) \<and> si_purging (serve_requests p rs x) = []"
proof (induction rs arbitrary: x now)
  case Nil
  then show ?case by (simp add: site_start memory_ok_def)
next
  case (Cons er rs)
  obtain env r where er: "er = (env, r)" by fastforce
  obtain a x' where s: "serve p env r x = (a, x')" by fastforce
  have "memory_ok (en_clock env 13) x'" using serve_memory [OF s] Cons.prems er by simp
  with Cons.IH Cons.prems(1) er have "site_reach sha x' (serve_requests p rs x') \<and> si_purging (serve_requests p rs x') = []"
    by auto
  moreover have "site_reach sha x x'"
    using serve_steps [OF s] Cons.prems er seen_mono by (auto simp: memory_ok_def)
  ultimately show ?case using site_reach_trans er s by auto
qed

section \<open>Who may change what\<close>

text \<open>
  What only owners change: versions, drafts, accounts, purges, runs but for their byte counters and their
  queue of allocations (\<open>run_core\<close>), invitations but for being used (\<open>invitation_kept\<close>).
\<close>

definition administration_kept :: "site \<Rightarrow> site \<Rightarrow> bool" where
  "administration_kept x x' \<longleftrightarrow> db_versions (site_db x') = db_versions (site_db x)
     \<and> map run_core (db_runs (site_db x')) = map run_core (db_runs (site_db x))
     \<and> list_all2 invitation_kept (db_invitations (site_db x)) (db_invitations (site_db x'))
     \<and> si_drafts x' = si_drafts x \<and> ac_users (si_accounts x') = ac_users (si_accounts x) \<and> si_purging x' = si_purging x"

lemma administration_kept_refl [simp]: "administration_kept x x"
  by (simp add: administration_kept_def list.rel_refl)

lemma administration_kept_charge [simp]: "administration_kept x (charge x w)"
  by (simp add: administration_kept_def list.rel_refl)

lemma login_users:
  assumes "login env q st = (a, st')"
  shows "ac_users (ls_accounts st') = ac_users (ls_accounts st)"
proof -
  obtain e st1 where g: "login_gate env q st = (e, st1)" by fastforce
  then have same: "ls_accounts st1 = ls_accounts st" using login_gate_same [of env q st] by simp
  have v: "ac_users (ls_accounts (snd (verify_login env q s))) = ac_users (ls_accounts s)" for s
    by (auto simp: verify_login_def create_admin_session_def Let_def split: option.splits prod.splits sum.splits if_splits)
  show ?thesis
  proof (cases e)
    case None
    with assms g same v [of st1] show ?thesis by (simp add: login_gated)
  next
    case (Some f)
    with assms g same show ?thesis by (simp add: login_gated)
  qed
qed

lemma administration_kept_from_charge [simp]: "administration_kept (charge x w) y \<longleftrightarrow> administration_kept x y"
  by (simp add: administration_kept_def)

text \<open>Every handler but those of the owners leaves the administration alone.\<close>

lemma other_handlers_keep:
  assumes "handle p env e vs r x = (a, x')" "e \<notin> set owner_writes" "db_ok (en_sha env) (site_db x)"
  shows "administration_kept x x'"
proof -
  from handle_cases [OF assms(1)] assms(2) consider "x' = x"
    | sv where "x' = x\<lparr>si_server := sv\<rparr>" "participant_step (en_sha env) (si_server x) sv"
    | q b st where "login env q (site_login x) = (b, st)" "x' = with_login x st"
    | "x' = x\<lparr>si_accounts := logout env (hq_cookie r admin_cookie) (si_accounts x)\<rparr>"
    by blast
  then show ?thesis
  proof cases
    case 1
    then show ?thesis by simp
  next
    case 2
    have "db_ok (en_sha env) (sv_db (si_server x))" using assms(3) by (simp add: site_db_def)
    from participant_step_frame [OF 2(2) this] show ?thesis
      by (simp add: 2(1) administration_kept_def participant_frame_def site_db_def)
  next
    case 3
    from login_users [OF 3(1)] show ?thesis
      by (simp add: 3(2) administration_kept_def list.rel_refl site_login_def)
  next
    case 4
    then show ?thesis by (simp add: administration_kept_def list.rel_refl logout_def)
  qed
qed

text \<open>C5: In every reachable state, a request that does not carry the session cookie of a live session of
  an owner together with the CSRF token of that session, or that does not come from the origin of the
  site, leaves versions, drafts, accounts and purges exactly as they are, whatever its method, path and
  body; of a run it changes at most the byte counters and the queue of allocations, and of an invitation
  nothing, unless the invitation was unused: then at most the time of use and the session are filled in.\<close>

theorem only_owners_administer:
  assumes "fresh_site x0" "site_reach (en_sha env) x0 x" "serve p env r x = (a, x')"
    "\<not> (\<exists>s u. session_of (guard_env env) (hq_cookie r admin_cookie) (si_accounts x) s u \<and> us_role u = ''owner''
        \<and> hq_header r ''X-CSRF-Token'' = ad_csrf s \<and> same_origin (pr_config p) r)"
  shows "administration_kept x x'"
  using assms(3)
proof (cases rule: serve_cases)
  case 1
  then show ?thesis by simp
next
  case (2 e w)
  then show ?thesis by simp
next
  case (3 g e vs w who)
  have ok: "site_ok (en_sha env) x" by (rule reachable_site_ok [OF assms(1,2)])
  then have db: "db_ok (en_sha env) (sv_db (si_server x))" and good: "accounts_good (si_accounts x)"
    by (simp_all add: site_ok_def site_db_ok_def site_db_def)
  have "e \<notin> set owner_writes"
  proof
    assume e: "e \<in> set owner_writes"
    then have g: "g = Protected True" and w: "\<not> reads (hq_method r)" using first_match_guard [OF 3(1)] by simp_all
    have "same_origin (pr_config p) r" using 3(2) w by (auto simp: pass_route_def split: if_splits)
    moreover obtain i where "authorize (guard_env env) True (hq_method r) (hq_cookie r admin_cookie)
        (hq_header r ''X-CSRF-Token'') (si_accounts x) = Inr i"
      using 3(3) by (auto simp: guarded_def g map_sum_def split: sum.splits)
    ultimately show False
      using authorize_session [OF good] w assms(4) by (auto simp: reads_def)
  qed
  then show ?thesis using other_handlers_keep [OF 3(4)] db by (simp add: site_db_def)
qed

end
