(* ===== verification/CliTheorems.thy ===== *)
theory CliTheorems
  imports Cli ServingTheorems
begin

text \<open>
  What a command line does to the machine: it never changes an existing file other than its database,
  it takes a database along steps of \<open>Site\<close>, and it removes nothing without \<open>--confirm\<close>.
\<close>

section \<open>Opening\<close>

lemma open_existing:
  assumes "open_with_options url hash fresh opening u opt f = (Inr s, g)" "df_version f \<noteq> 0"
  shows "g = f"
  using open_initializes [OF assms(1)] assms(2)
  by (auto simp: initialize_database_def set_identity_key_def choose_key_def Let_def
      split: if_splits sum.splits option.splits prod.splits)

lemma prepare_file_files:
  assumes "prepare_file sh path fs = (e, f, fs1)"
  shows "fs1 = fs \<or> path \<noteq> in_memory \<and> fs (sh_path sh path) = None \<and> fs1 = fs(sh_path sh path \<mapsto> Bytes [])"
  using assms by (auto simp: prepare_file_def Let_def split: if_splits option.splits file_content.splits)

lemma prepare_file_stored:
  assumes "prepare_file sh path fs = (e, f, fs1)" "fs (sh_path sh path) = Some (Stored g)" "path \<noteq> in_memory"
  shows "e = None \<longrightarrow> f = g"
  using assms by (auto simp: prepare_file_def Let_def split: if_splits option.splits file_content.splits)

lemma open_server_keeps:
  assumes "open_server sh path u opt fs = (r, fs1)" "fs p = Some c"
  shows "fs1 p = Some c \<or> path \<noteq> in_memory \<and> p = sh_path sh path \<and> (\<exists>s g. r = Inr (s, g) \<and> fs1 p = Some (Stored g))"
proof (cases "check_options (sh_url sh) u opt")
  case (Inl e)
  with assms show ?thesis by (simp add: open_server_def)
next
  case (Inr x)
  obtain e f fs2 where p: "prepare_file sh path fs = (e, f, fs2)" by (metis prod_cases3)
  have "fs2 p = Some c" using prepare_file_files [OF p] assms(2) by auto
  with assms(1) Inr p show ?thesis
    by (auto simp: open_server_def save_file_def split: prod.splits sum.splits if_splits)
qed

lemma open_server_stored:
  assumes "open_server sh path u opt fs = (Inr (s, g), fs1)" "fs (sh_path sh path) = Some (Stored f)" "df_version f \<noteq> 0"
    "path \<noteq> in_memory"
  shows "g = f" "fs1 = fs"
proof -
  obtain e f' fs2 where p: "prepare_file sh path fs = (e, f', fs2)" by (metis prod_cases3)
  then have fs2: "fs2 = fs" using prepare_file_files [OF p] assms(2) by auto
  obtain h where o: "open_with_options (sh_url sh) (sh_sum sh) (sh_fresh_key sh) e u opt f' = (Inr s, h)"
    and r: "h = g" "fs1 = save_file sh path g fs2"
    using assms(1) p by (auto simp: open_server_def split: sum.splits prod.splits)
  have "e = None" using o by (auto simp: open_with_options_def split: sum.splits prod.splits option.splits)
  then have "f' = f" using prepare_file_stored [OF p assms(2,4)] by simp
  with open_existing [OF o] assms(3) r(1) show g: "g = f" by simp
  show "fs1 = fs" using r(2) g fs2 assms(2,4) by (auto simp: save_file_def)
qed

section \<open>The commands\<close>

text \<open>The ways a run may take: without a database, or with one.\<close>

lemma run_parsed_cases:
  assumes "run_parsed sh command fl fs = (r, printed, fs')"
  obtains "fs' = fs" "\<forall>out. BackupSaved out \<notin> set printed" "\<forall>out. KeySaved out \<notin> set printed"
  | e u opt where "open_server sh (text_flag fl ''db'') u opt fs = (Inl e, fs')" "printed = []"
  | s f u opt fs1 where "command \<noteq> ''validate''" "open_server sh (text_flag fl ''db'') u opt fs = (Inr (s, f), fs1)"
      "on_database sh command fl s f fs1 = (r, printed, fs')"
  using assms unfolding run_parsed_def
  by (auto simp: validate_command_def Let_def split: if_splits prod.splits sum.splits option.splits)

lemma run_cases:
  assumes "run sh args fs = (r, printed, fs')"
  obtains "fs' = fs" "\<forall>out. BackupSaved out \<notin> set printed" "\<forall>out. KeySaved out \<notin> set printed"
  | rest where "args = ''identity-key'' # rest" "generate_identity_key sh rest fs = (r, printed, fs')"
  | command rest defaults fl where "args = command # rest" "command_flags command = Some defaults"
      "parse_flags defaults rest = Inr (fl, [])" "run_parsed sh command fl fs = (r, printed, fs')"
  using assms unfolding run_def
  by (auto split: list.splits if_splits option.splits sum.splits prod.splits)

lemma generate_keeps:
  assumes "generate_identity_key sh args fs = (r, printed, fs')" "fs p = Some c"
  shows "fs' p = Some c"
  using assms by (auto simp: generate_identity_key_def create_file_def Let_def split: sum.splits prod.splits if_splits option.splits)

lemma backup_keeps: "backup sh path f fs = (r, fs') \<Longrightarrow> fs p = Some c \<Longrightarrow> fs' p = Some c"
  by (auto simp: backup_def create_file_def split: option.splits sum.splits if_splits)

lemma on_database_keeps:
  assumes "on_database sh command fl s f fs = (r, printed, fs')" "fs p = Some c"
  shows "fs' p = Some c \<or> text_flag fl ''db'' \<noteq> in_memory \<and> p = sh_path sh (text_flag fl ''db'')"
proof (cases "command = ''backup''")
  case True
  with assms show ?thesis by (auto simp: on_database_def Let_def backup_keeps split: if_splits sum.splits prod.splits)
next
  case False
  with assms(1) obtain g where "fs' = save_file sh (text_flag fl ''db'') g fs"
    by (auto simp: on_database_def split: prod.splits)
  with assms(2) show ?thesis by (auto simp: save_file_def)
qed

text \<open>C39: No command line, whatever its arguments and whatever goes wrong, changes or removes a file that
  exists, except the database file that its \<open>--db\<close> flag names: keys, backups and passwords are never
  overwritten.\<close>

theorem only_database_changes:
  assumes "run sh args fs = (r, printed, fs')" "fs p = Some c" "fs' p \<noteq> Some c"
  shows "\<exists>command rest defaults fl. args = command # rest \<and> command_flags command = Some defaults
    \<and> parse_flags defaults rest = Inr (fl, []) \<and> text_flag fl ''db'' \<noteq> in_memory \<and> p = sh_path sh (text_flag fl ''db'')"
  using assms(1)
proof (cases rule: run_cases)
  case 1
  with assms(2,3) show ?thesis by simp
next
  case (2 rest)
  with generate_keeps [OF 2(2) assms(2)] assms(3) show ?thesis by simp
next
  case (3 command rest defaults fl)
  have "text_flag fl ''db'' \<noteq> in_memory \<and> p = sh_path sh (text_flag fl ''db'')" using 3(4)
  proof (cases rule: run_parsed_cases)
    case 1
    with assms(2,3) show ?thesis by simp
  next
    case (2 e u opt)
    with open_server_keeps [OF 2(1) assms(2)] assms(3) show ?thesis by auto
  next
    case (3 s f u opt fs1)
    from open_server_keeps [OF 3(2) assms(2)] on_database_keeps [OF 3(3), of p c] assms(3) show ?thesis by auto
  qed
  with 3 show ?thesis by blast
qed

section \<open>Commands are steps\<close>

lemma site_of_db: "site_of (f\<lparr>df_db := db\<rparr>) = with_db (site_of f) db"
  "site_of (f\<lparr>df_accounts := ac\<rparr>) = (site_of f)\<lparr>si_accounts := ac\<rparr>" "site_db (site_of f) = df_db f"
  by (simp_all add: site_of_def with_db_def site_db_def)

lemma one_step: "site_step sha x y \<Longrightarrow> site_reach sha x y"
  using site_next [OF site_start] .

lemma user_command_reach:
  assumes "user_command sh fl fs f = (r, printed, g)"
  shows "site_reach sha (site_of f) (site_of g)"
proof -
  have "g = f \<or> (\<exists>name password role r ac. set_user (sh_env sh) name password role (df_accounts f) = (r, ac) \<and> g = f\<lparr>df_accounts := ac\<rparr>)"
    using assms by (auto simp: user_command_def Let_def split: sum.splits prod.splits if_splits) blast+
  then show ?thesis
  proof (elim disjE exE conjE)
    fix name password role q ac assume u: "set_user (sh_env sh) name password role (df_accounts f) = (q, ac)" and g: "g = f\<lparr>df_accounts := ac\<rparr>"
    then have "set_user (sh_env sh) name password role (si_accounts (site_of f)) = (q, ac)" by (simp add: site_of_def)
    from one_step [OF site_set_user [OF this]] show ?thesis by (simp add: g site_of_db)
  qed (simp add: site_start)
qed

lemma import_command_reach:
  assumes "import_command sh fl f = (r, printed, g)"
  shows "site_reach (en_sha (sh_env sh)) (site_of f) (site_of g)"
proof -
  have "g = f \<or> (\<exists>i now b r db. import_bundle (en_sha (sh_env sh)) i now b (site_db (site_of f)) = (r, db) \<and> g = f\<lparr>df_db := db\<rparr>)"
    using assms by (auto simp: import_command_def site_of_db split: sum.splits prod.splits) blast+
  then show ?thesis using one_step [OF site_import [of _ _ _ _ "site_of f"]] site_start site_of_db(1) by metis
qed

lemma remove_command_reach:
  assumes "remove_command sh fl f = (r, printed, g)"
  shows "site_reach sha (site_of f) (site_of g)"
proof -
  have "g = f \<or> (\<exists>i r db. remove_study i (site_db (site_of f)) = (r, db) \<and> g = f\<lparr>df_db := db\<rparr>)"
    using assms by (auto simp: remove_command_def Let_def site_of_db split: sum.splits prod.splits if_splits)
  then show ?thesis using one_step [OF site_remove_study [of _ "site_of f"]] site_start site_of_db(1) by metis
qed

text \<open>A purge is its two steps, or the first one and the failure of the cleanup.\<close>

lemma purge_run_reach:
  assumes "purge_run env cleanup i (site_db x) = (r, db)" "si_purging x = []"
  shows "site_reach sha x (with_db x db)"
proof -
  obtain d db1 where d: "purge_delete i (site_db x) = (d, db1)" by fastforce
  show ?thesis
  proof (cases d)
    case (Inl e)
    then have "db = site_db x" using assms(1) d by (auto simp: purge_run_def purge_delete_def split: option.splits if_splits)
    then show ?thesis by (simp add: with_db_def site_db_def site_start)
  next
    case (Inr u)
    define y where "y = (with_db x db1)\<lparr>si_purging := i # si_purging x\<rparr>"
    have y: "site_reach sha x y" "i \<in> set (si_purging y)" "site_db y = db1"
      using one_step [OF site_purge_delete [OF d [unfolded Inr]]] by (simp_all add: y_def)
    have "db = db1 \<or> db = purge_mark (en_clock env 0) i db1"
      using assms(1) d Inr by (auto simp: purge_run_def split: option.splits)
    then obtain z where "site_step sha y z" "z = with_db x db"
    proof
      assume "db = db1"
      then have "y\<lparr>si_purging := remove1 i (si_purging y)\<rparr> = with_db x db"
        using assms(2) by (simp add: y_def with_db_def)
      with site_purge_failed [OF y(2)] that show ?thesis by blast
    next
      assume "db = purge_mark (en_clock env 0) i db1"
      then have "(with_db y (purge_mark (en_clock env 0) i (site_db y)))\<lparr>si_purging := remove1 i (si_purging y)\<rparr> = with_db x db"
        using assms(2) y(3) by (simp add: y_def with_db_def)
      with site_purge_mark [OF y(2)] that show ?thesis by metis
    qed
    with y(1) show ?thesis by (auto intro: site_next)
  qed
qed

lemma purge_runs_reach:
  "purge_runs sh k is (site_db x) = (r, db) \<Longrightarrow> si_purging x = [] \<Longrightarrow> site_reach sha x (with_db x db)"
proof (induction "is" arbitrary: k x)
  case Nil
  then have "with_db x db = x" by (auto simp: with_db_def site_db_def)
  then show ?case by (simp add: site_start)
next
  case (Cons i l)
  define env where "env = (environment.truncate (sh_env sh))\<lparr>en_clock := (\<lambda>n. en_clock (sh_env sh) (n + k))\<rparr>"
  obtain q db1 where p: "purge_run env (sh_cleanup sh k) i (site_db x) = (q, db1)" by fastforce
  note first = purge_run_reach [OF p Cons.prems(2)]
  show ?case
  proof (cases q)
    case (Inl e)
    with p Cons.prems(1) first show ?thesis by (simp add: env_def)
  next
    case (Inr u)
    with p Cons.prems have "site_reach sha (with_db x db1) (with_db (with_db x db1) db)"
      by (intro Cons.IH [of "Suc k"]) (simp_all add: env_def)
    with first site_reach_trans show ?thesis by (fastforce simp: with_db_def)
  qed
qed

lemma purge_command_reach:
  assumes "purge_command sh fl f = (r, printed, g)"
  shows "site_reach sha (site_of f) (site_of g)"
proof -
  have "g = f \<or> (\<exists>l r db. purge_runs sh 1 l (site_db (site_of f)) = (r, db) \<and> g = f\<lparr>df_db := db\<rparr>)"
    using assms by (auto simp: purge_command_def Let_def site_of_db split: sum.splits prod.splits if_splits)
  moreover have "si_purging (site_of f) = []" by (simp add: site_of_def)
  ultimately show ?thesis using purge_runs_reach [of sh 1 _ "site_of f"] site_start site_of_db(1) by metis
qed

text \<open>Serving ends with the process, which forgets its limiters.\<close>

lemma serve_command_reach:
  assumes "serve_command sh fl s f = (r, printed, g)" "requests_ordered sha now (sh_requests sh)"
  shows "site_reach sha (site_of f) (site_of g)"
proof -
  define x where "x = serve_requests (sh_process sh s) (sh_requests sh) (site_of f)"
  have "memory_ok now (site_of f)"
    by (simp add: memory_ok_def site_of_def new_login_limiter_ok) (simp add: seen_before_def new_login_limiter_def)
  from serve_requests_reach [OF assms(2) this, of "sh_process sh s"]
  have x: "site_reach sha (site_of f) x" "si_purging x = []" by (simp_all add: x_def)
  have "site_of (with_site f x) = x\<lparr>si_server := (si_server x)\<lparr>sv_windows := []\<rparr>, si_failures := new_login_limiter\<rparr>"
    using x(2) by (simp add: site_of_def with_site_def site_db_def)
  moreover have "g = f \<or> g = with_site f x"
    using assms(1) by (auto simp: serve_command_def x_def split: prod.splits if_splits)
  ultimately show ?thesis using x(1) site_start site_next [OF x(1) site_restart] by metis
qed

section \<open>A run on an existing database\<close>

text \<open>The command that \<open>on_database\<close> runs, but for \<open>backup\<close>.\<close>

definition database_command ::
    "shell \<Rightarrow> string \<Rightarrow> flag_set \<Rightarrow> opened \<Rightarrow> database_file \<Rightarrow> files \<Rightarrow> unit result \<times> notice list \<times> database_file" where
  "database_command sh command fl s f fs =
     (if command = ''serve'' then serve_command sh fl s f
      else if command = ''user'' then user_command sh fl fs f
      else if command = ''import'' then import_command sh fl f
      else if command = ''list'' then list_command f
      else if command = ''remove'' then remove_command sh fl f
      else purge_command sh fl f)"

lemma on_database_cases:
  assumes "on_database sh command fl s f fs = (r, printed, fs')"
  obtains q where "command = ''backup''" "backup sh (text_flag fl ''out'') f fs = (q, fs')"
      "printed = (if q = Inr () then [BackupSaved (text_flag fl ''out'')] else [])" "r = q"
  | "command = ''backup''" "fs' = fs" "printed = []" "r \<noteq> Inr ()"
  | g where "command \<noteq> ''backup''" "database_command sh command fl s f fs = (r, printed, g)"
      "fs' = save_file sh (text_flag fl ''db'') g fs"
  using assms unfolding on_database_def database_command_def [symmetric]
  by (auto simp: Let_def split: if_splits sum.splits prod.splits)

lemma command_frame:
  assumes "database_command sh command fl s f fs = (r, printed, g)"
  shows "df_secrets g = df_secrets f \<and> df_version g = df_version f"
  using assms
  by (auto simp: database_command_def serve_command_def with_site_def user_command_def import_command_def list_command_def
      remove_command_def purge_command_def Let_def split: if_splits sum.splits prod.splits)

lemma command_reach:
  assumes "database_command sh command fl s f fs = (r, printed, g)"
    "requests_ordered (en_sha (sh_env sh)) now (sh_requests sh)"
  shows "site_reach (en_sha (sh_env sh)) (site_of f) (site_of g)"
  using assms site_start serve_command_reach user_command_reach import_command_reach remove_command_reach purge_command_reach
  by (auto simp: database_command_def list_command_def Let_def split: if_splits)

text \<open>An existing database is left alone, or one command runs on it.\<close>

lemma run_existing:
  assumes "run sh args fs = (r, printed, fs')" "fs p = Some (Stored f)" "df_version f \<noteq> 0"
  obtains "fs' p = Some (Stored f)"
  | command rest defaults fl s g where "args = command # rest" "command_flags command = Some defaults"
      "parse_flags defaults rest = Inr (fl, [])" "database_command sh command fl s f fs = (r, printed, g)"
      "fs' p = Some (Stored g)" "command \<notin> {''validate'', ''backup''}"
proof (cases "fs' p = Some (Stored f)")
  case True
  then show ?thesis using that(1) by simp
next
  case False
  from assms(1) show ?thesis
  proof (cases rule: run_cases)
    case 1
    with assms(2) False show ?thesis by simp
  next
    case (2 rest)
    with generate_keeps [OF 2(2) assms(2)] False show ?thesis by simp
  next
    case (3 command rest defaults fl)
    note fl = 3
    from 3(4) show ?thesis
    proof (cases rule: run_parsed_cases)
      case 1
      with assms(2) False show ?thesis by simp
    next
      case (2 e u opt)
      with open_server_keeps [OF 2(1) assms(2)] False show ?thesis by auto
    next
      case (3 s h u opt fs1)
      show ?thesis
      proof (cases "text_flag fl ''db'' \<noteq> in_memory \<and> p = sh_path sh (text_flag fl ''db'')")
        case True
        then have same: "h = f" "fs1 = fs" using open_server_stored [OF 3(2)] assms(2,3) by simp_all
        from 3(3) [unfolded same] show ?thesis
        proof (cases rule: on_database_cases)
          case (1 q)
          with backup_keeps [OF 1(2) assms(2)] False show ?thesis by simp
        next
          case 2
          with assms(2) False show ?thesis by simp
        next
          case c: (3 g)
          with True have "fs' p = Some (Stored g)" by (simp add: save_file_def)
          with that(2) [OF fl(1-3) c(2)] c(1) 3(1) show ?thesis by simp
        qed
      next
        case other: False
        have "fs1 p = Some (Stored f)" using open_server_keeps [OF 3(2) assms(2)] other by auto
        from on_database_keeps [OF 3(3) this] other False show ?thesis by auto
      qed
    qed
  qed
qed

text \<open>C10: Every database of the current schema survives every command line, with whatever arguments and
  errors, whether it is the one the command works on or not: it is still a database of that schema with
  the same identity secrets, and its content has changed along steps of \<open>Site\<close>, so that all that holds in
  the reachable states of the service holds after any sequence of commands.\<close>

theorem run_reaches:
  assumes "run sh args fs = (r, printed, fs')" "fs p = Some (Stored f)" "df_version f \<noteq> 0"
    "requests_ordered (en_sha (sh_env sh)) now (sh_requests sh)"
  shows "\<exists>g. fs' p = Some (Stored g) \<and> df_version g = df_version f \<and> df_secrets g = df_secrets f
    \<and> site_reach (en_sha (sh_env sh)) (site_of f) (site_of g)"
  using assms(1-3)
proof (cases rule: run_existing)
  case 1
  then show ?thesis by (simp add: site_start)
next
  case (2 command rest defaults fl s g)
  from command_frame [OF 2(4)] command_reach [OF 2(4) assms(4)] 2(5) show ?thesis by blast
qed

lemma remove_study_versions: "remove_study i db = (r, db') \<Longrightarrow> db' = db\<lparr>db_versions := db_versions db'\<rparr>"
  by (auto simp: remove_study_def split: if_splits option.splits)

lemma purge_runs_versions: "purge_runs sh k is db = (r, db') \<Longrightarrow> db_versions db' = db_versions db"
proof (induction "is" arbitrary: k db)
  case (Cons i l)
  then show ?case
    by (auto simp: purge_run_def purge_delete_def purge_mark_def purge_rows_tables
        split: prod.splits sum.splits option.splits if_splits)
qed simp

text \<open>Where a report of a saved backup comes from.\<close>

lemma reported_backup:
  assumes "run sh args fs = (r, printed, fs')" "BackupSaved out \<in> set printed"
  obtains command rest defaults fl u opt s f fs1 where "args = command # rest" "command_flags command = Some defaults"
    "parse_flags defaults rest = Inr (fl, [])" "open_server sh (text_flag fl ''db'') u opt fs = (Inr (s, f), fs1)"
    "fs1 (sh_path sh out) = None" "fs' = fs1(sh_path sh out \<mapsto> Stored f)"
  using assms(1)
proof (cases rule: run_cases)
  case 1
  with assms(2) show ?thesis by blast
next
  case (2 rest)
  with assms(2) show ?thesis
    by (auto simp: generate_identity_key_def Let_def split: sum.splits prod.splits if_splits option.splits)
next
  case (3 command rest defaults fl)
  note fl = 3
  from 3(4) show ?thesis
  proof (cases rule: run_parsed_cases)
    case 1
    with assms(2) show ?thesis by blast
  next
    case (2 e u opt)
    with assms(2) show ?thesis by simp
  next
    case (3 s f u opt fs1)
    from 3(3) show ?thesis
    proof (cases rule: on_database_cases)
      case (1 q)
      then have "backup sh out f fs1 = (Inr (), fs')" using assms(2) by (auto split: if_splits)
      then have "fs1 (sh_path sh out) = None" "fs' = fs1(sh_path sh out \<mapsto> Stored f)"
        by (auto simp: backup_def create_file_def split: option.splits sum.splits if_splits)
      with that fl(1-3) 3(2) show ?thesis by blast
    next
      case 2
      with assms(2) show ?thesis by simp
    next
      case (3 g)
      then have "BackupSaved out \<notin> set printed"
        by (auto simp: database_command_def serve_command_def user_command_def import_command_def list_command_def
            remove_command_def purge_command_def Let_def split: if_splits sum.splits prod.splits)
      with assms(2) show ?thesis by simp
    qed
  qed
qed

text \<open>C11: Outside the service, accounts change by \<open>user\<close> only, drafts by nothing, and the rest of a
  database only by \<open>import\<close>, or by \<open>remove\<close> and \<open>purge\<close> with the flag \<open>--confirm\<close>; without it they are dry
  runs. A removal touches nothing but the published versions, and a purge never touches them.\<close>

theorem commands_confirmed:
  assumes "run sh (command # rest) fs = (r, printed, fs')" "fs p = Some (Stored f)" "df_version f \<noteq> 0"
    "fs' p = Some (Stored g)" "command \<noteq> ''serve''"
  shows "df_drafts g = df_drafts f \<and> (df_accounts g \<noteq> df_accounts f \<longrightarrow> command = ''user'')
    \<and> (df_db g \<noteq> df_db f \<longrightarrow> command = ''import'' \<or> (command = ''remove'' \<or> command = ''purge'')
        \<and> (\<exists>defaults fl. command_flags command = Some defaults \<and> parse_flags defaults rest = Inr (fl, []) \<and> bool_flag fl ''confirm''))
    \<and> (command = ''remove'' \<longrightarrow> df_db g = (df_db f)\<lparr>db_versions := db_versions (df_db g)\<rparr>)
    \<and> (command = ''purge'' \<longrightarrow> db_versions (df_db g) = db_versions (df_db f))"
  using assms(1-3)
proof (cases rule: run_existing)
  case 1
  with assms(4) show ?thesis by simp
next
  case (2 command' rest' defaults fl s h)
  then have h: "h = g" "command' = command" "rest' = rest" using assms(4) by simp_all
  note c = 2(4) [unfolded h]
  have flags: "command_flags command = Some defaults" "parse_flags defaults rest = Inr (fl, [])" using 2(2,3) h by simp_all
  then have "command \<in> {''import'', ''list'', ''remove'', ''user'', ''purge''}"
    using 2(6) h(2) assms(5) by (auto simp: command_flags_def split: if_splits)
  then consider "command = ''import''" | "command = ''list''" | "command = ''remove''" | "command = ''user''" | "command = ''purge''"
    by blast
  then show ?thesis
  proof cases
    case 1
    with c show ?thesis by (auto simp: database_command_def import_command_def split: sum.splits prod.splits)
  next
    case 2
    with c show ?thesis by (simp add: database_command_def list_command_def Let_def)
  next
    case 3
    with c have "g = f \<or> bool_flag fl ''confirm'' \<and> (\<exists>q db. remove_study (text_flag fl ''version'') (df_db f) = (q, db) \<and> g = f\<lparr>df_db := db\<rparr>)"
      by (auto simp: database_command_def remove_command_def Let_def split: sum.splits prod.splits if_splits)
    with flags 3 show ?thesis by (auto dest: remove_study_versions)
  next
    case 4
    with c show ?thesis by (auto simp: database_command_def user_command_def Let_def split: sum.splits prod.splits if_splits)
  next
    case 5
    with c have "g = f \<or> bool_flag fl ''confirm'' \<and> (\<exists>l q db. purge_runs sh 1 l (df_db f) = (q, db) \<and> g = f\<lparr>df_db := db\<rparr>)"
      by (auto simp: database_command_def purge_command_def Let_def split: sum.splits prod.splits if_splits) 
    with flags 5 show ?thesis by (auto dest: purge_runs_versions)
  qed
qed

section \<open>Keys and backups\<close>

text \<open>A key file that \<open>identity-key\<close> made is new, no other file changes, and a later command that is given
  it gets exactly the random key back.\<close>

theorem identity_key_loads:
  assumes "generate_identity_key sh args fs = (Inr (), printed, fs')" "length (sh_key sh) = 32"
  shows "\<exists>out. printed = [KeySaved out] \<and> fs (sh_path sh out) = None \<and> (\<forall>p. p \<noteq> sh_path sh out \<longrightarrow> fs' p = fs p)
    \<and> (\<forall>path. path \<noteq> [] \<and> sh_path sh path = sh_path sh out \<and> sh_fault sh Reading path = None
        \<longrightarrow> load_identity_key sh path fs' = Inr (sh_key sh))"
proof -
  have ne: "sh_key sh \<noteq> []" using assms(2) by auto
  obtain out where out: "printed = [KeySaved out]" "fs (sh_path sh out) = None"
    "fs' = fs(sh_path sh out \<mapsto> Bytes (base64_encode (sh_key sh) @ new_line))"
    using assms(1) by (auto simp: generate_identity_key_def create_file_def Let_def
        split: sum.splits prod.splits if_splits option.splits)
  have "load_identity_key sh path fs' = Inr (sh_key sh)"
    if "path \<noteq> []" "sh_path sh path = sh_path sh out" "sh_fault sh Reading path = None" for path
    using that assms(2)
    by (simp add: load_identity_key_def read_file_def out(3) new_line_def base64_line [OF ne] base64_back)
  with out show ?thesis by (intro exI [of _ out]) auto
qed

lemma sealed_reopens:
  assumes "sealed hash k f" "key \<noteq> [] \<longleftrightarrow> map_of (df_secrets f) key_name = None" "key \<noteq> [] \<Longrightarrow> k = key" "length (hash k) = 32"
  shows "initialize_database hash fresh key f = (Inr k, f)"
  using assms
  by (cases "map_of (df_secrets f) key_name")
    (auto simp: sealed_def initialize_database_def set_identity_key_def choose_key_def schema_number_def Let_def)

lemma existing_reopens:
  assumes "df_version f \<noteq> 0" "initialize_database hash fresh key f = (Inr k, g)"
  shows "g = f \<and> initialize_database hash fresh' key f = (Inr k, f)"
proof -
  have "choose_key fresh key False v = choose_key fresh' key False v" for v
    by (simp add: choose_key_def split: option.splits)
  then have "set_identity_key hash fresh key False l = set_identity_key hash fresh' key False l" for l
    by (simp add: set_identity_key_def Let_def cong: if_cong)
  moreover have "set_identity_key hash fresh key False l = Inr (j, m) \<Longrightarrow> m = l" for l j m
    by (auto simp: set_identity_key_def Let_def choose_key_def split: option.splits sum.splits if_splits)
  ultimately show ?thesis using assms
    by (auto simp: initialize_database_def Let_def split: if_splits sum.splits)
qed

text \<open>Opening a database again with the same options gives the same server, whatever fresh key is at hand.\<close>

lemma open_again:
  assumes "open_with_options url hash fresh opening u opt f = (Inr s, g)" "length fresh = 32" "length (hash (on_key s)) = 32"
  shows "open_with_options url hash fresh' None u opt g = (Inr s, g)"
proof -
  note i = open_initializes [OF assms(1)]
  have "initialize_database hash fresh' (op_key opt) g = (Inr (on_key s), g)"
  proof (cases "df_version f = 0")
    case True
    from sealed_reopens [OF created_sealed(1,3,4) [OF i True assms(2)] assms(3)] show ?thesis by simp
  next
    case False
    from existing_reopens [OF False i] show ?thesis by simp
  qed
  moreover obtain q where "check_options url u opt = Inr q"
    using assms(1) by (auto simp: open_with_options_def split: sum.splits)
  ultimately show ?thesis using assms(1) by (auto simp: open_with_options_def split: option.splits sum.splits prod.splits)
qed

lemma open_server_again:
  assumes "open_server sh path u opt fs = (Inr (s, f), fs1)" "length (sh_fresh_key sh) = 32" "length (sh_sum sh (on_key s)) = 32"
    "fs' (sh_path sh copy) = Some (Stored f)" "copy \<noteq> in_memory" "\<forall>operation. sh_fault sh operation copy = None"
  shows "open_server sh copy u opt fs' = (Inr (s, f), fs')"
proof -
  obtain e f0 where o: "open_with_options (sh_url sh) (sh_sum sh) (sh_fresh_key sh) e u opt f0 = (Inr s, f)"
    using assms(1) by (auto simp: open_server_def split: sum.splits prod.splits)
  have "prepare_file sh copy fs' = (None, f, fs')" using assms(4-6) by (simp add: prepare_file_def Let_def)
  moreover have "save_file sh copy f fs' = fs'" using assms(4) by (auto simp: save_file_def)
  moreover obtain q where "check_options (sh_url sh) u opt = Inr q"
    using assms(1) by (auto simp: open_server_def split: sum.splits)
  ultimately show ?thesis using open_again [OF o assms(2,3)] by (simp add: open_server_def)
qed

lemma open_server_key:
  assumes "open_server sh path u opt fs = (Inr (s, f), fs1)" "length (sh_fresh_key sh) = 32"
  shows "length (on_key s) = 32"
proof -
  obtain e f0 where "open_with_options (sh_url sh) (sh_sum sh) (sh_fresh_key sh) e u opt f0 = (Inr s, f)"
    using assms(1) by (auto simp: open_server_def split: sum.splits prod.splits)
  from open_initializes [OF this] show ?thesis using assms(2)
    by (auto simp: initialize_database_def set_identity_key_def choose_key_def Let_def
        split: if_splits sum.splits option.splits prod.splits)
qed

text \<open>C38: A backup that was reported as saved is a new file that holds the database as the database file does,
  and opening the copy, wherever it is reached from, with the options of the command gives the same
  server, with the same identity key, on the same content.\<close>

theorem backup_restores:
  assumes "run sh args fs = (r, printed, fs')" "BackupSaved out \<in> set printed" "length (sh_fresh_key sh) = 32"
    "\<forall>k. length k = 32 \<longrightarrow> length (sh_sum sh k) = 32"
  shows "\<exists>command rest defaults fl u opt s f fs1. args = command # rest \<and> command_flags command = Some defaults
    \<and> parse_flags defaults rest = Inr (fl, []) \<and> open_server sh (text_flag fl ''db'') u opt fs = (Inr (s, f), fs1)
    \<and> fs (sh_path sh out) = None \<and> fs' = fs1(sh_path sh out \<mapsto> Stored f)
    \<and> (text_flag fl ''db'' \<noteq> in_memory \<longrightarrow> fs' (sh_path sh (text_flag fl ''db'')) = Some (Stored f))
    \<and> (\<forall>copy. copy \<noteq> in_memory \<and> sh_path sh copy = sh_path sh out \<and> (\<forall>operation. sh_fault sh operation copy = None)
        \<longrightarrow> open_server sh copy u opt fs' = (Inr (s, f), fs'))"
  using assms(1,2)
proof (cases rule: reported_backup)
  case (1 command rest defaults fl u opt s f fs1)
  have none: "fs (sh_path sh out) = None"
    using open_server_keeps [OF 1(4)] 1(5) by (cases "fs (sh_path sh out)") fastforce+
  have "text_flag fl ''db'' \<noteq> in_memory \<Longrightarrow> fs1 (sh_path sh (text_flag fl ''db'')) = Some (Stored f)"
    using 1(4) by (auto simp: open_server_def save_file_def split: sum.splits prod.splits)
  then have db: "text_flag fl ''db'' \<noteq> in_memory \<longrightarrow> fs' (sh_path sh (text_flag fl ''db'')) = Some (Stored f)"
    using 1(6) by auto
  have h: "length (sh_sum sh (on_key s)) = 32" using open_server_key [OF 1(4) assms(3)] assms(4) by simp
  have again: "open_server sh copy u opt fs' = (Inr (s, f), fs')"
    if "copy \<noteq> in_memory" "sh_path sh copy = sh_path sh out" "\<forall>operation. sh_fault sh operation copy = None" for copy
    using open_server_again [OF 1(4) assms(3) h _ that(1,3)] 1(6) that(2) by simp
  show ?thesis
    by (intro exI [of _ command] exI [of _ rest] exI [of _ defaults] exI [of _ fl] exI [of _ u] exI [of _ opt] exI [of _ s]
        exI [of _ f] exI [of _ fs1] conjI allI impI)
      (rule 1(1-4,6) none db [rule_format] again; (elim conjE)?; assumption?; simp?)+
qed

section \<open>Purging what is due\<close>

lemma purge_run_done:
  assumes "tbl_lookup rn_id i (db_runs db) = Some r" "rn_status r = ''closed''"
  shows "purge_run env None i db = (Inr (), purge_mark (en_clock env 0) i (purge_rows i db))"
  using assms by (simp add: purge_run_def purge_delete_def)

text \<open>The runs after a purge of some of them.\<close>

definition marked :: "time \<Rightarrow> run_row \<Rightarrow> run_row" where
  "marked t r = r\<lparr>rn_event_bytes := 0, rn_data_bytes := 0, rn_purged_at := Some t, rn_purge_pending := False\<rparr>"

lemma purged_runs: "db_runs (purge_mark t i (purge_rows i db)) = tbl_update (\<lambda>r. rn_id r = i) (marked t) (db_runs db)"
  by (simp add: purge_mark_def purge_rows_tables tbl_update_def marked_def comp_def)

definition purged_to :: "string list \<Rightarrow> run_row \<Rightarrow> run_row \<Rightarrow> bool" where
  "purged_to l r q \<longleftrightarrow> (if rn_id r \<in> set l then \<exists>t. q = marked t r else q = r)"

lemma marked_simps [simp]: "rn_id (marked t r) = rn_id r" "rn_status (marked t r) = rn_status r" "marked u (marked t r) = marked u r"
  by (simp_all add: marked_def)

lemma purge_runs_done:
  assumes "tbl_keys rn_id (db_runs db)" "\<forall>k. sh_cleanup sh k = None"
    "\<forall>i \<in> set l. \<exists>r \<in> set (db_runs db). rn_id r = i \<and> rn_status r = ''closed''"
  shows "\<exists>db'. purge_runs sh k l db = (Inr (), db') \<and> list_all2 (purged_to l) (db_runs db) (db_runs db')"
  using assms(1,3)
proof (induction l arbitrary: k db)
  case Nil
  then show ?case by (simp add: purged_to_def list.rel_refl)
next
  case (Cons i l)
  define t where "t = en_clock (sh_env sh) k"
  define db1 where "db1 = purge_mark t i (purge_rows i db)"
  have runs: "db_runs db1 = map (\<lambda>r. if rn_id r = i then marked t r else r) (db_runs db)"
    by (simp add: db1_def purged_runs tbl_update_def)
  obtain r where r: "r \<in> set (db_runs db)" "rn_id r = i" "rn_status r = ''closed''" using Cons.prems(2) by auto
  then have "tbl_lookup rn_id i (db_runs db) = Some r" using tbl_lookup_unique [OF Cons.prems(1)] by auto
  from purge_run_done [OF this r(3)] have first: "purge_runs sh k (i # l) db = purge_runs sh (Suc k) l db1"
    using assms(2) by (simp add: db1_def t_def)
  have keys: "tbl_keys rn_id (db_runs db1)"
    using Cons.prems(1) unfolding runs by (simp add: tbl_keys_def comp_def if_distrib cong: if_cong)
  have "\<forall>j \<in> set l. \<exists>r \<in> set (db_runs db1). rn_id r = j \<and> rn_status r = ''closed''"
  proof
    fix j assume "j \<in> set l"
    then obtain q where q: "q \<in> set (db_runs db)" "rn_id q = j" "rn_status q = ''closed''" using Cons.prems(2) by auto
    then have "(if rn_id q = i then marked t q else q) \<in> set (db_runs db1)" by (auto simp: runs)
    then show "\<exists>r \<in> set (db_runs db1). rn_id r = j \<and> rn_status r = ''closed''"
      by (rule rev_bexI) (simp add: q(2,3))
  qed
  from Cons.IH [OF keys this, of "Suc k"] obtain db' where db': "purge_runs sh (Suc k) l db1 = (Inr (), db')"
    "list_all2 (purged_to l) (db_runs db1) (db_runs db')" by blast
  have "list_all2 (purged_to (i # l)) (db_runs db) (db_runs db')"
    using db'(2) unfolding runs list_all2_map1
    by (rule list_all2_mono) (auto simp: purged_to_def split: if_splits)
  with first db'(1) show ?case by simp
qed

text \<open>C17: \<open>purge --overdue --confirm\<close> leaves nothing behind: when the cleanups of the database file succeed, the
  command succeeds, and afterwards no run is due at the time it selected them; running it again finds
  nothing to purge.\<close>

theorem purge_leaves_nothing_due:
  assumes "tbl_keys rn_id (db_runs (df_db f))" "\<forall>k. sh_cleanup sh k = None"
    "bool_flag fl ''overdue''" "bool_flag fl ''confirm''" "text_flag fl ''run'' = []"
    "purge_command sh fl f = (r, printed, g)"
  shows "r = Inr () \<and> purge_candidates (en_clock (sh_env sh) 0) [] True (df_db g) = []
    \<and> purge_command sh fl g = (Inr (), [NothingToPurge], g)"
proof -
  define now where "now = en_clock (sh_env sh) 0"
  define l where "l = map pp_run (purge_candidates now [] True (df_db f))"
  have l: "set l = rn_id ` {r \<in> set (db_runs (df_db f)). purge_selected now [] True r}"
    by (auto simp: l_def purge_candidates_def preview_def image_iff)
  then have "\<forall>i \<in> set l. \<exists>r \<in> set (db_runs (df_db f)). rn_id r = i \<and> rn_status r = ''closed''"
    by (auto simp: purge_selected_def)
  from purge_runs_done [OF assms(1,2) this, of 1] obtain db' where db': "purge_runs sh 1 l (df_db f) = (Inr (), db')"
    "list_all2 (purged_to l) (db_runs (df_db f)) (db_runs db')" by blast
  have "\<not> purge_selected now [] True q" if q: "q \<in> set (db_runs db')" for q
  proof -
    obtain r where r: "r \<in> set (db_runs (df_db f))" "purged_to l r q"
      using db'(2) q by (auto simp: list_all2_conv_all_nth in_set_conv_nth) metis
    then show ?thesis using l by (cases "rn_id r \<in> set l") (auto simp: purged_to_def purge_selected_def marked_def)
  qed
  then have none: "purge_candidates now [] True db' = []"
    by (simp add: purge_candidates_def oldest_first_def filter_empty_conv)
  show ?thesis
  proof (cases "l = []")
    case True
    then have "purge_candidates now [] True (df_db f) = []" by (simp add: l_def)
    with assms(3-6) show ?thesis by (auto simp: purge_command_def now_def Let_def)
  next
    case False
    then have "r = Inr ()" "g = f\<lparr>df_db := db'\<rparr>"
      using assms(3-6) db'(1) by (auto simp: purge_command_def Let_def l_def now_def [symmetric] split: prod.splits sum.splits if_splits)
    with none assms(3,5) show ?thesis by (simp add: purge_command_def now_def)
  qed
qed

end
