(* ===== verification/ServingExamples.thy ===== *)
theory ServingExamples
  imports ServingTheorems AdminExamples
begin

text \<open>
  Requests to the site of the examples: a participant joins the run over HTTP, and a stranger's attempt
  to create a run is turned away.
\<close>

definition demo_process :: process where
  "demo_process = \<lparr>pr_config = \<lparr>co_server = demo_opened\<lparr>on_origin := ''http://h''\<rparr>, co_url = (\<lambda>_. None)\<rparr>,
     pr_decoders = \<lparr>de_join = (\<lambda>_. Some (\<lparr>jb_experience = [], jb_familiarity = [], jb_invite = []\<rparr>, [])),
       de_start = (\<lambda>_. None), de_events = (\<lambda>_. None), de_finish = (\<lambda>_. None), de_login = (\<lambda>_. None),
       de_bundle = (\<lambda>_. None), de_draft = (\<lambda>_. None), de_publish = (\<lambda>_. None), de_run = (\<lambda>_. None),
       de_update = (\<lambda>_. None), de_invite = (\<lambda>_. None)\<rparr>,
     pr_assets = None, pr_database_bytes = 0, pr_active = 1\<rparr>"

definition demo_http_env :: auth_environment where
  "demo_http_env = environment.extend (demo_env [''s'', ''m'', ''n'', ''q'']) (auth_environment.fields id (=) id)"

definition demo_request :: "string list \<Rightarrow> http_request" where
  "demo_request segs = \<lparr>hq_method = ''POST'', hq_segments = segs, hq_host = ''h'', hq_tls = False, hq_remote = ''10.1.2.3:80'',
     hq_header = (\<lambda>h. if h = ''Origin'' then ''http://h'' else if h = ''Content-Type'' then ''application/json'' else []),
     hq_cookie = (\<lambda>c. if c = ''tree_participant'' then Some demo_token else None), hq_query = (\<lambda>_. []), hq_body = ''{}''\<rparr>"

lemma demo_http_simps [simp]: "environment.truncate demo_http_env = demo_env [''s'', ''m'', ''n'', ''q'']"
  "en_clock demo_http_env k = 5" "en_sha demo_http_env = demo_sha"
  by (simp_all add: demo_http_env_def environment.defs auth_environment.defs demo_env_def)

lemma demo_same_origin: "same_origin (pr_config demo_process) (demo_request segs)"
  by (simp add: same_origin_def demo_process_def demo_request_def)

lemma demo_request_joins:
  "\<exists>view x'. serve demo_process demo_http_env (demo_request [''api'', ''public'', ''run'', ''join'']) demo_site
      = (Inr (SessionAnswer view), x') \<and> db_sessions (site_db x') = [demo_session] \<and> site_reach demo_sha demo_site x'"
proof -
  define r where "r = demo_request [''api'', ''public'', ''run'', ''join'']"
  define key where "key = ''public:source:join:'' @ source_of (pr_config demo_process) r"
  define w where "w = put key \<lparr>w_expires = 5 + minute, w_count = 1\<rparr> []"
  have op: "public_operation (path_text (hq_segments r)) = ''join''" "\<not> reads (hq_method r)"
    by (simp_all add: r_def demo_request_def path_text_def public_operation_def has_suffix_def reads_def)
  have first: "first_match r routes = Some (Unprotected, JoinRun, [''run''])"
    by (simp add: r_def demo_request_def routes_def match_route_def public_path_def admin_path_def)
  have "limit_public_source 5 (path_text (hq_segments r)) (source_of (pr_config demo_process) r) [] = (w, None)"
    unfolding limit_public_source_def op Let_def
    by (subst allow_unseen) (simp_all add: max_rate_windows_def source_limits_def w_def key_def)
  then have pass: "pass_route (pr_config demo_process) 5 r (sv_windows (si_server demo_site)) = (None, w)"
    using op(2) demo_same_origin by (simp add: pass_route_def r_def demo_site_def demo_server_def)
  obtain w' where "limit_participant 5 ''r'' ''i'' ''join'' False w = (w', None)"
  proof
    have n: "run_key ''join'' ''r'' \<noteq> key" "participant_key ''join'' ''i'' \<noteq> key"
      by (simp_all add: key_def run_key_def participant_key_def)
    show "limit_participant 5 ''r'' ''i'' ''join'' False w = (demo_seen ''join'' hour hour w, None)"
      unfolding demo_seen_def
      by (rule unseen_participant_passes) ((simp add: quotas_def max_rate_windows_def w_def map_of_put put_def n n [symmetric])+)
  qed
  from demo_joins [OF this] obtain view where join: "join (demo_env [''s'', ''m'', ''n'', ''q'']) demo_join
      \<lparr>sv_db = demo_db, sv_windows = w\<rparr> = (Inr view, \<lparr>sv_db = demo_db1, sv_windows = w'\<rparr>)" by blast
  define x' where "x' = (charge demo_site w)\<lparr>si_server := \<lparr>sv_db = demo_db1, sv_windows = w'\<rparr>\<rparr>"
  have d: "decode_limit (de_join (pr_decoders demo_process)) small_body r
      = Inr \<lparr>jb_experience = [], jb_familiarity = [], jb_invite = []\<rparr>"
    by (simp add: decode_limit_def demo_process_def r_def demo_request_def small_body_def)
  have c: "hq_cookie r participant_cookie = Some demo_token" by (simp add: r_def demo_request_def participant_cookie_def)
  have "handle demo_process demo_http_env JoinRun [''run''] r (charge demo_site w) = (Inr (SessionAnswer view), x')"
    using join
    by (simp add: handle_def participant_endpoints_def serve_participant_def with_body_def d on_server_def x'_def
        charge_def demo_site_def demo_server_def demo_join_def c)
  then have "serve demo_process demo_http_env r demo_site = (Inr (SessionAnswer view), x')"
    using first pass by (simp add: serve_def guarded_def asset_path_def r_def demo_request_def flip: charge_def)
  moreover have "seen_before (en_clock demo_http_env 13) (si_failures demo_site)"
    by (simp add: demo_site_def empty_site_def seen_before_def new_login_limiter_def)
  moreover have "db_sessions (site_db x') = [demo_session]"
    by (simp add: x'_def site_db_def demo_db1_def)
  ultimately show ?thesis using serve_steps [of demo_process demo_http_env r demo_site] unfolding r_def by fastforce
qed

theorem only_owners_administer_witness:
  "\<exists>x'. serve demo_process demo_http_env (demo_request [''admin'', ''api'', ''runs'']) demo_site
      = (Inl (Problem 401 ''administrator login required''), x') \<and> administration_kept demo_site x'"
proof -
  define r where "r = demo_request [''admin'', ''api'', ''runs'']"
  have op: "public_operation (path_text (hq_segments r)) = []" "\<not> reads (hq_method r)"
    by (simp_all add: r_def demo_request_def path_text_def public_operation_def has_suffix_def reads_def)
  have first: "first_match r routes = Some (Protected True, CreateRun, [])"
    by (simp add: r_def demo_request_def routes_def match_route_def public_path_def admin_path_def)
  have pass: "pass_route (pr_config demo_process) 5 r w = (None, w)" for w
    using op demo_same_origin by (simp add: pass_route_def limit_public_source_def r_def)
  have no: "hq_cookie r admin_cookie = None" by (simp add: r_def demo_request_def admin_cookie_def)
  have "guarded (guard_env demo_http_env) (Protected True) r ac = Inl (Problem 401 ''administrator login required'')" for ac
    by (simp add: guarded_def no authorize_def admin_def token_def nobody_def)
  then have s: "serve demo_process demo_http_env r demo_site
      = (Inl (Problem 401 ''administrator login required''), charge demo_site (sv_windows (si_server demo_site)))"
    using first pass by (simp add: serve_def asset_path_def r_def demo_request_def charge_def)
  have "\<not> (\<exists>s u. session_of (guard_env demo_http_env) (hq_cookie r admin_cookie) (si_accounts demo_site) s u)"
    by (simp add: no session_of_def token_def)
  with only_owners_administer [OF demo_site_fresh _ s] site_start s show ?thesis unfolding r_def by auto
qed

end
