(* ===== verification/CliExamples.thy ===== *)
theory CliExamples
  imports CliTheorems ServingExamples
begin

text \<open>
  Command lines on a small machine: a new account, a backup, a key file and a purge. These are the
  witnesses of the theorems of \<open>CliTheorems\<close> and \<open>LoadStudy\<close>.
\<close>

section \<open>A machine\<close>

definition demo_shell :: shell where
  "demo_shell = \<lparr>sh_path = id, sh_fault = (\<lambda>_ _. None), sh_image = (\<lambda>_. []), sh_directory = (\<lambda>_ n. Inl n),
     sh_decoder = (\<lambda>_. Inl ''unexpected EOF''),
     sh_url = (\<lambda>_. Some \<lparr>pu_scheme = ''http'', pu_host = ''h'', pu_path = [], pu_query = [], pu_fragment = [], pu_user = False\<rparr>),
     sh_sum = rev, sh_password = ''correct horse battery'', sh_key = replicate 32 CHR ''k'', sh_fresh_key = replicate 32 CHR ''f'',
     sh_text = [], sh_env = demo_auth, sh_cleanup = (\<lambda>_. None), sh_process = (\<lambda>_. demo_process), sh_requests = [],
     sh_bind = (\<lambda>_. None), sh_ending = Signalled, sh_late = (\<lambda>_. False)\<rparr>"

definition demo_database :: database_file where
  "demo_database = (no_tables blank_file)\<lparr>df_secrets := [(key_name, replicate 32 CHR ''k''),
     (fingerprint_name, rev (replicate 32 CHR ''k''))]\<rparr>"

definition demo_files :: files where
  "demo_files = [''treetest.sqlite'' \<mapsto> Stored demo_database]"

definition demo_flags :: flag_set where
  "demo_flags = set_flag ''trusted-proxies'' (TextFlag []) shared_flags"

lemma demo_shell_simps [simp]: "sh_path demo_shell p = p" "sh_fault demo_shell o' p = None" "sh_key demo_shell = replicate 32 CHR ''k''"
  "sh_env demo_shell = demo_auth" "sh_requests demo_shell = []" "sh_cleanup demo_shell k = None"
  "sh_password demo_shell = ''correct horse battery''"
  by (simp_all add: demo_shell_def)

text \<open>Opening the database with its own key.\<close>

lemma demo_opens_server:
  "\<exists>s. open_server demo_shell ''treetest.sqlite'' ''http://127.0.0.1:8080'' \<lparr>op_key = [], op_branding = ''prometheus'', op_proxies = Some []\<rparr> demo_files
    = (Inr (s, demo_database), demo_files)"
proof -
  have "key_name = ''participant-identity-v1''" by (simp add: key_name_def)
  have "prepare_file demo_shell ''treetest.sqlite'' demo_files = (None, demo_database, demo_files)"
    by (simp add: prepare_file_def in_memory_def demo_files_def Let_def)
  moreover have "demo_files(''treetest.sqlite'' \<mapsto> Stored demo_database) = demo_files" by (simp add: demo_files_def)
  ultimately show ?thesis
    by (simp add: open_server_def check_options_def branding_preset_def parse_trusted_proxies_def public_origin_def http_origin_def
        demo_shell_def open_with_options_def initialize_database_def demo_database_def no_tables_def schema_number_def
        set_identity_key_def choose_key_def save_file_def in_memory_def Let_def)
qed

definition user_flags :: flag_set where
  "user_flags = demo_flags @ [(''username'', TextFlag ''owner''), (''role'', TextFlag ''analyst''), (''password-file'', TextFlag [])]"

definition backup_flags :: flag_set where
  "backup_flags = demo_flags @ [(''out'', TextFlag ''copy'')]"

definition user_args :: "string list" where
  "user_args = [''--trusted-proxies='', ''--role'', ''analyst'']"

definition backup_args :: "string list" where
  "backup_args = [''--trusted-proxies='', ''-out'', ''copy'']"

lemma demo_parses:
  "\<exists>fl. command_flags ''user'' = Some fl \<and> parse_flags fl user_args = Inr (user_flags, [])"
  "\<exists>fl. command_flags ''backup'' = Some fl \<and> parse_flags fl backup_args = Inr (backup_flags, [])"
proof -
  have "parse_flags (the (command_flags ''user'')) user_args = Inr (user_flags, []) \<and> command_flags ''user'' \<noteq> None"
    by code_simp
  then show "\<exists>fl. command_flags ''user'' = Some fl \<and> parse_flags fl user_args = Inr (user_flags, [])" by auto
  have "parse_flags (the (command_flags ''backup'')) backup_args = Inr (backup_flags, []) \<and> command_flags ''backup'' \<noteq> None"
    by code_simp
  then show "\<exists>fl. command_flags ''backup'' = Some fl \<and> parse_flags fl backup_args = Inr (backup_flags, [])" by auto
qed

lemma demo_flag_values:
  "fl = user_flags \<or> fl = backup_flags \<Longrightarrow> text_flag fl ''db'' = ''treetest.sqlite''
    \<and> text_flag fl ''public-url'' = ''http://127.0.0.1:8080'' \<and> text_flag fl ''branding'' = ''prometheus''
    \<and> text_flag fl ''trusted-proxies'' = [] \<and> text_flag fl ''identity-key-file'' = []"
  "text_flag user_flags ''username'' = ''owner''" "text_flag user_flags ''role'' = ''analyst''"
  "text_flag user_flags ''password-file'' = []" "text_flag backup_flags ''out'' = ''copy''"
  by (auto simp: user_flags_def backup_flags_def demo_flags_def shared_flags_def set_flag_def text_flag_def)

text \<open>What the two commands do.\<close>

definition analyst_accounts :: accounts where
  "analyst_accounts = \<lparr>ac_users = [\<lparr>us_name = ''owner'', us_hash = ''correct horse battery'', us_role = ''analyst''\<rparr>], ac_admins = []\<rparr>"

lemma demo_command_opens:
  assumes "fl = user_flags \<or> fl = backup_flags" "command \<noteq> ''validate''" "command \<noteq> ''remove''"
  obtains s where "run_parsed demo_shell command fl demo_files = on_database demo_shell command fl s demo_database demo_files"
proof -
  note v = demo_flag_values(1) [OF assms(1)]
  have "run_options fl [] = \<lparr>op_key = [], op_branding = ''prometheus'', op_proxies = Some []\<rparr>"
    using v by (simp add: run_options_def proxies_of_def trim_space_def)
  moreover have "trim_right [CHR ''/''] ''http://127.0.0.1:8080'' = ''http://127.0.0.1:8080''" by code_simp
  moreover have "case sh_url demo_shell a of None \<Rightarrow> False | Some u \<Rightarrow> http_origin u" for a
    by (simp add: demo_shell_def http_origin_def)
  ultimately show ?thesis
    using that demo_opens_server v assms(2,3) unfolding run_parsed_def
    by (auto simp: load_identity_key_def)
qed

lemma demo_user_runs:
  "run demo_shell (''user'' # user_args) demo_files = (Inr (), [AccountSaved ''analyst'' ''owner''],
    demo_files(''treetest.sqlite'' \<mapsto> Stored (demo_database\<lparr>df_accounts := analyst_accounts\<rparr>)))"
proof -
  obtain fl where fl: "command_flags ''user'' = Some fl" "parse_flags fl user_args = Inr (user_flags, [])"
    using demo_parses(1) by blast
  obtain s where s: "run_parsed demo_shell ''user'' user_flags demo_files
      = on_database demo_shell ''user'' user_flags s demo_database demo_files" using demo_command_opens [of user_flags "''user''"] by auto
  have t: "trim_space ''owner'' = ''owner''" by code_simp
  have "set_user demo_auth ''owner'' ''correct horse battery'' ''analyst'' (df_accounts demo_database) = (Inr (), analyst_accounts)"
    by (simp add: set_user_def t min_admin_password_def demo_database_def no_tables_def demo_auth_def tbl_insert_def tbl_delete_def
        analyst_accounts_def Let_def)
  then have "user_command demo_shell user_flags demo_files demo_database
      = (Inr (), [AccountSaved ''analyst'' ''owner''], demo_database\<lparr>df_accounts := analyst_accounts\<rparr>)"
    by (simp add: user_command_def user_password_def demo_flag_values Let_def)
  with s show ?thesis
    by (simp add: run_def fl on_database_def save_file_def in_memory_def demo_flag_values(1))
qed

lemma demo_backup_runs:
  "run demo_shell (''backup'' # backup_args) demo_files
    = (Inr (), [BackupSaved ''copy''], demo_files(''copy'' \<mapsto> Stored demo_database))"
proof -
  obtain fl where fl: "command_flags ''backup'' = Some fl" "parse_flags fl backup_args = Inr (backup_flags, [])"
    using demo_parses(2) by blast
  obtain s where s: "run_parsed demo_shell ''backup'' backup_flags demo_files
      = on_database demo_shell ''backup'' backup_flags s demo_database demo_files" using demo_command_opens [of backup_flags "''backup''"] by auto
  have "backup demo_shell ''copy'' demo_database demo_files = (Inr (), demo_files(''copy'' \<mapsto> Stored demo_database))"
    by (simp add: backup_def create_file_def demo_files_def)
  with s show ?thesis by (simp add: run_def fl on_database_def demo_flag_values Let_def)
qed

section \<open>Witnesses\<close>

theorem only_database_changes_witness:
  "\<exists>fs fl. run demo_shell (''user'' # user_args) demo_files = (Inr (), [AccountSaved ''analyst'' ''owner''], fs)
    \<and> fs ''treetest.sqlite'' \<noteq> demo_files ''treetest.sqlite'' \<and> text_flag fl ''db'' = ''treetest.sqlite''"
proof -
  have "demo_files ''treetest.sqlite'' = Some (Stored demo_database)" by (simp add: demo_files_def)
  moreover have "demo_database \<noteq> demo_database\<lparr>df_accounts := analyst_accounts\<rparr>"
  proof
    assume "demo_database = demo_database\<lparr>df_accounts := analyst_accounts\<rparr>"
    from arg_cong [OF this, of df_accounts] show False by (simp add: demo_database_def no_tables_def analyst_accounts_def)
  qed
  ultimately show ?thesis
    using only_database_changes [OF demo_user_runs, of "''treetest.sqlite''" "Stored demo_database"] demo_user_runs
    by fastforce
qed

theorem run_reaches_witness:
  "site_reach id (site_of demo_database) (site_of (demo_database\<lparr>df_accounts := analyst_accounts\<rparr>))"
  using run_reaches [OF demo_user_runs, of "''treetest.sqlite''" demo_database 0]
  by (simp add: demo_files_def demo_database_def no_tables_def schema_number_def demo_auth_def id_def)

theorem commands_confirmed_witness:
  "df_accounts (demo_database\<lparr>df_accounts := analyst_accounts\<rparr>) \<noteq> df_accounts demo_database
    \<and> df_db (demo_database\<lparr>df_accounts := analyst_accounts\<rparr>) = df_db demo_database"
  using commands_confirmed [OF demo_user_runs, of "''treetest.sqlite''" demo_database "demo_database\<lparr>df_accounts := analyst_accounts\<rparr>"]
  by (simp add: demo_files_def demo_database_def no_tables_def schema_number_def analyst_accounts_def)

theorem backup_restores_witness:
  "\<exists>fs. run demo_shell (''backup'' # backup_args) demo_files = (Inr (), [BackupSaved ''copy''], fs)
    \<and> (\<exists>u opt s f. fs ''copy'' = Some (Stored f) \<and> open_server demo_shell ''copy'' u opt fs = (Inr (s, f), fs))"
proof -
  define fs where "fs = demo_files(''copy'' \<mapsto> Stored demo_database)"
  have k: "length (sh_fresh_key demo_shell) = 32" "\<forall>k. length k = 32 \<longrightarrow> length (sh_sum demo_shell k) = 32"
    by (simp_all add: demo_shell_def)
  have "BackupSaved ''copy'' \<in> set [BackupSaved ''copy'']" by simp
  from backup_restores [OF demo_backup_runs this k] obtain u opt s f fs1 where c: "fs = fs1(''copy'' \<mapsto> Stored f)"
    "\<forall>copy. copy \<noteq> in_memory \<and> sh_path demo_shell copy = sh_path demo_shell ''copy'' \<and> (\<forall>operation. sh_fault demo_shell operation copy = None)
        \<longrightarrow> open_server demo_shell copy u opt fs = (Inr (s, f), fs)"
    unfolding fs_def demo_shell_simps(1) by blast
  then have "open_server demo_shell ''copy'' u opt fs = (Inr (s, f), fs)" "fs ''copy'' = Some (Stored f)"
    by (simp_all add: in_memory_def)
  then show ?thesis using demo_backup_runs unfolding fs_def by blast
qed

theorem identity_key_loads_witness:
  "\<exists>fs. generate_identity_key demo_shell [''-out=key''] Map.empty = (Inr (), [KeySaved ''key''], fs)
    \<and> load_identity_key demo_shell ''key'' fs = Inr (replicate 32 CHR ''k'')"
proof -
  have p: "parse_flags [(''out'', TextFlag [])] [''-out=key''] = Inr ([(''out'', TextFlag ''key'')], [])" by code_simp
  define fs where "fs = [''key'' \<mapsto> Bytes (base64_encode (sh_key demo_shell) @ new_line)]"
  have g: "generate_identity_key demo_shell [''-out=key''] Map.empty = (Inr (), [KeySaved ''key''], fs)"
    by (simp add: generate_identity_key_def p text_flag_def create_file_def join_errors_def fs_def Let_def
        del: parse_flags.simps)
  from identity_key_loads [OF g] g show ?thesis by auto
qed

definition overdue_database :: database_file where
  "overdue_database = demo_database\<lparr>df_db := demo_db\<lparr>db_runs := [demo_run\<lparr>rn_status := ''closed'', rn_closed_at := Some 1,
     rn_target_at := Some 5\<rparr>]\<rparr>\<rparr>"

definition purge_flags :: flag_set where
  "purge_flags = [(''run'', TextFlag []), (''overdue'', BoolFlag True), (''confirm'', BoolFlag True)]"

theorem purge_leaves_nothing_due_witness:
  "length (purge_candidates 5 [] True (df_db overdue_database)) = 1
    \<and> purge_candidates 5 [] True (df_db (snd (snd (purge_command demo_shell purge_flags overdue_database)))) = []"
proof -
  have f: "bool_flag purge_flags ''overdue''" "bool_flag purge_flags ''confirm''" "text_flag purge_flags ''run'' = []"
    by (simp_all add: purge_flags_def bool_flag_def text_flag_def)
  have k: "tbl_keys rn_id (db_runs (df_db overdue_database))" by (simp add: overdue_database_def tbl_keys_def)
  have s: "purge_selected 5 [] True (demo_run\<lparr>rn_status := ''closed'', rn_closed_at := Some 1, rn_target_at := Some 5\<rparr>)"
    by (simp add: purge_selected_def demo_run_def overdue_def text_le_def)
  then have "length (purge_candidates 5 [] True (df_db overdue_database)) = 1"
    by (simp add: purge_candidates_def overdue_database_def oldest_first_def)
  moreover obtain r printed g where g: "purge_command demo_shell purge_flags overdue_database = (r, printed, g)" by (metis prod_cases3)
  moreover have "en_clock (sh_env demo_shell) 0 = 5" by (simp add: demo_auth_def)
  ultimately show ?thesis using purge_leaves_nothing_due [OF k _ f g] by simp
qed

text \<open>
  A study that loads: the configuration names one tree. Outside its directory lies a key, and a link under
  the name of a tree that no variant uses leads to it in one of the two directories.
\<close>

definition study_entry :: "string \<Rightarrow> dir_entry" where
  "study_entry t = \<lparr>de_link = False, de_regular = True, de_text = t, de_denied = None\<rparr>"

definition link_to :: "string \<Rightarrow> dir_entry" where
  "link_to t = (study_entry t)\<lparr>de_link := True\<rparr>"

definition study_directory :: directory where
  "study_directory n = (if n = ''study.json'' then Inr (study_entry ''{}'') else if n = ''x.md'' then Inr (study_entry ''- A'')
     else if n = ''y.md'' then Inr (link_to ''- B'') else Inl ''no such file'')"

definition other_directory :: directory where
  "other_directory n = (if n = ''../key'' then Inr (study_entry ''secret'') else if n = ''y.md'' then Inr (link_to ''secret'')
     else study_directory n)"

definition study_decoder :: config_decoder where
  "study_decoder t = Inr (demo_config, [])"

lemma study_loads: "load_dir study_decoder study_directory = Inr \<lparr>b_config = demo_config, b_trees = [(''x.md'', ''- A'')]\<rparr>"
proof -
  have "load_config study_decoder study_directory = Inr demo_config"
    by (simp add: load_config_def study_directory_def study_entry_def study_decoder_def config_bytes_def)
  moreover have "safe_tree_name ''x.md''" by code_simp
  then have "load_tree study_directory ''x.md'' = Inr ''- A''"
    by (simp add: load_tree_Inr study_directory_def study_entry_def max_tree_bytes_def)
  ultimately show ?thesis by (simp add: load_dir_def demo_config_def)
qed

theorem load_confined_witness:
  "study_directory ''y.md'' \<noteq> other_directory ''y.md'' \<and> study_directory ''../key'' \<noteq> other_directory ''../key''
    \<and> load_dir study_decoder other_directory = Inr \<lparr>b_config = demo_config, b_trees = [(''x.md'', ''- A'')]\<rparr>
    \<and> (\<exists>f. study_directory ''x.md'' = Inr f \<and> \<not> de_link f \<and> de_text f = ''- A'')"
proof -
  have outside: "\<not> safe_tree_name ''../key''" by code_simp
  have same: "study_directory ''study.json'' = other_directory ''study.json''" by (simp add: other_directory_def)
  have links: "study_directory n = other_directory n
      \<or> (\<exists>f f'. study_directory n = Inr f \<and> other_directory n = Inr f' \<and> de_link f \<and> de_link f')" if "safe_tree_name n" for n
    using that outside by (auto simp: other_directory_def study_directory_def link_to_def)
  have c: "load_dir study_decoder study_directory = load_dir study_decoder other_directory"
    "\<forall>(n, text) \<in> set [(''x.md'', ''- A'')]. \<exists>f. study_directory n = Inr f \<and> \<not> de_link f \<and> de_regular f \<and> de_text f = text"
    using load_confined [of study_directory other_directory study_decoder, OF same links] study_loads by auto
  moreover have "study_directory ''y.md'' \<noteq> other_directory ''y.md''" "study_directory ''../key'' \<noteq> other_directory ''../key''"
    by (simp_all add: study_directory_def other_directory_def link_to_def study_entry_def)
  ultimately show ?thesis using study_loads by auto
qed

end
