(* ===== verification/Allocation.thy ===== *)
theory Allocation
  imports SiteTheorems
begin

text \<open>
  The balance of the experiment in the running service: over all requests and commands, the arms and
  panels of a run receive numbers of participants that differ by at most one, and enrolling never runs
  into an empty block or an unknown panel.
\<close>

section \<open>The invariant\<close>

definition cell_of :: "session_row \<Rightarrow> allocation" where
  "cell_of s = \<lparr>al_variant = ss_variant s, al_panel = ss_panel s\<rparr>"

definition cells :: "database \<Rightarrow> string \<Rightarrow> allocation list" where
  "cells db i = map cell_of (filter (\<lambda>s. ss_run s = i) (db_sessions db))"

definition allocations_ok :: "(string \<Rightarrow> string) \<Rightarrow> database \<Rightarrow> bool" where
  "allocations_ok sha db \<longleftrightarrow> (\<forall>r \<in> set (db_runs db). \<not> purge_begun r \<longrightarrow>
     (\<forall>f. load_snapshot sha db (rn_version r) = Inr f \<longrightarrow>
       balanced (allocation_block (f_config f)) (cells db (rn_id r)) (rn_allocation r)))"

text \<open>A change after which every run has the allocations it had before, or is new.\<close>

definition same_allocation :: "database \<Rightarrow> database \<Rightarrow> run_row \<Rightarrow> run_row \<Rightarrow> bool" where
  "same_allocation db db' r q \<longleftrightarrow> (purge_begun r \<longrightarrow> purge_begun q) \<and> rn_id q = rn_id r \<and> rn_version q = rn_version r
     \<and> (\<not> purge_begun q \<longrightarrow> rn_allocation q = rn_allocation r \<and> cells db' (rn_id r) = cells db (rn_id r))"

definition allocation_frame :: "database \<Rightarrow> database \<Rightarrow> bool" where
  "allocation_frame db db' \<longleftrightarrow> (\<forall>q \<in> set (db_runs db').
     (rn_allocation q = [] \<and> cells db' (rn_id q) = []) \<or> (\<exists>r \<in> set (db_runs db). same_allocation db db' r q))"

lemma load_snapshot_kept:
  "runs_kept db db' \<Longrightarrow> r \<in> set (db_runs db) \<Longrightarrow> load_snapshot sha db' (rn_version r) = load_snapshot sha db (rn_version r)"
  by (simp add: runs_kept_def load_snapshot_def)

lemma frame_allocations_ok:
  assumes "allocations_ok sha db" "allocation_frame db db'" "runs_kept db db'"
  shows "allocations_ok sha db'"
  unfolding allocations_ok_def
proof (intro ballI impI allI)
  fix q f assume q: "q \<in> set (db_runs db')" "\<not> purge_begun q" "load_snapshot sha db' (rn_version q) = Inr f"
  from assms(2) q(1) consider "rn_allocation q = []" "cells db' (rn_id q) = []"
    | r where "r \<in> set (db_runs db)" "same_allocation db db' r q" unfolding allocation_frame_def by blast
  then show "balanced (allocation_block (f_config f)) (cells db' (rn_id q)) (rn_allocation q)"
  proof cases
    case 1
    then show ?thesis by (simp add: balanced_start)
  next
    case (2 r)
    then have s: "\<not> purge_begun r" "rn_id q = rn_id r" "rn_version q = rn_version r" "rn_allocation q = rn_allocation r"
      "cells db' (rn_id r) = cells db (rn_id r)" using q(2) by (auto simp: same_allocation_def)
    with q(3) load_snapshot_kept [OF assms(3) 2(1)] have "load_snapshot sha db (rn_version r) = Inr f" by simp
    with assms(1) 2(1) s show ?thesis unfolding allocations_ok_def by simp
  qed
qed

lemma frame_same:
  assumes "db_runs db' = db_runs db" "db_sessions db' = db_sessions db"
  shows "allocation_frame db db'"
  unfolding allocation_frame_def assms(1)
proof
  fix q assume "q \<in> set (db_runs db)"
  moreover have "same_allocation db db' q q" by (simp add: same_allocation_def cells_def assms(2))
  ultimately show "(rn_allocation q = [] \<and> cells db' (rn_id q) = []) \<or> (\<exists>r \<in> set (db_runs db). same_allocation db db' r q)" by blast
qed

lemma frame_update:
  assumes "db_runs db' = tbl_update p g (db_runs db)" "\<And>r. r \<in> set (db_runs db) \<Longrightarrow> same_allocation db db' r (if p r then g r else r)"
  shows "allocation_frame db db'"
  unfolding allocation_frame_def
proof
  fix q assume "q \<in> set (db_runs db')"
  then obtain r where "r \<in> set (db_runs db)" "q = (if p r then g r else r)" by (auto simp: assms(1) tbl_update_set)
  with assms(2) show "(rn_allocation q = [] \<and> cells db' (rn_id q) = []) \<or> (\<exists>r \<in> set (db_runs db). same_allocation db db' r q)"
    by blast
qed

section \<open>Participants\<close>

lemma quiet_cells:
  assumes "quiet_frame db db'"
  shows "cells db' i = cells db i"
proof -
  have "map cell_of (filter (\<lambda>s. ss_run s = i) l) = map (\<lambda>(r, v, p). \<lparr>al_variant = v, al_panel = p\<rparr>)
      (filter (\<lambda>(r, v, p). r = i) (map (\<lambda>s. (ss_run s, ss_variant s, ss_panel s)) l))" for l
    by (induction l) (simp_all add: cell_of_def)
  with assms show ?thesis by (simp add: cells_def quiet_frame_def)
qed

lemma quiet_allocation_frame:
  assumes "quiet_frame db db'"
  shows "allocation_frame db db'"
  unfolding allocation_frame_def
proof
  fix q assume "q \<in> set (db_runs db')"
  moreover have "map (\<lambda>r. (run_core r, rn_allocation r)) (db_runs db') = map (\<lambda>r. (run_core r, rn_allocation r)) (db_runs db)"
    using assms by (auto simp: quiet_frame_def list_eq_iff_nth_eq)
  ultimately obtain r where r: "r \<in> set (db_runs db)" "run_core q = run_core r" "rn_allocation q = rn_allocation r"
    using map_eq_member [of "\<lambda>r. (run_core r, rn_allocation r)"] by blast
  then have "same_allocation db db' r q"
    using run_core_fields [OF r(2)] by (simp add: same_allocation_def quiet_cells [OF assms])
  with r(1) show "(rn_allocation q = [] \<and> cells db' (rn_id q) = []) \<or> (\<exists>r \<in> set (db_runs db). same_allocation db db' r q)"
    by blast
qed

text \<open>An enrolment takes the next allocation of its run.\<close>

lemma new_session_allocation:
  assumes "new_session env engine f run identity req = Inr (s, rest)" "resolve_policy (f_policy f) = Inr engine"
  shows "next_allocation allocate_v1 (en_draws env) (f_config f) (rn_allocation run) = Inr (cell_of s, rest)"
  using assms
  by (auto simp: new_session_def resolve_policy_def cell_of_def Let_def split: sum.splits prod.splits if_splits option.splits)

lemma enrol_allocations_ok:
  assumes "allocations_ok sha db" "keys_ok db" "load_run rn_slug slug db = Inr run"
    "load_snapshot sha db (rn_version run) = Inr f" "resolve_policy (f_policy f) = Inr engine"
    "enrol env engine f run identity req db = Inr (s, db')"
  shows "allocations_ok sha db'"
  unfolding allocations_ok_def
proof (intro ballI impI allI)
  obtain rest invs where n: "new_session env engine f run identity req = Inr (s, rest)" "rn_status run = ''open''"
    and db': "db' = enrolled_db run s rest invs db" using enrol_Inr [OF assms(6)] by blast
  obtain r where r: "r \<in> set (db_runs db)" "run = (if rn_suspended r then r\<lparr>rn_status := ''suspended''\<rparr> else r)"
    using load_run_Inr [OF assms(3)] by blast
  have run: "run = r" using r(2) n(2) by (auto split: if_splits)
  have s: "ss_run s = rn_id r" using new_session_Inr [OF n(1)] run by simp
  have fr: "db_versions db' = db_versions db" "db_sessions db' = db_sessions db @ [s]"
    "db_runs db' = tbl_update (\<lambda>q. rn_id q = rn_id r)
       (\<lambda>q. q\<lparr>rn_allocation := rest, rn_data_bytes := rn_data_bytes q + ss_storage_bytes s\<rparr>) (db_runs db)"
    by (simp_all add: db' enrolled_db_def run)
  have snap: "load_snapshot sha db' v = load_snapshot sha db v" for v by (simp add: load_snapshot_def fr(1))
  fix q g assume q: "q \<in> set (db_runs db')" "\<not> purge_begun q" "load_snapshot sha db' (rn_version q) = Inr g"
  then obtain p where p: "p \<in> set (db_runs db)"
    "q = (if rn_id p = rn_id r then p\<lparr>rn_allocation := rest, rn_data_bytes := rn_data_bytes p + ss_storage_bytes s\<rparr> else p)"
    by (auto simp: fr(3) tbl_update_set)
  then have old: "balanced (allocation_block (f_config g)) (cells db (rn_id p)) (rn_allocation p)"
    using assms(1) q(2,3) snap by (auto simp: allocations_ok_def purge_begun_def split: if_splits)
  show "balanced (allocation_block (f_config g)) (cells db' (rn_id q)) (rn_allocation q)"
  proof (cases "rn_id p = rn_id r")
    case True
    then have "p = r" using keys_ok_eq(1) [OF assms(2)] p(1) r(1) by blast
    moreover have "g = f" using q(3) p(2) snap assms(4) run \<open>p = r\<close> by (auto split: if_splits)
    moreover have "cells db' (rn_id r) = cells db (rn_id r) @ [cell_of s]" by (simp add: cells_def fr(2) s)
    ultimately show ?thesis
      using balanced_next(1) [OF _ new_session_allocation [OF n(1) assms(5)]] old p(2) run by auto
  next
    case False
    then have "cells db' (rn_id p) = cells db (rn_id p)" by (simp add: cells_def fr(2) s)
    with False old p(2) show ?thesis by simp
  qed
qed

lemma participant_allocations_ok:
  assumes "participant_step sha sv sv'" "db_ok sha (sv_db sv)" "allocations_ok sha (sv_db sv)"
  shows "allocations_ok sha (sv_db sv')"
  using assms(1,2)
proof (cases rule: participant_step_cases)
  case 1
  have "runs_kept (sv_db sv) (sv_db sv')" by (rule participant_runs_kept [OF participant_step_frame [OF assms(1,2)]])
  with frame_allocations_ok [OF assms(3) quiet_allocation_frame [OF 1]] show ?thesis .
next
  case (2 env slug run f engine identity req s)
  have "keys_ok (sv_db sv)" using assms(2) by (simp add: db_ok_def)
  from enrol_allocations_ok [OF assms(3) this 2(2-5)] show ?thesis .
qed

section \<open>Administrators and commands\<close>

lemma create_run_allocation_frame:
  assumes "create_run env q db = (r, db')" "refs_ok db"
  shows "allocation_frame db db'"
proof (cases r)
  case (Inl e)
  with assms create_run_Inl have "db' = db" by metis
  then show ?thesis by (simp add: frame_same)
next
  case (Inr run)
  with assms(1) create_run_Inr have "insert_run run db = Inr db'" by blast
  then have db': "db' = db\<lparr>db_runs := db_runs db @ [run]\<rparr>" "rn_id run \<notin> rn_id ` set (db_runs db)"
    by (simp_all add: insert_run_Inr)
  have new: "rn_allocation run = []" using assms(1) Inr
    by (auto simp: create_run_def new_run_def Let_def split: option.splits sum.splits if_splits)
  have "cells db' (rn_id run) = []"
    using db' assms(2) by (auto simp: cells_def refs_ok_def filter_empty_conv) (metis image_eqI subsetD)
  moreover have "same_allocation db db' p p" for p by (simp add: same_allocation_def cells_def db'(1))
  ultimately show ?thesis using new by (auto simp: allocation_frame_def db'(1))
qed

lemma update_run_allocation_frame:
  assumes "update_run env i q db = (r, db')"
  shows "allocation_frame db db'"
proof (cases "db' = db")
  case True
  then show ?thesis by (simp add: frame_same)
next
  case False
  then have db': "db' = db\<lparr>db_runs := tbl_update (\<lambda>r. rn_id r = i) (updated_run (en_clock env 0) q) (db_runs db)\<rparr>"
    using assms by (auto simp: update_run_def split: option.splits)
  show ?thesis
    by (rule frame_update [of _ "\<lambda>r. rn_id r = i" "updated_run (en_clock env 0) q"])
      (simp_all add: db' same_allocation_def cells_def updated_run_def purge_begun_def Let_def)
qed

lemma create_invitation_allocation_frame:
  assumes "create_invitation env origin i hours db = (r, db')"
  shows "allocation_frame db db'"
  using assms
  by (intro frame_same)
    (auto simp: create_invitation_def insert_invitation_def Let_def split: if_splits sum.splits option.splits)

lemma purge_rows_allocation_frame: "allocation_frame db (purge_rows i db)"
proof (rule frame_update)
  show "db_runs (purge_rows i db) = tbl_update (\<lambda>r. rn_id r = i) purged_row (db_runs db)"
    by (simp add: purge_rows_tables purged_row_def [abs_def])
  fix r :: run_row
  have "rn_id r \<noteq> i \<Longrightarrow> cells (purge_rows i db) (rn_id r) = cells db (rn_id r)"
    by (simp add: cells_def purge_rows_tables filter_delete)
  then show "same_allocation db (purge_rows i db) r (if rn_id r = i then purged_row r else r)"
    by (simp add: same_allocation_def purge_begun_def purged_row_def)
qed

lemma purge_mark_allocation_frame: "allocation_frame db (purge_mark now i db)"
  by (rule frame_update [of _ "\<lambda>r. rn_id r = i" "\<lambda>r. r\<lparr>rn_purged_at := Some now, rn_purge_pending := False\<rparr>"])
    (simp_all add: purge_mark_def same_allocation_def purge_begun_def cells_def)

lemma versions_only:
  "import_bundle sha i now b db = (r, db') \<Longrightarrow> db_runs db' = db_runs db \<and> db_sessions db' = db_sessions db"
  "publish env i revision ds db = (q, db') \<Longrightarrow> db_runs db' = db_runs db \<and> db_sessions db' = db_sessions db"
  "remove_study i db = (u, db') \<Longrightarrow> db_runs db' = db_runs db \<and> db_sessions db' = db_sessions db"
  by (auto simp: import_bundle_def publish_def remove_study_def insert_version_def insert_version_with_policy_def Let_def
      split: sum.splits option.splits prod.splits if_splits)

lemma with_db_frame: "allocation_frame (site_db x) db' \<Longrightarrow> allocation_frame (site_db x) (site_db (with_db x db'))"
  by simp

lemma site_step_allocation:
  assumes "site_step sha x y" "site_ok sha x" "allocations_ok sha (site_db x)"
  shows "allocations_ok sha (site_db y)"
proof -
  have kept: "runs_kept (site_db x) (site_db y)" using site_step_ok [OF assms(1,2)] by simp
  have ok: "db_ok sha (site_db x)" using assms(2) by (simp add: site_ok_def site_db_ok_def)
  then have refs: "refs_ok (site_db x)" by (simp add: db_ok_def)
  have "allocations_ok sha (site_db y) \<or> allocation_frame (site_db x) (site_db y)"
    using assms(1)
  proof (cases rule: site_step.cases)
    case (site_participant sv)
    with participant_allocations_ok [OF site_participant(2)] ok assms(3) show ?thesis by (simp add: site_db_def)
  next
    case (site_import i now b r db')
    with frame_same versions_only(1) [OF site_import(2)] show ?thesis by simp
  next
    case (site_publish env i revision r db')
    with frame_same versions_only(2) [OF site_publish(3)] show ?thesis by simp
  next
    case (site_remove_study i r db')
    with frame_same versions_only(3) [OF site_remove_study(2)] show ?thesis by simp
  next
    case (site_create_run env q r db')
    with create_run_allocation_frame [OF site_create_run(3) refs] show ?thesis by simp
  next
    case (site_update_run env i u r db')
    with update_run_allocation_frame [OF site_update_run(2)] show ?thesis by simp
  next
    case (site_invite env origin i hours r db')
    with create_invitation_allocation_frame [OF site_invite(2)] show ?thesis by simp
  next
    case (site_purge_delete i u db')
    then have "db' = purge_rows i (site_db x)" by (auto simp: purge_delete_def split: option.splits if_splits)
    with site_purge_delete(1) purge_rows_allocation_frame show ?thesis by simp
  next
    case (site_purge_mark i now)
    with purge_mark_allocation_frame show ?thesis by simp
  next
    case (site_log_in env q r st)
    then show ?thesis by (simp add: frame_same)
  qed (simp_all add: frame_same site_db_def)
  with frame_allocations_ok [OF assms(3) _ kept] show ?thesis by blast
qed

section \<open>Studies with arms and panels\<close>

definition arms_sound :: "config \<Rightarrow> bool" where
  "arms_sound c \<longleftrightarrow> distinct (map v_id (cfg_variants c)) \<and> cfg_variants c \<noteq> [] \<and> cfg_panels c \<noteq> []"

definition versions_sound :: "database \<Rightarrow> bool" where
  "versions_sound db \<longleftrightarrow> (\<forall>v \<in> set (db_versions db). arms_sound (b_config (s_bundle (vr_snapshot v))))"

lemma validated_sound:
  assumes "validate sha b = Inr snap"
  shows "arms_sound (b_config (s_bundle snap))"
proof -
  define c where "c = b_config b"
  obtain trees where c: "check_config c = None" "check_variants b [] (cfg_variants c) = Inr trees" "s_bundle snap = frozen_bundle b"
    using assms by (auto simp: validate_def Let_def c_def split: option.splits sum.splits if_splits)
  have v: "\<forall>v \<in> set (cfg_variants c). is_identifier (v_id v)" "distinct (map v_id (cfg_variants c))"
    using c(2) by (auto simp: check_variants_Inr variant_ok_def)
  have "sanitize (v_id v) = v_id v" if "v \<in> set (cfg_variants c)" for v
    using v(1) that is_identifier_plain by (intro sanitize_valid valid_utf8_ascii) blast
  then have ids: "map (\<lambda>v. sanitize (v_id v)) (cfg_variants c) = map v_id (cfg_variants c)" by simp
  have "map v_id (cfg_variants (b_config (s_bundle snap))) = map (\<lambda>v. sanitize (v_id v)) (cfg_variants c)"
    by (simp add: c(3) frozen_bundle_def Let_def c_def comp_def)
  then have "distinct (map v_id (cfg_variants (b_config (s_bundle snap))))" using ids v(2) by (simp only:)
  moreover have "cfg_variants c \<noteq> []" "cfg_panels c \<noteq> []" using c(1) by (auto simp: check_config_None)
  moreover have "cfg_variants (b_config (s_bundle snap)) \<noteq> [] \<longleftrightarrow> cfg_variants c \<noteq> []"
    "cfg_panels (b_config (s_bundle snap)) \<noteq> [] \<longleftrightarrow> cfg_panels c \<noteq> []"
    by (simp_all add: c(3) frozen_bundle_def Let_def c_def)
  ultimately show ?thesis by (simp add: arms_sound_def)
qed

lemma insert_version_sound:
  assumes "insert_version sha i now snap db = Inr (j, db')" "versions_sound db" "arms_sound (b_config (s_bundle snap))"
  shows "versions_sound db'"
  using assms by (auto simp: insert_version_def insert_version_with_policy_def versions_sound_def tbl_insert_def Let_def
      split: sum.splits option.splits if_splits)

lemma site_step_sound:
  assumes "site_step sha x y" "site_ok sha x" "versions_sound (site_db x)"
  shows "versions_sound (site_db y)"
  using assms(1)
proof (cases rule: site_step.cases)
  case (site_participant sv)
  have "db_ok sha (sv_db (si_server x))" using assms(2) by (simp add: site_ok_def site_db_ok_def site_db_def)
  from participant_step_frame [OF site_participant(2) this] site_participant(1) assms(3) show ?thesis
    by (simp add: participant_frame_def versions_sound_def site_db_def)
next
  case (site_import i now b r db')
  with assms(3) insert_version_sound validated_sound show ?thesis
    by (auto simp: import_bundle_def split: sum.splits prod.splits)
next
  case (site_publish env i revision r db')
  with assms(3) insert_version_sound validated_sound show ?thesis
    by (auto simp: publish_def split: sum.splits prod.splits option.splits if_splits)
next
  case (site_remove_study i r db')
  with assms(3) show ?thesis
    by (auto simp: remove_study_def versions_sound_def tbl_delete_def split: option.splits if_splits)
next
  case (site_create_run env q r db')
  then have "db_versions db' = db_versions (site_db x)"
    by (auto simp: create_run_def insert_run_Inr Let_def split: option.splits sum.splits if_splits)
  with site_create_run(1) assms(3) show ?thesis by (simp add: versions_sound_def)
next
  case (site_update_run env i u r db')
  then have "db_versions db' = db_versions (site_db x)" by (auto simp: update_run_def split: option.splits)
  with site_update_run(1) assms(3) show ?thesis by (simp add: versions_sound_def)
next
  case (site_invite env origin i hours r db')
  then have "db_versions db' = db_versions (site_db x)"
    by (auto simp: create_invitation_def insert_invitation_def Let_def split: if_splits sum.splits option.splits)
  with site_invite(1) assms(3) show ?thesis by (simp add: versions_sound_def)
next
  case (site_purge_delete i u db')
  then have "db' = purge_rows i (site_db x)" by (auto simp: purge_delete_def split: option.splits if_splits)
  with site_purge_delete(1) assms(3) show ?thesis by (simp add: versions_sound_def purge_rows_tables)
next
  case (site_purge_mark i now)
  with assms(3) show ?thesis by (simp add: versions_sound_def purge_mark_def)
next
  case (site_log_in env q r st)
  with assms(3) show ?thesis by simp
qed (use assms(3) in \<open>simp_all add: site_db_def\<close>)

section \<open>Balance\<close>

text \<open>A site where nobody has joined, with sound studies and no allocation pending.\<close>

definition experiment_start :: "site \<Rightarrow> bool" where
  "experiment_start x \<longleftrightarrow> fresh_site x \<and> versions_sound (site_db x) \<and> (\<forall>r \<in> set (db_runs (site_db x)). rn_allocation r = [])"

lemma empty_experiment: "experiment_start empty_site"
  using empty_site_fresh by (simp add: experiment_start_def versions_sound_def empty_site_def site_db_def)

lemma experiment_reach:
  assumes "site_reach sha x0 x" "experiment_start x0"
  shows "site_ok sha x \<and> allocations_ok sha (site_db x) \<and> versions_sound (site_db x)"
  using assms(1)
proof (induction)
  case site_start
  have f: "fresh_site x0" using assms(2) by (simp add: experiment_start_def)
  then have "db_sessions (site_db x0) = []" by (simp add: fresh_site_def fresh_server_def fresh_db_def site_db_def)
  then have "allocations_ok sha (site_db x0)"
    using assms(2) by (simp add: allocations_ok_def experiment_start_def cells_def balanced_start)
  with fresh_site_ok [OF f] assms(2) show ?case by (simp add: experiment_start_def)
next
  case (site_next y z)
  with site_step_ok site_step_allocation site_step_sound show ?case by blast
qed

lemma snapshot_sound:
  assumes "versions_sound db" "load_snapshot sha db v = Inr f"
  shows "arms_sound (f_config f)"
  using assms
  by (auto simp: load_snapshot_def versions_sound_def f_config_def split: option.splits sum.splits if_splits dest!: tbl_lookup_Some)

lemma cells_count: "count (mset (cells db i)) a
    = tbl_count (\<lambda>s. ss_run s = i \<and> ss_variant s = al_variant a \<and> ss_panel s = al_panel a) (db_sessions db)"
proof -
  have "cell_of s = a \<longleftrightarrow> ss_variant s = al_variant a \<and> ss_panel s = al_panel a" for s
    by (cases a) (simp add: cell_of_def)
  then have "count (mset (map cell_of (filter (\<lambda>s. ss_run s = i) l))) a
      = length (filter (\<lambda>s. ss_run s = i \<and> ss_variant s = al_variant a \<and> ss_panel s = al_panel a) l)" for l
    by (induction l) auto
  then show ?thesis by (simp add: cells_def tbl_count_def)
qed

text \<open>C7: In every reachable state the participants of a run are balanced over its arms and panels: each session
  has an arm and a panel of the frozen study, and any two pairs of an arm and a panel have numbers of
  sessions that differ by at most one, whatever the random source draws, in whatever order participants
  come, and whatever administrators do in between.\<close>

theorem allocation_balanced:
  assumes "experiment_start x0" "site_reach sha x0 x" "r \<in> set (db_runs (site_db x))"
    "load_snapshot sha (site_db x) (rn_version r) = Inr f"
    "v \<in> v_id ` set (cfg_variants (f_config f))" "p < length (cfg_panels (f_config f))"
    "w \<in> v_id ` set (cfg_variants (f_config f))" "q < length (cfg_panels (f_config f))"
  shows "tbl_count (\<lambda>s. ss_run s = rn_id r \<and> ss_variant s = v \<and> ss_panel s = p) (db_sessions (site_db x))
      \<le> tbl_count (\<lambda>s. ss_run s = rn_id r \<and> ss_variant s = w \<and> ss_panel s = q) (db_sessions (site_db x)) + 1
    \<and> (\<forall>s \<in> set (db_sessions (site_db x)). ss_run s = rn_id r \<longrightarrow>
        ss_variant s \<in> v_id ` set (cfg_variants (f_config f)) \<and> ss_panel s < length (cfg_panels (f_config f)))"
proof -
  note reach = experiment_reach [OF assms(2,1)]
  show ?thesis
  proof (cases "purge_begun r")
    case True
    with reach assms(3) have "\<forall>s \<in> set (db_sessions (site_db x)). ss_run s \<noteq> rn_id r"
      by (simp add: site_ok_def site_db_ok_def runs_life_ok_def)
    then show ?thesis by (auto simp: tbl_count_def filter_empty_conv)
  next
    case False
    then have b: "balanced (allocation_block (f_config f)) (cells (site_db x) (rn_id r)) (rn_allocation r)"
      using reach assms(3,4) by (simp add: allocations_ok_def)
    have "arms_sound (f_config f)" using snapshot_sound reach assms(4) by blast
    then have d: "distinct (allocation_block (f_config f))" by (simp add: arms_sound_def distinct_allocation_block)
    have "count (mset (cells (site_db x) (rn_id r))) \<lparr>al_variant = v, al_panel = p\<rparr>
        \<le> count (mset (cells (site_db x) (rn_id r))) \<lparr>al_variant = w, al_panel = q\<rparr> + 1"
      by (rule balanced_counts [OF b d]) (use assms(5-8) in \<open>simp_all add: set_allocation_block\<close>)
    moreover have "cell_of s \<in> set (allocation_block (f_config f))"
      if "s \<in> set (db_sessions (site_db x))" "ss_run s = rn_id r" for s
      using balanced_members [OF b] that by (auto simp: cells_def)
    ultimately show ?thesis by (auto simp: cells_count set_allocation_block cell_of_def)
  qed
qed

section \<open>The next allocation exists\<close>

lemma next_allocation_known:
  assumes "balanced (allocation_block (f_config f)) given (rn_allocation run)" "arms_sound (f_config f)"
  shows "next_allocation allocate_v1 rs (f_config f) (rn_allocation run) \<noteq> Inl (Fault u)"
    "next_allocation allocate_v1 rs (f_config f) (rn_allocation run) = Inr (a, rest) \<Longrightarrow> al_panel a < length (cfg_panels (f_config f))"
proof -
  have "allocation_block (f_config f) \<noteq> []"
    using assms(2) by (auto simp: arms_sound_def allocation_block_def neq_Nil_conv)
  then show "next_allocation allocate_v1 rs (f_config f) (rn_allocation run) \<noteq> Inl (Fault u)"
    using allocate_v1_block [of rs "f_config f" "[]"]
    by (auto simp: next_allocation_def allocate_v1_def split: option.splits list.splits)
  show "next_allocation allocate_v1 rs (f_config f) (rn_allocation run) = Inr (a, rest) \<Longrightarrow> al_panel a < length (cfg_panels (f_config f))"
    using balanced_next(2) [OF assms(1)] by (simp add: set_allocation_block)
qed

end
