(* ===== verification/NoFault.thy ===== *)
theory NoFault
  imports Allocation ServingTheorems
begin

text \<open>
  No request runs into one of the panics that are written out as a \<open>Fault\<close>, nor in a circle: the reads of
  slices by an index in the participant API and the event log, the panels, the allocation block, the failure
  map of the logins, the walks to the ancestors. The panics that the source rules out in the same
  expression (the last event in \<open>eventMetricsV1\<close>, the middle of the sorted times, the first byte of a
  cell) are not written out. A result is \<open>calm\<close>
  when it is no fault; the simplification rules of this predicate follow the handlers from check to check.
\<close>

fun is_fault :: "api_error \<Rightarrow> bool" where
  "is_fault (Fault t) = True"
| "is_fault _ = False"

definition calm :: "'a result \<Rightarrow> bool" where
  "calm r \<longleftrightarrow> (case r of Inl e \<Rightarrow> \<not> is_fault e | Inr _ \<Rightarrow> True)"

named_theorems calm_simps

lemma calm_iff: "calm r \<longleftrightarrow> (\<forall>t. r \<noteq> Inl (Fault t))"
proof (cases r)
  case (Inl e)
  then show ?thesis by (cases e) (simp_all add: calm_def)
qed (simp add: calm_def)

lemma calm_values [calm_simps]: "calm (Inr x)" "calm (Inl e) \<longleftrightarrow> \<not> is_fault e"
  by (simp_all add: calm_def)

lemma calm_case [calm_simps]: "calm (case r of Inl e \<Rightarrow> Inl e | Inr x \<Rightarrow> f x) \<longleftrightarrow> calm r \<and> (\<forall>x. r = Inr x \<longrightarrow> calm (f x))"
  by (cases r) (auto simp: calm_def)

lemma calm_map [calm_simps]: "calm (map_sum id g r) \<longleftrightarrow> calm r"
  by (cases r) (auto simp: calm_def)

lemma calm_error: "calm r \<Longrightarrow> r = Inl e \<Longrightarrow> \<not> is_fault e"
  by (simp add: calm_def)

lemma calm_slice [calm_simps]: "calm (slice_at xs i) \<longleftrightarrow> 0 \<le> i \<and> i < int (length xs)"
  by (simp add: calm_def slice_at_def)

section \<open>Loaders\<close>

lemma calm_policy [calm_simps]: "calm (check_policy p)" "calm (resolve_policy p)" "calm (decode_policy q)"
  by (auto simp: check_policy_def resolve_policy_def decode_policy_def unsupported_policy_def calm_simps split: option.splits sum.splits if_splits)

lemma calm_loaders [calm_simps]: "calm (load_run c v db)" "calm (load_snapshot sha db v)" "calm (load_session db i j)"
  "calm (load_attempt db i j)" "calm (anonymous cookie)"
  by (auto simp: load_run_def load_snapshot_def load_session_def load_attempt_def anonymous_def calm_simps
      split: option.splits)

lemma calm_owned [calm_simps]: "calm (owned env db slug tok)"
  by (auto simp: owned_def calm_simps Let_def)

lemma calm_task_view [calm_simps]: "calm (task_view f s i)"
  by (simp add: task_view_def calm_simps Let_def)

lemma calm_make_session [calm_simps]: "calm (make_session db s f)"
  by (auto simp: make_session_def policy_mismatch_def calm_simps Let_def split: option.splits)

lemma calm_limits: "limit_participant now run identity operation replayed w = (w', Some e) \<Longrightarrow> \<not> is_fault e"
  "limit_public_source now path source w = (w', Some e) \<Longrightarrow> \<not> is_fault e"
  by (auto simp: limit_participant_def limit_public_source_def retry_after_def calm_simps Let_def split: prod.splits if_splits option.splits bool.splits)

lemma fault_free_constants [simp]: "\<not> is_fault (constraint_failed t)" "\<not> is_fault policy_mismatch" "\<not> is_fault suspended_error"
  "\<not> is_fault (retry_after n)" "\<not> is_fault bad_login" "\<not> is_fault credentials_changed"
  by (simp_all add: constraint_failed_def policy_mismatch_def suspended_error_def retry_after_def bad_login_def credentials_changed_def)

lemmas loader_errors = calm_loaders [THEN calm_error] calm_owned [THEN calm_error] calm_make_session [THEN calm_error]
  calm_policy [THEN calm_error]

section \<open>Writers\<close>

lemma calm_inserts [calm_simps]: "calm (insert_session s db)" "calm (insert_attempt a db)" "calm (insert_event e db)"
  "calm (insert_command c db)" "calm (insert_invitation i db)" "calm (insert_run r db)"
  by (auto simp: insert_session_def insert_attempt_def insert_event_def insert_command_def insert_invitation_def insert_run_def
      calm_simps split: option.splits)

lemma calm_insert_events [calm_simps]: "calm (insert_events i clock es db)"
  by (induction es arbitrary: clock db) (simp_all add: calm_simps)

lemma calm_receipts [calm_simps]: "calm (receipt now i c operation hash db)" "calm (replay_receipt db s f k)"
  "calm (save_receipt t0 t1 t2 t3 i c operation hash n a db)"
  by (auto simp: receipt_def replay_receipt_def save_receipt_def calm_simps Let_def split: option.splits)

lemma calm_command_id: "command_id i = Some e \<Longrightarrow> \<not> is_fault e"
  by (auto simp: command_id_def split: if_splits)

section \<open>Participants\<close>

text \<open>
  What a database must satisfy: the allocations are those of the invariant, and the random identifiers
  of the placements of a session, 32 random bytes each, are distinct and not empty.
\<close>

definition ids_distinct :: "(string \<Rightarrow> string) \<Rightarrow> database \<Rightarrow> bool" where
  "ids_distinct sha db \<longleftrightarrow> (\<forall>s \<in> set (db_sessions db). \<forall>r \<in> set (db_runs db). \<forall>f. rn_id r = ss_run s
     \<longrightarrow> load_snapshot sha db (rn_version r) = Inr f \<longrightarrow> good_ids (ss_nodes s) (f_tree f (ss_variant s)))"

lemma load_run_fields:
  assumes "load_run c v db = Inr run"
  obtains r where "r \<in> set (db_runs db)" "rn_id run = rn_id r" "rn_version run = rn_version r" "rn_allocation run = rn_allocation r"
    "rn_status run = ''open'' \<Longrightarrow> rn_status r = ''open''"
  using load_run_Inr [OF assms] that by (auto split: if_splits)

lemma owned_ids:
  assumes "owned env db slug tok = Inr (s, f, run, identity)" "ids_distinct (en_sha env) db"
  shows "good_ids (ss_nodes s) (f_tree f (ss_variant s))"
proof -
  note o = owned_Inr [OF assms(1)]
  then obtain r where "r \<in> set (db_runs db)" "rn_id run = rn_id r" "rn_version run = rn_version r"
    using load_run_fields [of rn_slug slug db run] by metis
  with o assms(2) show ?thesis unfolding ids_distinct_def by metis
qed

lemma calm_session: "calm (fst (session env slug cookie sv))"
  by (auto simp: session_def calm_simps split: sum.splits dest: loader_errors)

lemma calm_start_task [calm_simps]: "calm (start_task env req s f db)"
  by (auto simp: start_task_def calm_simps)

lemma calm_start: "calm (fst (start env req sv))"
  using calm_limits(1)
  by (auto simp: start_def Let_def calm_simps calm_command_id
      split: sum.splits option.splits prod.splits
      dest: loader_errors calm_error [OF calm_receipts(1)] calm_error [OF calm_start_task])

lemma calm_append_events:
  assumes "good_ids (ss_nodes s) (f_tree f (ss_variant s))"
  shows "calm (append_events clock s f a incoming terminal db)"
proof -
  have "calm (extend_log (index_nodes (f_tree f (ss_variant s)) (ss_nodes s)) closed ab sb eb rb saved incoming terminal)" for closed ab sb eb rb saved
    using extend_log_no_fault [OF assms] by (simp add: calm_iff)
  then show ?thesis by (auto simp: append_events_def Let_def calm_simps split: option.splits)
qed

lemma calm_event_metrics:
  assumes "good_ids ids ns"
  shows "calm (event_metrics_v1 es (index_nodes ns ids) selected out finalized)"
  using ancestors_of_total [OF index_nodes_parents_ok [OF assms], of selected]
  by (auto simp: event_metrics_v1_def calm_simps Let_def)

lemma calm_engine_metrics:
  assumes "resolve_policy p = Inr engine" "good_ids ids ns"
  shows "calm (pe_metrics engine es (index_nodes ns ids) selected out finalized)"
  using assms calm_event_metrics by (auto simp: resolve_policy_def split: sum.splits)

lemma calm_events:
  assumes "ids_distinct (en_sha env) (sv_db sv)"
  shows "calm (fst (events env req sv))"
  using calm_limits(1) calm_error [OF calm_append_events [OF owned_ids [OF _ assms]]]
  by (auto simp: events_def Let_def calm_simps split: sum.splits option.splits prod.splits dest: loader_errors)

lemma calm_judge: "calm (judge engine f s a idx req es)"
  by (auto simp: judge_def calm_simps)

lemma calm_finish_attempt:
  assumes "good_ids (ss_nodes s) (f_tree f (ss_variant s))"
  shows "calm (finish_attempt env req s f db)"
  using calm_append_events [OF assms] calm_engine_metrics [OF _ assms] calm_judge
  by (auto simp: finish_attempt_def Let_def calm_simps split: sum.splits prod.splits dest: loader_errors)

lemma calm_finish:
  assumes "ids_distinct (en_sha env) (sv_db sv)"
  shows "calm (fst (finish env req sv))"
  using calm_limits(1) calm_error [OF calm_finish_attempt [OF owned_ids [OF _ assms]]]
  by (auto simp: finish_def Let_def calm_simps calm_command_id split: sum.splits option.splits prod.splits
      dest: loader_errors calm_error [OF calm_receipts(1)])

section \<open>Enrolling\<close>

definition site_calm :: "(string \<Rightarrow> string) \<Rightarrow> site \<Rightarrow> bool" where
  "site_calm sha x \<longleftrightarrow> site_ok sha x \<and> allocations_ok sha (site_db x) \<and> versions_sound (site_db x) \<and> ids_distinct sha (site_db x)"

lemma calm_new_session:
  assumes "load_run rn_slug slug db = Inr run" "rn_status run = ''open''" "runs_life_ok db" "allocations_ok (en_sha env) db"
    "versions_sound db" "load_snapshot (en_sha env) db (rn_version run) = Inr f" "resolve_policy (f_policy f) = Inr engine"
  shows "calm (new_session env engine f run identity req)"
proof -
  obtain r where r: "r \<in> set (db_runs db)" "rn_id run = rn_id r" "rn_version run = rn_version r" "rn_allocation run = rn_allocation r"
    "rn_status r = ''open''" using load_run_fields [OF assms(1)] assms(2) by metis
  have "\<not> purge_begun r" using assms(3) r(1,5) by (auto simp: runs_life_ok_def run_life_def purge_begun_def)
  then have b: "balanced (allocation_block (f_config f)) (cells db (rn_id r)) (rn_allocation run)"
    using assms(4,6) r(1,3,4) by (simp add: allocations_ok_def)
  have e: "pe_allocate engine = allocate_v1" using assms(7) by (auto simp: resolve_policy_def split: sum.splits)
  note known = next_allocation_known [OF b snapshot_sound [OF assms(5,6)]]
  show ?thesis
  proof (cases "next_allocation allocate_v1 (en_draws env) (f_config f) (rn_allocation run)")
    case (Inl err)
    with known(1) have "\<not> is_fault err" by (cases err) auto
    with Inl show ?thesis by (simp add: new_session_def e calm_simps)
  next
    case (Inr ar)
    obtain a rest where "ar = (a, rest)" by fastforce
    with Inr known(2) [of "en_draws env" a rest] show ?thesis
      by (auto simp: new_session_def e calm_simps Let_def split: option.splits)
  qed
qed

lemma calm_enrol:
  assumes "load_run rn_slug slug db = Inr run" "runs_life_ok db" "allocations_ok (en_sha env) db"
    "versions_sound db" "load_snapshot (en_sha env) db (rn_version run) = Inr f" "resolve_policy (f_policy f) = Inr engine"
  shows "calm (enrol env engine f run identity req db)"
  using calm_new_session [OF assms(1) _ assms(2-6)]
  by (auto simp: enrol_def calm_simps spend_invitation_def use_invitation_def Let_def)

lemma calm_join:
  assumes "runs_life_ok (sv_db sv)" "allocations_ok (en_sha env) (sv_db sv)" "versions_sound (sv_db sv)"
  shows "calm (fst (join env req sv))"
  using calm_limits(1) calm_error [OF calm_enrol [OF _ assms]]
  by (auto simp: join_def Let_def calm_simps split: sum.splits option.splits prod.splits if_splits dest: loader_errors)

section \<open>Reports\<close>

lemma calm_collect: "(\<forall>r \<in> set rs. calm r) \<Longrightarrow> calm (collect rs)"
  by (induction rs) (auto simp: calm_simps split: sum.splits)

lemma calm_run_attempts [calm_simps]: "calm (load_run_attempts i db)"
  unfolding load_run_attempts_def by (rule calm_collect) (auto simp: decode_attempt_def calm_simps)

lemma calm_attempt_metrics:
  assumes "good_ids ids (f_tree f variant)"
  shows "calm (metrics_for_attempt db ap f variant ids observed_at)"
  using calm_engine_metrics [OF _ assms]
  by (auto simp: metrics_for_attempt_def calm_simps Let_def split: prod.splits option.splits)

lemma run_session_ids:
  assumes "ids_distinct sha db" "load_run c v db = Inr run" "load_snapshot sha db (rn_version run) = Inr f"
    "s \<in> set (sessions_in_order (rn_id run) db)"
  shows "good_ids (ss_nodes s) (f_tree f (ss_variant s))"
proof -
  obtain r where "r \<in> set (db_runs db)" "rn_id run = rn_id r" "rn_version run = rn_version r" using load_run_fields [OF assms(2)] by metis
  moreover have "s \<in> set (db_sessions db)" "ss_run s = rn_id run" using assms(4) by (auto simp: sessions_in_order_def)
  ultimately show ?thesis using assms(1,3) unfolding ids_distinct_def by metis
qed

lemma calm_report_rows:
  assumes "ids_distinct (en_sha env) db" "load_run c v db = Inr run"
  shows "calm (report_rows env bytes active run db)"
proof -
  have "calm (report_row db run f attempts now s it)"
    if "load_snapshot (en_sha env) db (rn_version run) = Inr f" "s \<in> set (sessions_in_order (rn_id run) db)" for f attempts now s it
    using calm_attempt_metrics [OF run_session_ids [OF assms that]]
    by (auto simp: report_row_def calm_simps Let_def split: prod.splits option.splits)
  then show ?thesis by (auto simp: report_rows_def calm_simps Let_def intro!: calm_collect)
qed

lemma calm_results:
  assumes "ids_distinct (en_sha env) db"
  shows "calm (results env bytes active i db)" "calm (export env bytes active format i db)"
  using calm_report_rows [OF assms]
  by (auto simp: results_def export_def calm_simps Let_def split: prod.splits)

lemma calm_event_export:
  assumes "ids_distinct (en_sha env) db"
  shows "calm (event_export env i db)"
proof -
  have "calm (owner_attempt_of db f (sessions_in_order (rn_id run) db) now ap)"
    if "load_run rn_id i db = Inr run" "load_snapshot (en_sha env) db (rn_version run) = Inr f" for run f now ap
    using calm_attempt_metrics [OF run_session_ids [OF assms that]]
    by (auto simp: owner_attempt_of_def calm_simps Let_def find_Some_iff split: prod.splits option.splits)
  then show ?thesis by (auto simp: event_export_def calm_simps Let_def intro!: calm_collect)
qed

section \<open>Administrators\<close>

lemma calm_checks: "check_request q = Some e \<Longrightarrow> \<not> is_fault e" "check_update u = Some e \<Longrightarrow> \<not> is_fault e"
  "check_transition u r = Some e \<Longrightarrow> \<not> is_fault e"
  by (auto simp: check_request_def check_update_def check_transition_def split: if_splits)

lemma calm_versions [calm_simps]: "calm (version_views vs)" "calm (list_versions db)" "calm (run_key_view sha i db)"
  "calm (public_info env slug cookie db)" "calm (validate_handler sha b)" "calm (get_draft i ds)"
proof -
  show views: "calm (version_views vs)" for vs by (induction vs) (simp_all add: calm_simps)
  show "calm (list_versions db)" by (simp add: list_versions_def views)
qed (auto simp: run_key_view_def public_info_def validate_handler_def get_draft_def calm_simps split: option.splits sum.splits)

lemma calm_insert_version: "calm (insert_version sha i now snap db)"
  by (auto simp: insert_version_def insert_version_with_policy_def calm_simps Let_def split: option.splits)

lemma calm_writes:
  "calm (fst (create_draft env b ds))" "calm (fst (update_draft env i n b ds))" "calm (fst (publish env i n ds db))"
  "calm (fst (create_run env q db))" "calm (fst (update_run env i u db))" "calm (fst (create_invitation env origin i hours db))"
  using calm_checks calm_error [OF calm_insert_version]
  by (auto simp: create_draft_def update_draft_def publish_def create_run_def update_run_def create_invitation_def calm_simps Let_def
      split: option.splits sum.splits prod.splits dest: loader_errors calm_error [OF calm_inserts(5)] calm_error [OF calm_inserts(6)])

lemma calm_decode: "calm (decode_limit first n r)" "calm (decode first r)"
  by (auto simp: decode_def decode_limit_def calm_simps split: option.splits)

section \<open>Requests\<close>

lemma calm_on_server: "calm (fst (f (si_server x))) \<Longrightarrow> calm (fst (on_server wrap f x))"
  by (auto simp: on_server_def calm_simps split: prod.splits)

lemma calm_on_db: "calm (fst (f (site_db x))) \<Longrightarrow> calm (fst (on_db wrap f x))"
  by (auto simp: on_db_def calm_simps split: prod.splits)

lemma calm_on_drafts: "calm (fst (f (si_drafts x))) \<Longrightarrow> calm (fst (on_drafts wrap f x))"
  by (auto simp: on_drafts_def calm_simps split: prod.splits)

lemma calm_with_body: "calm b \<Longrightarrow> (\<And>v. calm (fst (k v x))) \<Longrightarrow> calm (fst (with_body b k x))"
  by (auto simp: with_body_def calm_simps split: sum.splits)


lemma site_calm_parts:
  assumes "site_calm sha x"
  shows "runs_life_ok (sv_db (si_server x))" "allocations_ok sha (sv_db (si_server x))" "versions_sound (sv_db (si_server x))"
    "ids_distinct sha (sv_db (si_server x))" "accounts_good (ls_accounts (site_login x))" "login_ok (ls_failures (site_login x))"
  using assms by (simp_all add: site_calm_def site_ok_def site_db_ok_def site_db_def site_login_def)

lemma calm_participant:
  assumes "site_calm (en_sha env) x"
  shows "calm (fst (serve_participant p env e v r x))"
proof -
  have "site_calm (en_sha (environment.truncate env)) x" using assms by simp
  note parts = site_calm_parts [OF this]
  from calm_events [OF parts(4)] calm_finish [OF parts(4)] calm_join [OF parts(1-3)] show ?thesis
    unfolding serve_participant_def Let_def
    by (cases e) (auto simp: calm_simps intro!: calm_with_body calm_decode calm_on_server calm_session calm_start)
qed

lemma calm_account:
  assumes "site_calm (en_sha env) x" "seen_before (en_clock env 13) (si_failures x)"
  shows "calm (fst (serve_account p env e r x))"
proof -
  have login: "calm a" if "login env q (site_login x) = (a, st)" for q a st
    using login_safe_step [OF site_calm_parts(5,6) [OF assms(1)] _ that] assms(2) by (simp add: calm_iff site_login_def)
  show ?thesis
    unfolding serve_account_def Let_def
    by (cases e) (auto simp: calm_simps intro!: calm_with_body calm_decode dest: login split: prod.splits)
qed

lemma calm_studies:
  assumes "site_calm (en_sha env) x"
  shows "calm (fst (serve_studies p env e i r x))"
proof -
  have ids: "ids_distinct (en_sha (environment.truncate env)) (site_db x)" using assms by (simp add: site_calm_def)
  show ?thesis
    unfolding serve_studies_def Let_def
    by (cases e) (auto simp: calm_simps calm_results [OF ids] calm_event_export [OF ids] calm_writes
        intro!: calm_with_body calm_decode calm_on_db calm_on_drafts)
qed

lemma calm_gates:
  "pass_route co now r w = (Some err, w') \<Longrightarrow> \<not> is_fault err" "guarded env g r ac = Inl err \<Longrightarrow> \<not> is_fault err"
  using calm_limits(2)
  by (auto simp: pass_route_def guarded_def authorize_def Let_def split: if_splits prod.splits guard.splits sum.splits)

lemma calm_pages: "calm (html p name r)" "calm (serve_asset p r)"
  by (auto simp: html_def serve_asset_def calm_simps split: option.splits)

lemma calm_handle:
  assumes "site_calm (en_sha env) x" "seen_before (en_clock env 13) (si_failures x)"
  shows "calm (fst (handle p env e vs r x))"
  using calm_participant [OF assms(1)] calm_account [OF assms] calm_studies [OF assms(1)] calm_pages(1)
  by (cases e) (simp_all add: handle_def participant_endpoints_def account_endpoints_def Let_def)

lemma calm_charge: "site_calm sha x \<Longrightarrow> site_reach sha x (charge x w) \<Longrightarrow> site_calm sha (charge x w)"
  using site_reach_ok [of sha x] by (simp add: site_calm_def)

lemma calm_serve:
  assumes "site_calm (en_sha env) x" "seen_before (en_clock env 13) (si_failures x)"
  shows "calm (fst (serve p env r x))"
proof (cases "asset_path (hq_segments r)")
  case True
  then show ?thesis by (simp add: serve_def calm_pages)
next
  case False
  show ?thesis
  proof (cases "first_match r routes")
    case None
    with False show ?thesis by (simp add: serve_def calm_simps)
  next
    case (Some m)
    obtain g e vs where m: "m = (g, e, vs)" by (metis prod_cases3)
    obtain err w where w: "pass_route (pr_config p) (en_clock env 20) r (sv_windows (si_server x)) = (err, w)" by fastforce
    have "site_reach (en_sha env) x (charge x w)"
      using pass_route_step [OF w, of "en_sha env"] site_start site_next by metis
    note handled = calm_handle [OF calm_charge [OF assms(1) this], unfolded charge_simps, OF assms(2)]
    from False Some m w show ?thesis
      using calm_gates handled
      by (cases err) (force simp: serve_def charge_def [symmetric] Let_def calm_simps split: sum.splits)+
  qed
qed

section \<open>No request stops the server\<close>

text \<open>C6: In every state that a site reaches from a site where nobody has joined yet, no request, whatever
  its route, headers, cookies and body, is answered by a fault: the task list of a session is never read at an
  index out of range (in a view, in a replayed receipt and at the start of a task), nor are the saved log
  and the batch of a request of events, the panels of a study and the first entry of an allocation block;
  no missing entry of the limiter of failed logins is dereferenced, and no walk from a node to its ancestors
  runs for ever. The random identifiers of the placements of each session are taken to be distinct and not
  empty, and the clock not to run back behind the last failed login that the limiter remembers.\<close>

theorem no_request_faults:
  assumes "experiment_start x0" "site_reach (en_sha env) x0 x" "ids_distinct (en_sha env) (site_db x)"
    "seen_before (en_clock env 13) (si_failures x)" "serve p env r x = (a, x')"
  shows "\<forall>t. a \<noteq> Inl (Fault t)"
proof -
  have "site_calm (en_sha env) x" using experiment_reach [OF assms(2,1)] assms(3) by (simp add: site_calm_def)
  from calm_serve [OF this assms(4), of p r] assms(5) show ?thesis by (simp add: calm_iff)
qed

end
