(* ===== verification/ExperimentExamples.thy ===== *)
theory ExperimentExamples
  imports NoFault ServingExamples
begin

text \<open>
  The theorems of \<open>Allocation\<close> and \<open>NoFault\<close> on the site of the examples, after a participant has joined
  and finished the task.
\<close>

lemma demo_experiment: "experiment_start demo_site"
  using demo_site_fresh
  by (simp add: experiment_start_def versions_sound_def arms_sound_def demo_site_def demo_server_def demo_db_def site_db_def
      demo_version_def demo_snapshot_def demo_config_def demo_run_def)

theorem allocation_balanced_witness:
  "\<exists>x. site_reach demo_sha demo_site x \<and> db_sessions (site_db x) = [demo_final]
    \<and> tbl_count (\<lambda>s. ss_run s = ''r'' \<and> ss_variant s = ''x'' \<and> ss_panel s = 0) (db_sessions (site_db x)) = 1
    \<and> (\<forall>s \<in> set (db_sessions (site_db x)). ss_run s = ''r'' \<longrightarrow> ss_panel s < 1)"
proof -
  obtain x r where x: "site_reach demo_sha demo_site x" "db_sessions (site_db x) = [demo_final]"
    "session_study demo_sha (site_db x) demo_final demo_study" "db_runs (site_db x) = [r]" "rn_id r = ''r''"
    using demo_site_reach by blast
  have r: "r \<in> set (db_runs (site_db x))" by (simp add: x(4))
  have f: "load_snapshot demo_sha (site_db x) (rn_version r) = Inr demo_study"
    using x(3,4) by (simp add: session_study_def)
  have c: "cfg_variants (f_config demo_study) = [\<lparr>v_id = ''x'', v_name = ''X'', v_tree = ''x.md''\<rparr>]"
    "length (cfg_panels (f_config demo_study)) = 1"
    by (simp_all add: f_config_def demo_study_def demo_snapshot_def demo_config_def)
  have "''x'' \<in> v_id ` set (cfg_variants (f_config demo_study))" "0 < length (cfg_panels (f_config demo_study))"
    by (simp_all add: c)
  from allocation_balanced [OF demo_experiment x(1) r f this this] x(1,2,5) c(2) show ?thesis
    by (intro exI [of _ x]) (simp add: tbl_count_def demo_final_def demo_session_def)
qed

theorem no_request_faults_witness:
  "\<exists>x. site_reach demo_sha demo_site x \<and> db_sessions (site_db x) = [demo_final]
    \<and> (\<forall>segs t. fst (serve demo_process demo_http_env (demo_request segs) x) \<noteq> Inl (Fault t))"
proof -
  obtain x r where x: "site_reach demo_sha demo_site x" "db_sessions (site_db x) = [demo_final]"
    "session_study demo_sha (site_db x) demo_final demo_study" "db_runs (site_db x) = [r]" "rn_id r = ''r''" "si_failures x = new_login_limiter"
    using demo_site_reach by blast
  have good: "good_ids (ss_nodes demo_final) (f_tree demo_study (ss_variant demo_final))" by code_simp
  have "load_snapshot demo_sha (site_db x) (rn_version r) = Inr demo_study"
    using x(3,4) by (simp add: session_study_def)
  with good have ids: "ids_distinct (en_sha demo_http_env) (site_db x)" by (simp add: ids_distinct_def x(2,4))
  have seen: "seen_before (en_clock demo_http_env 13) (si_failures x)" by (simp add: x(6) seen_before_def new_login_limiter_def)
  have "fst (serve demo_process demo_http_env (demo_request segs) x) \<noteq> Inl (Fault t)" for segs t
    using no_request_faults [OF demo_experiment _ ids seen, of demo_process "demo_request segs"] x(1)
    by (cases "serve demo_process demo_http_env (demo_request segs) x") simp
  with x(1,2) show ?thesis by blast
qed

end
