(* ===== verification/AuditLog.thy ===== *)
theory AuditLog
  imports Cli
begin

text \<open>
  \<open>audit.go\<close> and its callers: the handlers and commands that write to the audit log, with their calls of
  \<open>audit\<close> at the places where the code has them. A logged handler returns its answer, the new site and the
  records that it wrote, in order; \<open>AuditTheorems\<close> shows that without the records it is the handler of
  \<open>Serving\<close>, \<open>Auth\<close> or \<open>Cli\<close>.
\<close>

section \<open>Records\<close>

record audit_record =
  au_time :: time
  au_request :: string
  au_source :: string
  au_actor :: string
  au_action :: string
  au_object :: string
  au_outcome :: string

text \<open>
  \<open>audit\<close>; \<open>origin\<close> is the request ID and the source network, or nothing for a command. The reading of
  the clock and the random request ID have their own numbers.
\<close>

definition audit :: "auth_environment \<Rightarrow> (string \<times> string) option \<Rightarrow> string \<Rightarrow> string \<Rightarrow> string \<Rightarrow> string \<Rightarrow> audit_record" where
  "audit env origin actor action object outcome =
     (case origin of None \<Rightarrow> \<lparr>au_time = en_clock env 41, au_request = [], au_source = [], au_actor = actor, au_action = action,
        au_object = object, au_outcome = outcome\<rparr>
      | Some (i, source) \<Rightarrow> \<lparr>au_time = en_clock env 41, au_request = i, au_source = source, au_actor = actor,
        au_action = action, au_object = object, au_outcome = outcome\<rparr>)"

definition bounded_audit_name :: "string \<Rightarrow> string" where
  "bounded_audit_name value = (if length value > 128 then take 128 value else value)"

text \<open>The line of the log: \<open>json.Marshal\<close> with \<open>omitempty\<close>; \<open>stamp\<close> is the text of a time.\<close>

definition optional_field :: "string \<Rightarrow> string \<Rightarrow> (string \<times> string) list" where
  "optional_field name value = (if value = [] then [] else [(name, json_string value)])"

definition audit_line :: "(time \<Rightarrow> string) \<Rightarrow> audit_record \<Rightarrow> string" where
  "audit_line stamp a = json_object
     ((''timestamp'', json_string (stamp (au_time a))) # optional_field ''request_id'' (au_request a)
       @ optional_field ''source'' (au_source a) @ optional_field ''actor'' (au_actor a)
       @ (''action'', json_string (au_action a)) # optional_field ''object'' (au_object a)
       @ [(''outcome'', json_string (au_outcome a))])"

section \<open>Requests\<close>

type_synonym logged = "answer result \<times> site \<times> audit_record list"

text \<open>\<open>adminFromContext\<close>: who the guard of the route found; nobody behind a route without a guard.\<close>

definition admin_from_context :: "admin_identity option \<Rightarrow> admin_identity" where
  "admin_from_context who = (case who of None \<Rightarrow> nobody | Some a \<Rightarrow> a)"

definition request_origin :: "process \<Rightarrow> auth_environment \<Rightarrow> http_request \<Rightarrow> string \<times> string" where
  "request_origin p env r = (en_random env 40, source_of (pr_config p) r)"

text \<open>\<open>s.audit(r, adminFromContext(r).Username, action, object, "success")\<close>, as the handlers call it.\<close>

abbreviation audit_success ::
    "process \<Rightarrow> auth_environment \<Rightarrow> admin_identity option \<Rightarrow> http_request \<Rightarrow> string \<Rightarrow> string \<Rightarrow> audit_record" where
  "audit_success p env who r action object \<equiv>
     audit env (Some (request_origin p env r)) (ai_username (admin_from_context who)) action object ''success''"

text \<open>The handlers of drafts and versions.\<close>

definition logged_create_draft ::
    "process \<Rightarrow> auth_environment \<Rightarrow> admin_identity option \<Rightarrow> http_request \<Rightarrow> site \<Rightarrow> logged" where
  "logged_create_draft p env who r x =
     (case decode (de_bundle (pr_decoders p)) r of Inl e \<Rightarrow> (Inl e, x, [])
      | Inr b \<Rightarrow>
        (case create_draft (environment.truncate env) b (si_drafts x) of
           (Inl e, ds) \<Rightarrow> (Inl e, x\<lparr>si_drafts := ds\<rparr>, [])
         | (Inr (i, n), ds) \<Rightarrow> (Inr (DraftIdAnswer (i, n)), x\<lparr>si_drafts := ds\<rparr>,
             [audit_success p env who r ''draft.create'' (''draft:'' @ i)])))"

definition logged_update_draft ::
    "process \<Rightarrow> auth_environment \<Rightarrow> admin_identity option \<Rightarrow> string \<Rightarrow> http_request \<Rightarrow> site \<Rightarrow> logged" where
  "logged_update_draft p env who i r x =
     (case decode (de_draft (pr_decoders p)) r of Inl e \<Rightarrow> (Inl e, x, [])
      | Inr b \<Rightarrow>
        (case update_draft (environment.truncate env) i (db_revision b) (db_bundle b) (si_drafts x) of
           (Inl e, ds) \<Rightarrow> (Inl e, x\<lparr>si_drafts := ds\<rparr>, [])
         | (Inr n, ds) \<Rightarrow> (Inr (RevisionAnswer n), x\<lparr>si_drafts := ds\<rparr>,
             [audit_success p env who r ''draft.update'' (''draft:'' @ i)])))"

definition logged_publish ::
    "process \<Rightarrow> auth_environment \<Rightarrow> admin_identity option \<Rightarrow> string \<Rightarrow> http_request \<Rightarrow> site \<Rightarrow> logged" where
  "logged_publish p env who i r x =
     (case decode (de_publish (pr_decoders p)) r of Inl e \<Rightarrow> (Inl e, x, [])
      | Inr revision \<Rightarrow>
        (case publish (environment.truncate env) i revision (si_drafts x) (site_db x) of
           (Inl e, db) \<Rightarrow> (Inl e, with_db x db, [])
         | (Inr (v, hash), db) \<Rightarrow> (Inr (PublishAnswer (v, hash)), with_db x db,
             [audit_success p env who r ''version.publish'' (''version:'' @ v)])))"

text \<open>The handlers of runs and invitations.\<close>

definition logged_create_run ::
    "process \<Rightarrow> auth_environment \<Rightarrow> admin_identity option \<Rightarrow> http_request \<Rightarrow> site \<Rightarrow> logged" where
  "logged_create_run p env who r x =
     (case decode (de_run (pr_decoders p)) r of Inl e \<Rightarrow> (Inl e, x, [])
      | Inr q \<Rightarrow>
        (case create_run (environment.truncate env) q (site_db x) of
           (Inl e, db) \<Rightarrow> (Inl e, with_db x db, [])
         | (Inr a, db) \<Rightarrow> (Inr (RunAnswer a), with_db x db,
             [audit_success p env who r ''run.create'' (''run:'' @ rn_id a)])))"

definition logged_update_run ::
    "process \<Rightarrow> auth_environment \<Rightarrow> admin_identity option \<Rightarrow> string \<Rightarrow> http_request \<Rightarrow> site \<Rightarrow> logged" where
  "logged_update_run p env who i r x =
     (case decode (de_update (pr_decoders p)) r of Inl e \<Rightarrow> (Inl e, x, [])
      | Inr q \<Rightarrow>
        (case update_run (environment.truncate env) i q (site_db x) of
           (Inl e, db) \<Rightarrow> (Inl e, with_db x db, [])
         | (Inr _, db) \<Rightarrow> (Inr OkAnswer, with_db x db,
             [audit_success p env who r ''run.status'' (''run:'' @ i)])))"

text \<open>The run of an invitation is read by its ID, so \<open>run.ID\<close> is the ID of the path.\<close>

definition logged_create_invitation ::
    "process \<Rightarrow> auth_environment \<Rightarrow> admin_identity option \<Rightarrow> string \<Rightarrow> http_request \<Rightarrow> site \<Rightarrow> logged" where
  "logged_create_invitation p env who i r x =
     (case decode_limit (de_invite (pr_decoders p)) small_body r of Inl e \<Rightarrow> (Inl e, x, [])
      | Inr hours \<Rightarrow>
        (case create_invitation (environment.truncate env) (on_origin (co_server (pr_config p))) i hours (site_db x) of
           (Inl e, db) \<Rightarrow> (Inl e, with_db x db, [])
         | (Inr invitation, db) \<Rightarrow> (Inr (InviteAnswer invitation), with_db x db,
             [audit_success p env who r ''invitation.create'' (''run:'' @ i)])))"

text \<open>
  The exports. Both formats of the table of tasks have their own call of \<open>audit\<close>: before the JSON answer,
  and after the lines of the CSV file. An error of the connection while a file is written is not modelled.
\<close>

definition logged_key ::
    "process \<Rightarrow> auth_environment \<Rightarrow> admin_identity option \<Rightarrow> string \<Rightarrow> http_request \<Rightarrow> site \<Rightarrow> logged" where
  "logged_key p env who i r x =
     (case run_key_view (en_sha env) i (site_db x) of Inl e \<Rightarrow> (Inl e, x, [])
      | Inr k \<Rightarrow> (Inr (KeyAnswer k), x, [audit_success p env who r ''export.owner_key'' (''run:'' @ ok_run k)]))"

definition logged_export ::
    "process \<Rightarrow> auth_environment \<Rightarrow> admin_identity option \<Rightarrow> string \<Rightarrow> http_request \<Rightarrow> site \<Rightarrow> logged" where
  "logged_export p env who i r x =
     (case export (environment.truncate env) (pr_database_bytes p) (pr_active p) (hq_query r ''format'') i (site_db x) of
        Inl e \<Rightarrow> (Inl e, x, [])
      | Inr (Json j) \<Rightarrow> (Inr (ExportAnswer (Json j)), x,
          [audit_success p env who r ''export.blinded'' (''run:'' @ je_run j)])
      | Inr (Csv c) \<Rightarrow> (Inr (ExportAnswer (Csv c)), x,
          [audit_success p env who r ''export.blinded'' (''run:'' @ i)]))"

definition logged_event_export ::
    "process \<Rightarrow> auth_environment \<Rightarrow> admin_identity option \<Rightarrow> string \<Rightarrow> http_request \<Rightarrow> site \<Rightarrow> logged" where
  "logged_event_export p env who i r x =
     (case event_export (environment.truncate env) i (site_db x) of Inl e \<Rightarrow> (Inl e, x, [])
      | Inr ex \<Rightarrow> (Inr (EventsAnswer ex), x, [audit_success p env who r ''export.events'' (''run:'' @ fst ex)]))"

section \<open>Logging in and out\<close>

text \<open>
  \<open>login\<close> with the record of every early return; the name is cut to 128 bytes but for a success. The errors
  of \<open>createAdminSession\<close> leave the handler without a record.
\<close>

definition logged_verify ::
    "auth_environment \<Rightarrow> string \<times> string \<Rightarrow> login_request \<Rightarrow> login_state
      \<Rightarrow> (string \<times> admin_identity) result \<times> login_state \<times> audit_record list" where
  "logged_verify env origin q st =
     (let user = tbl_lookup us_name (lq_username q) (ac_users (ls_accounts st));
          hash = (case user of None \<Rightarrow> dummy_bcrypt | Some u \<Rightarrow> us_hash u);
          role = (case user of None \<Rightarrow> [] | Some u \<Rightarrow> us_role u);
          key = login_key (en_sha env) (en_lower env) (lq_source q) (lq_username q)
      in if \<not> en_matches env hash (lq_password q) \<or> role = [] then
           (case failed (en_clock env 13) key (ls_failures st) of
              None \<Rightarrow> (Inl (Fault ''nil pointer dereference''), st, [])
            | Some l \<Rightarrow> (Inl bad_login, st\<lparr>ls_failures := l\<rparr>,
                [audit env (Some origin) (bounded_audit_name (lq_username q)) ''login'' ''admin'' ''failure'']))
         else case create_admin_session env (lq_username q) hash role (token (lq_cookie q)) (ls_accounts st) of
             (Inl e, ac) \<Rightarrow> (Inl e, st, [])
           | (Inr (t, csrf), ac) \<Rightarrow>
               (Inr (t, \<lparr>ai_authenticated = True, ai_username = lq_username q, ai_role = role, ai_csrf = csrf\<rparr>),
                st\<lparr>ls_accounts := ac, ls_failures := succeeded key (ls_failures st)\<rparr>,
                [audit env (Some origin) (lq_username q) ''login'' ''admin'' ''success'']))"

definition logged_login ::
    "auth_environment \<Rightarrow> string \<times> string \<Rightarrow> login_request \<Rightarrow> login_state
      \<Rightarrow> (string \<times> admin_identity) result \<times> login_state \<times> audit_record list" where
  "logged_login env origin q st =
     (let name = lq_username q;
          refused = (\<lambda>outcome. [audit env (Some origin) (bounded_audit_name name) ''login'' ''admin'' outcome]) in
      case allow (en_clock env 10) (source_login_key (lq_source q)) 30 minute (ls_windows st) of
        (w1, wait, False) \<Rightarrow> (Inl (retry_after wait), st\<lparr>ls_windows := w1\<rparr>, refused ''rate_limited'')
      | (w1, _, True) \<Rightarrow>
        (let st1 = st\<lparr>ls_windows := w1\<rparr> in
         if length name < 1 \<or> length name > 128 \<or> trim_space name \<noteq> name then (Inl bad_login, st1, refused ''failure'')
         else
           (let (l, wait) = blocked (en_clock env 11) (login_key (en_sha env) (en_lower env) (lq_source q) name)
                  (ls_failures st1);
                st2 = st1\<lparr>ls_failures := l\<rparr>
            in if wait > 0 then (Inl (retry_after wait), st2, refused ''rate_limited'')
               else case allow (en_clock env 12) (account_login_key (en_lower env) name) 10 minute (ls_windows st2) of
                   (w2, wait2, pass) \<Rightarrow>
                     if \<not> pass then (Inl (retry_after wait2), st2\<lparr>ls_windows := w2\<rparr>, refused ''rate_limited'')
                     else logged_verify env origin q (st2\<lparr>ls_windows := w2\<rparr>))))"

definition logged_log_in :: "process \<Rightarrow> auth_environment \<Rightarrow> http_request \<Rightarrow> site \<Rightarrow> logged" where
  "logged_log_in p env r x =
     (case decode_limit (de_login (pr_decoders p)) small_body r of Inl e \<Rightarrow> (Inl e, x, [])
      | Inr b \<Rightarrow>
        (case logged_login env (request_origin p env r) \<lparr>lq_source = source_of (pr_config p) r,
            lq_cookie = hq_cookie r admin_cookie, lq_username = lb_username b, lq_password = lb_password b\<rparr> (site_login x) of
           (a, st, records) \<Rightarrow> (map_sum id LoginAnswer a, with_login x st, records)))"

definition logged_log_out ::
    "process \<Rightarrow> auth_environment \<Rightarrow> admin_identity option \<Rightarrow> http_request \<Rightarrow> site \<Rightarrow> logged" where
  "logged_log_out p env who r x =
     (Inr OkAnswer, x\<lparr>si_accounts := logout env (hq_cookie r admin_cookie) (si_accounts x)\<rparr>,
      [audit_success p env who r ''logout'' ''admin''])"

section \<open>Serving with the log\<close>

text \<open>The handlers that never call \<open>audit\<close> are those of \<open>Serving\<close>.\<close>

definition logged_handle ::
    "process \<Rightarrow> auth_environment \<Rightarrow> endpoint \<Rightarrow> string list \<Rightarrow> admin_identity option \<Rightarrow> http_request \<Rightarrow> site \<Rightarrow> logged" where
  "logged_handle p env e vs who r x =
     (let i = (case vs of [] \<Rightarrow> [] | v # _ \<Rightarrow> v) in
      case e of
        CreateDraft \<Rightarrow> logged_create_draft p env who r x
      | UpdateDraft \<Rightarrow> logged_update_draft p env who i r x
      | PublishDraft \<Rightarrow> logged_publish p env who i r x
      | CreateRun \<Rightarrow> logged_create_run p env who r x
      | UpdateRun \<Rightarrow> logged_update_run p env who i r x
      | CreateInvitation \<Rightarrow> logged_create_invitation p env who i r x
      | ShowKey \<Rightarrow> logged_key p env who i r x
      | ExportTasks \<Rightarrow> logged_export p env who i r x
      | ExportEvents \<Rightarrow> logged_event_export p env who i r x
      | LogIn \<Rightarrow> logged_log_in p env r x
      | LogOut \<Rightarrow> logged_log_out p env who r x
      | _ \<Rightarrow> (case handle p env e vs r x of (a, y) \<Rightarrow> (a, y, [])))"

text \<open>\<open>ServeHTTP\<close> as in \<open>serve\<close>; what the guard found reaches the handler with the request.\<close>

definition logged_serve :: "process \<Rightarrow> auth_environment \<Rightarrow> http_request \<Rightarrow> site \<Rightarrow> logged" where
  "logged_serve p env r x =
     (if asset_path (hq_segments r) then (serve_asset p r, x, [])
      else case first_match r routes of
        None \<Rightarrow> (Inl (Problem 404 ''not found''), x, [])
      | Some (g, e, vs) \<Rightarrow>
          (case pass_route (pr_config p) (en_clock env 20) r (sv_windows (si_server x)) of
             (Some err, w) \<Rightarrow> (Inl err, x\<lparr>si_server := (si_server x)\<lparr>sv_windows := w\<rparr>\<rparr>, [])
           | (None, w) \<Rightarrow>
               (let y = x\<lparr>si_server := (si_server x)\<lparr>sv_windows := w\<rparr>\<rparr> in
                case guarded (guard_env env) g r (si_accounts y) of Inl err \<Rightarrow> (Inl err, y, [])
                | Inr who \<Rightarrow> logged_handle p env e vs who r y)))"

section \<open>Commands\<close>

text \<open>\<open>SetUser\<close>, \<open>RemoveStudy\<close> and \<open>PurgeRun\<close> with their records, which have no request.\<close>

definition logged_set_user ::
    "auth_environment \<Rightarrow> string \<Rightarrow> string \<Rightarrow> string \<Rightarrow> accounts \<Rightarrow> unit result \<times> accounts \<times> audit_record list" where
  "logged_set_user env name password role ac =
     (case set_user env name password role ac of
        (Inl e, ac') \<Rightarrow> (Inl e, ac', [])
      | (Inr _, ac') \<Rightarrow> (Inr (), ac', [audit env None name ''account.set'' (''user:'' @ name) ''success'']))"

definition logged_remove_study ::
    "auth_environment \<Rightarrow> string \<Rightarrow> database \<Rightarrow> unit result \<times> database \<times> audit_record list" where
  "logged_remove_study env i db =
     (case remove_study i db of
        (Inl e, db') \<Rightarrow> (Inl e, db', [])
      | (Inr _, db') \<Rightarrow> (Inr (), db', [audit env None ''system'' ''version.remove'' (''version:'' @ i) ''success'']))"

text \<open>
  A purge writes its record after the cleanup: the deletion was committed, so that a failed cleanup is on
  record as pending.
\<close>

definition logged_purge_run ::
    "auth_environment \<Rightarrow> string option \<Rightarrow> string \<Rightarrow> database \<Rightarrow> unit result \<times> database \<times> audit_record list" where
  "logged_purge_run env cleanup i db =
     (case purge_delete i db of
        (Inl e, db1) \<Rightarrow> (Inl e, db1, [])
      | (Inr _, db1) \<Rightarrow>
          (case cleanup of
             Some err \<Rightarrow> (Inl (Internal (''participant rows deleted; database cleanup is pending: '' @ err
               @ ''; retry purge --run '' @ i @ '' --confirm'')), db1,
               [audit env None ''system'' ''retention.purge'' (''run:'' @ i) ''pending_cleanup''])
           | None \<Rightarrow> (Inr (), purge_mark (en_clock env 0) i db1,
               [audit env None ''system'' ''retention.purge'' (''run:'' @ i) ''success''])))"

text \<open>The commands that call them; a record that was written stays when a later purge fails.\<close>

definition purge_env :: "shell \<Rightarrow> nat \<Rightarrow> auth_environment" where
  "purge_env sh k = (sh_env sh)\<lparr>en_clock := (\<lambda>n. en_clock (sh_env sh) (n + k))\<rparr>"

fun logged_purge_runs :: "shell \<Rightarrow> nat \<Rightarrow> string list \<Rightarrow> database \<Rightarrow> unit result \<times> database \<times> audit_record list" where
  "logged_purge_runs sh k [] db = (Inr (), db, [])"
| "logged_purge_runs sh k (i # is) db =
     (case logged_purge_run (purge_env sh k) (sh_cleanup sh k) i db of
        (Inl e, db1, records) \<Rightarrow> (Inl e, db1, records)
      | (Inr _, db1, records) \<Rightarrow>
          (case logged_purge_runs sh (Suc k) is db1 of (a, db2, later) \<Rightarrow> (a, db2, records @ later)))"

definition logged_purge_command ::
    "shell \<Rightarrow> flag_set \<Rightarrow> database_file \<Rightarrow> unit result \<times> notice list \<times> database_file \<times> audit_record list" where
  "logged_purge_command sh fl f =
     (let i = text_flag fl ''run''; overdue_only = bool_flag fl ''overdue'' in
      if i = [] \<longleftrightarrow> \<not> overdue_only then (Inl (Internal ''purge requires exactly one of --run or --overdue''), [], f, [])
      else
        (let l = purge_candidates (en_clock (sh_env sh) 0) i overdue_only (df_db f) in
         if l = [] then (Inr (), [NothingToPurge], f, [])
         else if \<not> bool_flag fl ''confirm'' then (Inr (), map PurgeOf l @ [PurgeDryRun], f, [])
         else (case logged_purge_runs sh 1 (map pp_run l) (df_db f) of
             (Inl e, db, records) \<Rightarrow> (Inl e, map PurgeOf l, f\<lparr>df_db := db\<rparr>, records)
           | (Inr _, db, records) \<Rightarrow> (Inr (), map PurgeOf l @ [Purged (length l)], f\<lparr>df_db := db\<rparr>, records))))"

definition logged_user_command ::
    "shell \<Rightarrow> flag_set \<Rightarrow> files \<Rightarrow> database_file \<Rightarrow> unit result \<times> notice list \<times> database_file \<times> audit_record list" where
  "logged_user_command sh fl fs f =
     (case user_password sh fl fs of Inl e \<Rightarrow> (Inl e, [], f, [])
      | Inr given \<Rightarrow>
          (let name = text_flag fl ''username''; role = text_flag fl ''role'';
               password = (if given = [] then sh_text sh else given) in
           case logged_set_user (sh_env sh) name password role (df_accounts f) of
             (Inl e, ac, records) \<Rightarrow> (Inl e, [], f\<lparr>df_accounts := ac\<rparr>, records)
           | (Inr _, ac, records) \<Rightarrow>
               (Inr (), AccountSaved role name # (if given = [] then [GeneratedPassword password] else []),
                f\<lparr>df_accounts := ac\<rparr>, records)))"

definition logged_remove_command ::
    "shell \<Rightarrow> flag_set \<Rightarrow> database_file \<Rightarrow> unit result \<times> notice list \<times> database_file \<times> audit_record list" where
  "logged_remove_command sh fl f =
     (let i = text_flag fl ''version'' in
      case get_study i (df_db f) of Inl e \<Rightarrow> (Inl e, [], f, [])
      | Inr s \<Rightarrow>
          if \<not> bool_flag fl ''confirm'' then (Inr (), [RemovalOf s, RemovalDryRun], f, [])
          else (case logged_remove_study (sh_env sh) i (df_db f) of
             (Inl e, db, records) \<Rightarrow> (Inl e, [RemovalOf s], f\<lparr>df_db := db\<rparr>, records)
           | (Inr _, db, records) \<Rightarrow> (Inr (), [RemovalOf s, Removed i], f\<lparr>df_db := db\<rparr>, records)))"

text \<open>The commands on a database but for \<open>serve\<close>; \<open>import\<close> and \<open>list\<close> never call \<open>audit\<close>.\<close>

definition logged_command ::
    "shell \<Rightarrow> string \<Rightarrow> flag_set \<Rightarrow> database_file \<Rightarrow> files
      \<Rightarrow> unit result \<times> notice list \<times> database_file \<times> audit_record list" where
  "logged_command sh command fl f fs =
     (if command = ''user'' then logged_user_command sh fl fs f
      else if command = ''import'' then (case import_command sh fl f of (a, printed, g) \<Rightarrow> (a, printed, g, []))
      else if command = ''list'' then (case list_command f of (a, printed, g) \<Rightarrow> (a, printed, g, []))
      else if command = ''remove'' then logged_remove_command sh fl f
      else logged_purge_command sh fl f)"

end
