(* ===== verification/AuditTheorems.thy ===== *)
theory AuditTheorems
  imports AuditLog CliTheorems
begin

text \<open>
  What the audit log tells: every change of studies, drafts, runs, invitations and accounts over HTTP and
  every export of participant data is on record under the name of the administrator, and no text of a
  request can forge a record of its own.
\<close>

section \<open>The log beside the service\<close>

text \<open>Without their records the logged handlers are the handlers of the service.\<close>

lemma logged_verify_forgets: "logged_verify env origin q st = (a, st', l) \<Longrightarrow> verify_login env q st = (a, st')"
  by (auto simp: logged_verify_def verify_login_def Let_def split: if_splits option.splits sum.splits prod.splits)

lemma logged_login_forgets: "logged_login env origin q st = (a, st', l) \<Longrightarrow> login env q st = (a, st')"
  by (auto simp: logged_login_def login_def Let_def dest: logged_verify_forgets split: if_splits prod.splits bool.splits)





text \<open>A request is turned away, serves a file, or reaches its handler.\<close>

lemma logged_serve_cases:
  assumes "logged_serve p env r x = (a, x', l)"
  obtains "x' = x \<or> (\<exists>w. x' = charge x w)" "l = []" "(\<exists>e. a = Inl e) \<or> (\<exists>t. a = Inr (FileAnswer t))"
  | g e vs w who where "first_match r routes = Some (g, e, vs)"
      "pass_route (pr_config p) (en_clock env 20) r (sv_windows (si_server x)) = (None, w)"
      "guarded (guard_env env) g r (si_accounts x) = Inr who" "logged_handle p env e vs who r (charge x w) = (a, x', l)"
proof (cases "asset_path (hq_segments r)")
  case True
  with assms that(1) show ?thesis by (auto simp: logged_serve_def serve_asset_def)
next
  case False
  show ?thesis
  proof (cases "first_match r routes")
    case None
    with False assms that(1) show ?thesis by (auto simp: logged_serve_def)
  next
    case (Some m)
    obtain g e vs where m: "m = (g, e, vs)" by (metis prod_cases3)
    obtain err w where w: "pass_route (pr_config p) (en_clock env 20) r (sv_windows (si_server x)) = (err, w)" by fastforce
    have s: "(case err of Some f \<Rightarrow> (Inl f, charge x w, []) | None \<Rightarrow> (case guarded (guard_env env) g r (si_accounts x) of
        Inl f \<Rightarrow> (Inl f, charge x w, []) | Inr who \<Rightarrow> logged_handle p env e vs who r (charge x w))) = (a, x', l)"
      using assms False Some m w by (cases err) (simp_all add: logged_serve_def Let_def flip: charge_def)
    show ?thesis
    proof (cases "err = None \<and> (\<exists>who. guarded (guard_env env) g r (si_accounts x) = Inr who)")
      case True
      then obtain who where "err = None" "guarded (guard_env env) g r (si_accounts x) = Inr who" by blast
      with s that(2) Some m w show ?thesis by simp
    next
      case False
      with s that(1) show ?thesis by (auto split: option.splits sum.splits)
    qed
  qed
qed

section \<open>Changes and exports\<close>


definition exports :: "endpoint list" where
  "exports = [ShowKey, ExportTasks, ExportEvents]"


text \<open>A handler that changes or exports something fails without a trace, or succeeds and writes one record.\<close>

lemma owner_errors_keep:
  "create_draft benv b ds = (Inl e, ds') \<Longrightarrow> ds' = ds" "update_draft benv i n b ds = (Inl e, ds') \<Longrightarrow> ds' = ds"
  "publish benv i n ds db = (Inl e, db') \<Longrightarrow> db' = db" "create_run benv q db = (Inl e, db') \<Longrightarrow> db' = db"
  "update_run benv i u db = (Inl e, db') \<Longrightarrow> db' = db" "create_invitation benv origin i hours db = (Inl e, db') \<Longrightarrow> db' = db"
  by (auto simp: create_draft_def update_draft_def publish_def create_run_def update_run_def create_invitation_def Let_def
      split: option.splits sum.splits prod.splits if_splits)

lemma with_db_same [simp]: "with_db x (site_db x) = x"
  by (simp add: with_db_def site_db_def)


text \<open>The action under which each of these handlers is on record.\<close>

definition change_action :: "endpoint \<Rightarrow> string" where
  "change_action e =
     (case e of CreateDraft \<Rightarrow> ''draft.create'' | UpdateDraft \<Rightarrow> ''draft.update'' | PublishDraft \<Rightarrow> ''version.publish''
      | CreateRun \<Rightarrow> ''run.create'' | UpdateRun \<Rightarrow> ''run.status'' | CreateInvitation \<Rightarrow> ''invitation.create''
      | ShowKey \<Rightarrow> ''export.owner_key'' | ExportTasks \<Rightarrow> ''export.blinded'' | ExportEvents \<Rightarrow> ''export.events'' | _ \<Rightarrow> [])"

definition recorded ::
    "process \<Rightarrow> auth_environment \<Rightarrow> string \<Rightarrow> admin_identity option \<Rightarrow> http_request \<Rightarrow> site \<Rightarrow> logged \<Rightarrow> bool" where
  "recorded p env action who r x res \<longleftrightarrow> (case res of (a, y, l) \<Rightarrow> (\<exists>err. a = Inl err) \<and> y = x \<and> l = []
     \<or> (\<exists>ans. a = Inr ans) \<and> (\<exists>object. l = [audit_success p env who r action object]))"

lemma changes_recorded:
  "recorded p env ''draft.create'' who r x (logged_create_draft p env who r x)"
  "recorded p env ''draft.update'' who r x (logged_update_draft p env who i r x)"
  "recorded p env ''version.publish'' who r x (logged_publish p env who i r x)"
  "recorded p env ''run.create'' who r x (logged_create_run p env who r x)"
  "recorded p env ''run.status'' who r x (logged_update_run p env who i r x)"
  "recorded p env ''invitation.create'' who r x (logged_create_invitation p env who i r x)"
  by (auto simp: recorded_def logged_create_draft_def logged_update_draft_def logged_publish_def logged_create_run_def
      logged_update_run_def logged_create_invitation_def dest!: owner_errors_keep split: sum.splits prod.splits)

lemma exports_recorded:
  "recorded p env ''export.owner_key'' who r x (logged_key p env who i r x)"
  "recorded p env ''export.blinded'' who r x (logged_export p env who i r x)"
  "recorded p env ''export.events'' who r x (logged_event_export p env who i r x)"
  by (auto simp: recorded_def logged_key_def logged_export_def logged_event_export_def split: sum.splits export_body.splits)

lemma handlers_recorded:
  "e \<in> set owner_writes \<union> set exports \<Longrightarrow> recorded p env (change_action e) who r x (logged_handle p env e vs who r x)"
  unfolding owner_writes_def exports_def logged_handle_def Let_def
  by (auto simp: change_action_def changes_recorded exports_recorded)




section \<open>Logins\<close>

text \<open>The record of a login, read off its result.\<close>

definition login_record :: "auth_environment \<Rightarrow> string \<times> string \<Rightarrow> string \<Rightarrow> 'a result \<Rightarrow> audit_record list" where
  "login_record env origin name a =
     (case a of Inr _ \<Rightarrow> [audit env (Some origin) name ''login'' ''admin'' ''success'']
      | Inl (RetryAfter n) \<Rightarrow> [audit env (Some origin) (bounded_audit_name name) ''login'' ''admin'' ''rate_limited'']
      | Inl e \<Rightarrow> if e = bad_login then [audit env (Some origin) (bounded_audit_name name) ''login'' ''admin'' ''failure''] else [])"

lemma login_record_errors [simp]:
  "login_record env origin name (Inl bad_login) = [audit env (Some origin) (bounded_audit_name name) ''login'' ''admin'' ''failure'']"
  "login_record env origin name (Inl (retry_after n))
     = [audit env (Some origin) (bounded_audit_name name) ''login'' ''admin'' ''rate_limited'']"
  "login_record env origin name (Inl credentials_changed) = []" "login_record env origin name (Inl (constraint_failed t)) = []"
  "login_record env origin name (Inl (Fault t)) = []"
  "login_record env origin name (Inr v) = [audit env (Some origin) name ''login'' ''admin'' ''success'']"
  by (simp_all add: login_record_def bad_login_def retry_after_def credentials_changed_def constraint_failed_def)

lemma create_session_unrecorded:
  "create_admin_session env name hash role old ac = (Inl e, ac') \<Longrightarrow> [] = login_record benv origin n (Inl e :: 'a result)"
  by (auto simp: create_admin_session_def Let_def split: option.splits if_splits)

lemma logged_verify_records:
  "logged_verify env origin q st = (a, st', l) \<Longrightarrow> l = login_record env origin (lq_username q) a"
  by (auto simp: logged_verify_def Let_def intro: create_session_unrecorded split: if_splits option.splits sum.splits prod.splits)

lemma logged_login_records:
  "logged_login env origin q st = (a, st', l) \<Longrightarrow> l = login_record env origin (lq_username q) a"
  by (auto simp: logged_login_def Let_def dest: logged_verify_records split: if_splits prod.splits bool.splits)

lemma bounded_name_length: "length (bounded_audit_name name) \<le> 128"
  by (simp add: bounded_audit_name_def)

lemma login_name_bounded: "login env q st = (Inr v, st') \<Longrightarrow> length (lq_username q) \<le> 128"
  by (auto simp: login_def Let_def split: if_splits prod.splits bool.splits)

lemma audit_actor [simp]: "au_actor (audit env origin actor action object outcome) = actor"
  "au_action (audit env origin actor action object outcome) = action"
  "au_outcome (audit env origin actor action object outcome) = outcome"
  by (simp_all add: audit_def split: option.splits prod.splits)

text \<open>C9: Every login ends with the record of its outcome and no other: a success under the name of the
  account, a wrong name or password as a failure and a full limiter as rate limited under the name that the
  client sent, cut to 128 bytes; only a login that fails while its session is stored leaves none. No record
  of a login has an actor of more than 128 bytes.\<close>

theorem logins_audited:
  "(case logged_login env origin q st of (a, st', records) \<Rightarrow> login env q st = (a, st')
     \<and> records = (case a of Inr _ \<Rightarrow> [audit env (Some origin) (lq_username q) ''login'' ''admin'' ''success'']
        | Inl (RetryAfter n) \<Rightarrow> [audit env (Some origin) (bounded_audit_name (lq_username q)) ''login'' ''admin'' ''rate_limited'']
        | Inl e \<Rightarrow> if e = bad_login
            then [audit env (Some origin) (bounded_audit_name (lq_username q)) ''login'' ''admin'' ''failure''] else [])
     \<and> list_all (\<lambda>rec. length (au_actor rec) \<le> 128) records)"
proof -
  obtain a st' l where l: "logged_login env origin q st = (a, st', l)" by (metis prod_cases3)
  note login = logged_login_forgets [OF l]
  note records = logged_login_records [OF l]
  have "list_all (\<lambda>rec. length (au_actor rec) \<le> 128) l"
    unfolding records login_record_def
    using login login_name_bounded bounded_name_length by (auto split: sum.splits api_error.splits)
  with login records show ?thesis by (simp add: l login_record_def)
qed

text \<open>A request that fails leaves no record of a success, only that of a failed login.\<close>

theorem failures_audited:
  assumes "logged_serve p env r x = (Inl err, x', records)" "rec \<in> set records"
  shows "au_action rec = ''login'' \<and> au_outcome rec \<in> {''rate_limited'', ''failure''}"
  using assms(1)
proof (cases rule: logged_serve_cases)
  case 1
  with assms(2) show ?thesis by simp
next
  case (2 g e vs w who)
  consider "e \<in> set owner_writes \<union> set exports" | "e = LogIn" | "e = LogOut"
    | "e \<notin> set owner_writes \<union> set exports \<union> {LogIn, LogOut}" by blast
  then show ?thesis
  proof cases
    case 1
    from handlers_recorded [OF this, of p env who r "charge x w" vs] 2(4) assms(2) show ?thesis
      by (simp add: recorded_def)
  next
    case 2
    with \<open>logged_handle p env e vs who r (charge x w) = (Inl err, x', records)\<close> assms(2) show ?thesis
      by (auto simp: logged_handle_def logged_log_in_def login_record_def Let_def dest!: logged_login_records
          split: sum.splits prod.splits api_error.splits if_splits)
  next
    case 3
    with 2(4) show ?thesis by (simp add: logged_handle_def logged_log_out_def)
  next
    case 4
    with 2(4) assms(2) show ?thesis
      by (cases e) (auto simp: logged_handle_def owner_writes_def exports_def Let_def split: prod.splits)
  qed
qed

section \<open>The lines of the log\<close>

text \<open>A text without control characters, so without a line break.\<close>

definition plain :: "string \<Rightarrow> bool" where
  "plain s \<longleftrightarrow> list_all (\<lambda>c. 0x20 \<le> byte c) s"

lemma plain_simps [simp]: "plain []" "plain (c # s) \<longleftrightarrow> 0x20 \<le> byte c \<and> plain s" "plain (s @ t) \<longleftrightarrow> plain s \<and> plain t"
  by (simp_all add: plain_def)

lemma conts_high: "conts n s \<Longrightarrow> list_all (\<lambda>c. 0x80 \<le> byte c) (take n s)"
  by (induction n s rule: conts.induct) (simp_all add: byte_in_def)

lemma rune_plain:
  assumes "utf8_width (c # s) = w" "2 \<le> w"
  shows "plain (c # take (w - 1) s)"
proof -
  obtain n lo hi where l: "utf8_lead (byte c) = (n, lo, hi)" by (metis prod_cases3)
  with assms have w: "n = w" "conts (w - 1) s" by (auto split: if_splits)
  have "0x20 \<le> byte c" using l w(1) assms(2) by (auto simp: utf8_lead_def split: if_splits)
  moreover have "plain (take (w - 1) s)" using conts_high [OF w(2)] by (auto simp: plain_def list_all_iff)
  ultimately show ?thesis by simp
qed

lemma json_ascii_plain: "plain (json_ascii c)"
proof -
  have "plain [hex_digit n]" if "n < 16" for n
    using that by (auto simp: hex_digit_def less_Suc_eq numeral_eq_Suc byte_def)
  moreover have "byte c < 256" by (rule byte_bound)
  ultimately have "plain [hex_digit (byte c div 16), hex_digit (byte c mod 16)]" by simp
  then show ?thesis
    by (auto simp: json_ascii_def u_escape_def byte_def)
qed

lemma json_body_plain: "plain (json_body s)"
proof (induction s rule: json_body.induct)
  case 1
  then show ?case by simp
next
  case (2 c s)
  define w where "w = utf8_width (c # s)"
  consider "w = 0" | "w = 1" | "2 \<le> w" by linarith
  then show ?case
  proof cases
    case 1
    with "2.IH"(1) [OF w_def] show ?thesis by (simp add: w_def Let_def byte_def del: utf8_width.simps)
  next
    case 2
    with "2.IH"(2) [OF w_def] json_ascii_plain show ?thesis by (simp add: w_def Let_def del: utf8_width.simps)
  next
    case 3
    from "2.IH"(3) [OF w_def _ _ refl] 3 have "plain (json_body (drop (w - 1) s))" by simp
    moreover have "plain (c # take (w - 1) s)" using rune_plain [OF w_def [symmetric] 3] .
    ultimately show ?thesis using 3
      by (simp add: w_def [symmetric] Let_def byte_def del: utf8_width.simps)
  qed
qed

lemma commas_plain: "\<forall>s \<in> set ss. plain s \<Longrightarrow> plain (commas ss)"
  by (induction ss rule: commas.induct) (simp_all add: byte_def)

lemma json_string_plain: "plain (json_string s)"
  using json_body_plain [of s] by (simp add: json_string_def byte_def)

text \<open>Whatever a request puts into its user name or its headers, a record is one line.\<close>

theorem audit_one_line: "plain (audit_line stamp a)"
proof -
  have "plain (json_object kvs)" if "\<forall>kv \<in> set kvs. plain (snd kv)" for kvs
    using that unfolding json_object_def
    by (simp add: byte_def) (rule commas_plain, auto simp: json_string_plain byte_def)
  then show ?thesis by (auto simp: audit_line_def optional_field_def json_string_plain)
qed

section \<open>Commands\<close>

lemma logged_purge_run_forgets:
  "logged_purge_run env cleanup i db = (a, db', l) \<Longrightarrow> purge_run (environment.truncate env) cleanup i db = (a, db')"
  by (auto simp: logged_purge_run_def purge_run_def environment.defs split: prod.splits sum.splits option.splits)

lemma logged_purge_runs_forget: "logged_purge_runs sh k js db = (a, db', l) \<Longrightarrow> purge_runs sh k js db = (a, db')"
proof (induction sh k js db arbitrary: l rule: logged_purge_runs.induct)
  case (2 sh k i js db)
  obtain q db1 l1 where q: "logged_purge_run (purge_env sh k) (sh_cleanup sh k) i db = (q, db1, l1)" by (metis prod_cases3)
  have "environment.truncate (purge_env sh k) = (environment.truncate (sh_env sh))\<lparr>en_clock := (\<lambda>n. en_clock (sh_env sh) (n + k))\<rparr>"
    by (simp add: purge_env_def environment.defs)
  with logged_purge_run_forgets [OF q] q 2 show ?case by (auto split: sum.splits prod.splits)
qed simp

lemma logged_command_forgets:
  assumes "logged_command sh command fl f fs = (a, printed, g, l)" "command \<noteq> ''serve''"
  shows "database_command sh command fl s f fs = (a, printed, g)"
  using assms
  by (auto simp: logged_command_def database_command_def logged_user_command_def user_command_def logged_set_user_def
      logged_remove_command_def remove_command_def logged_remove_study_def logged_purge_command_def purge_command_def Let_def
      dest: logged_purge_runs_forget split: if_splits sum.splits prod.splits)

lemma purge_without_record: "logged_purge_runs sh k js db = (a, db', []) \<Longrightarrow> db' = db"
  by (induction sh k js db arbitrary: db' rule: logged_purge_runs.induct)
    (auto simp: logged_purge_run_def purge_delete_def split: prod.splits sum.splits option.splits if_splits)

text \<open>
  Every command but \<open>import\<close> that changes a database writes a record. \<open>import\<close> publishes a version without
  any, although the README counts publications among what is audited.
\<close>

theorem commands_audited:
  assumes "logged_command sh command fl f fs = (a, printed, g, l)" "command \<noteq> ''import''" "g \<noteq> f"
  shows "l \<noteq> []"
proof
  assume none: "l = []"
  show False
    using assms none
    by (auto simp: logged_command_def logged_user_command_def logged_set_user_def set_user_def list_command_def
        logged_remove_command_def logged_remove_study_def remove_study_def logged_purge_command_def Let_def
        dest: purge_without_record split: if_splits sum.splits prod.splits option.splits)
qed

theorem import_not_audited: "snd (snd (snd (logged_command sh ''import'' fl f fs))) = []"
  by (simp add: logged_command_def split: prod.splits)

end
