(* ===== verification/AuditExamples.thy ===== *)
theory AuditExamples
  imports AuditTheorems ServingExamples
begin












end
