(* ===== verification/Spec2Isabelle.thy ===== *)
theory Spec2Isabelle
  imports ReportExamples NetworkTheorems CliExamples ExperimentExamples AuditExamples
begin

text \<open>
  A verification of the tree-test service of this repository: a web server (Go) on which researchers
  publish menu trees, participants look for pages in them, and the attempts are scored and exported.

  \<^bold>\<open>The program.\<close> \<open>internal/study\<close> holds the model of a study: \<open>types.go\<close>, the parser of the
  Markdown menus in \<open>parse.go\<close>, and the validation that freezes a bundle in \<open>validate.go\<close>.
  \<open>internal/server\<close> is the service over one SQLite database (\<open>db.go\<close>): the participant API
  (\<open>participant.go\<close>, \<open>events.go\<close>), the frozen policy of allocation, scoring and timing (\<open>policy.go\<close>),
  rate limits (\<open>limits.go\<close>), administrator accounts and sessions (\<open>auth.go\<close>), studies, drafts and runs
  (\<open>admin.go\<close>, \<open>studies.go\<close>, \<open>invitations.go\<close>), the purge of participant data (\<open>purge.go\<close>) and the
  reports (\<open>reports.go\<close>), behind the HTTP routes of \<open>server.go\<close>, with an audit log (\<open>audit.go\<close>).
  \<open>cmd/treetest\<close> is the command line around it (\<open>main.go\<close>) with its listeners (\<open>serve.go\<close>).

  \<^bold>\<open>Conventions.\<close> A Go string is a list of bytes (\<open>char\<close>), so \<open>length\<close> is \<open>len\<close>. A handler takes its
  decoded request, an environment and the state, and gives a result and the new state; a returned
  error is a value of \<open>api_error\<close> (\<open>Prelude\<close>), with the status and text of \<open>problem\<close>, and \<open>Internal\<close>
  for any other error, which \<open>writeError\<close> hides behind a status 500 (quoted values in such texts are
  abbreviated, and the error of a rejected study reads \<open>invalid study\<close>). \<open>Fault\<close> stands for a panic or
  a loop that does not return: a slice read out of range in the participant API or the event log
  (\<open>slice_at\<close>), a missing panel or allocation, a nil entry of the login limiter, an endless walk to the
  ancestors of a node. \<open>NoFault\<close> proves that no request meets one. A table is the list of its rows with the
  constraints of the schema checked on insertion; a transaction that fails gives the old database.
  The environment holds what a call reads from outside the repository: SHA-256, HMAC, bcrypt and
  \<open>strings.ToLower\<close> as functions, the successive readings of the clock and of the random source, the
  draws of the shuffles. A stored timestamp is its instant in nanoseconds, compared as the texts are
  compared (\<open>Clock\<close>, \<open>Stamps\<close>); a rate or a median is an exact rational number.

  \<^bold>\<open>Shared theories.\<close> \<open>Prelude\<close> (errors, results, keyed tables), \<open>Tables\<close> (the contract
  \<open>keyed_table\<close> of a table under a key, interpreted for the accounts, sessions and drafts),
  \<open>GoText\<close> and \<open>Json\<close> (the parts of \<open>strings\<close>, \<open>utf8\<close>, \<open>bufio\<close> and \<open>encoding/json\<close> that matter),
  \<open>Clock\<close> and \<open>Stamps\<close> (instants, \<open>serverElapsed\<close>, the order of stored texts and \<open>ORDER BY\<close>).

  \<^bold>\<open>Studies.\<close> \<open>StudyTypes\<close> has the structs of \<open>types.go\<close>; \<open>TreeParse\<close> is \<open>ParseTree\<close>, with soundness of the
  parsed tree and the round trip from a rendered tree; \<open>Validate\<close> is \<open>Validate\<close>, equal to a declarative
  contract, with the balance of panels and difficulty bands that follows. \<open>LoadStudy\<close> is \<open>LoadDir\<close>, which never
  leaves its directory (one that does not change while it is read) and gives bundles that validation never rejects for their files.

  \<^bold>\<open>Events and scores.\<close> \<open>NodeIndex\<close> is \<open>indexNodes\<close> and \<open>nodesFor\<close>; \<open>Events\<close> is the checking of a batch and the
  replay of \<open>appendEvents\<close>; \<open>EventLog\<close> and \<open>Navigation\<close> show what an accepted log is: well-formed,
  idempotent under repetition, a run of an abstract navigation relation. \<open>EventMetrics\<close> is
  \<open>eventMetricsV1\<close>. \<open>Policy\<close> and \<open>Shuffle\<close> are \<open>policy.go\<close> and \<open>shuffle\<close>: balanced allocation and uniform
  permutations.

  \<^bold>\<open>Limits.\<close> \<open>RateLimit\<close> is the fixed-window limiter and its quotas; \<open>Network\<close> and \<open>NetworkTheorems\<close> are
  \<open>sourceNetwork\<close> with the address parsing it rests on; \<open>LoginLimit\<close> is the limiter of failed logins.

  \<^bold>\<open>Participants.\<close> \<open>Store\<close> has the rows and loaders of \<open>db.go\<close>; \<open>Participant\<close> has \<open>join\<close>, \<open>session\<close>, \<open>start\<close>,
  \<open>events\<close> and \<open>finish\<close>. \<open>ParticipantInv\<close>, \<open>ParticipantSteps\<close>, \<open>ParticipantLog\<close>, \<open>ParticipantSafety\<close> and
  \<open>ParticipantTheorems\<close> carry the invariants over each handler; the locale \<open>transactional\<close> states
  what each handler promises (an error leaves the database alone, the invariant is kept) and is
  interpreted by each of them. \<open>ParticipantFrame\<close> says what they leave alone.

  \<^bold>\<open>Administration.\<close> \<open>RunAdmin\<close>, \<open>Invitations\<close>, \<open>Retention\<close>, \<open>Studies\<close>, \<open>Drafts\<close>, \<open>Views\<close> and \<open>Auth\<close> are the handlers
  of the administrator and the commands on versions, purges and accounts; \<open>RunLife\<close>, \<open>RunOps\<close>,
  \<open>Publishing\<close> and \<open>Purging\<close> show that they keep the invariants, and \<open>AuthTheorems\<close> what accounts and
  sessions guarantee.

  \<^bold>\<open>The service.\<close> \<open>Site\<close> joins all operations in one step relation over the database, the limiters, drafts
  and accounts; the two transactions of a purge are two steps with anything in between. \<open>SiteInv\<close>
  proves the joint invariant for every step, and \<open>SiteTheorems\<close> and \<open>SiteResults\<close> state what holds in
  every reachable state; \<open>Allocation\<close> adds the balance of the experiment over all
  enrolments. \<open>Reports\<close>, \<open>Summaries\<close> and \<open>Exports\<close> are \<open>reports.go\<close>; \<open>ReportTheorems\<close> and
  \<open>ExportTheorems\<close> relate the reports to the progress of the sessions and read the CSV back.

  \<^bold>\<open>Requests.\<close> \<open>Setup\<close> opens a database (\<open>OpenWithOptions\<close>, \<open>branding.go\<close>, \<open>identity.go\<close>) and shows that its
  identity key never changes. \<open>Routing\<close> has the route table, the same-origin check, the guards and the
  decoding of bodies, and \<open>Serving\<close> one request from its route to its answer. \<open>ServingTheorems\<close> shows that
  every request is a sequence of steps of \<open>Site\<close>, so that what holds in its reachable states holds in the
  service, and that only owners administer; \<open>NoFault\<close> that no request is answered by a \<open>Fault\<close>.

  \<^bold>\<open>Commands.\<close> \<open>Flags\<close>, \<open>Base64\<close> and \<open>Listen\<close> are the parts of package \<open>flag\<close>, of the key files and of \<open>serve.go\<close>
  that \<open>Cli\<close> uses: the function \<open>run\<close> of \<open>main.go\<close>, from the arguments to the files it leaves, and \<open>Backup\<close>. A
  \<open>shell\<close> holds what a process reads from its machine. \<open>CliTheorems\<close> shows that a command takes a database along
  steps of \<open>Site\<close> and touches no other file; \<open>serve\<close> is the sequence of its requests, with the limiters empty
  at the start. \<open>AuditLog\<close> has the handlers and commands once more with their calls of \<open>audit\<close>, each
  returning the records that it wrote; \<open>AuditTheorems\<close> shows that without the records they are those of
  \<open>Serving\<close> and \<open>Cli\<close>, and that no change, export or login goes unrecorded.

  \<^bold>\<open>Witnesses.\<close> \<open>Examples\<close>, \<open>ParticipantExamples\<close>, \<open>SiteExamples\<close>, \<open>AdminExamples\<close>, \<open>ReportExamples\<close>,
  \<open>ServingExamples\<close>, \<open>ExperimentExamples\<close>, \<open>AuditExamples\<close> and \<open>CliExamples\<close> run a small study from its text over
  HTTP requests and commands to the exported report, so no theorem is about an empty set of states.

  \<^bold>\<open>Loops and fuel.\<close> The ancestor loops of the replay are \<open>partial_function (option)\<close> and proved to return
  on the index of a session. \<open>expire_front\<close> is bounded by the length of its list, \<open>read_csv\<close> and
  \<open>trim_space\<close> by the length of their text, since each round takes an element away; the loop of the
  IPv6 parser by the eight fields of an address.

  \<^bold>\<open>Not modelled.\<close> \<open>url.Parse\<close>, the JSON decoder of bodies and \<open>http.FileServer\<close> are arguments of the model; the
  JSON encoding of answers, their headers and cookie attributes, and the wording of what commands print
  are left out. SQLite below the tables is not modelled, and a query or transaction is taken not to fail
  for a reason of the disk. Requests are served one after the other: SQLite serializes the
  transactions, but the few handlers that read before their transaction, or need the limiters as well, are
  taken as one step. The Prometheus counters of \<open>metrics.go\<close> are not
  modelled, since the program never reads them, nor are \<open>databaseBytes\<close> with \<open>files.go\<close>, whose value is an
  argument of the reports, and the embedded web pages.
\<close>

end
